theory Spec2Isabelle
  imports Main "HOL-Library.Log_Nat"
begin

section \<open>JavaScript numbers at integer values\<close>

text \<open>
  The cache stores its state in JavaScript numbers (IEEE doubles). Every number the
  cache computes from integer inputs is an integer-valued double, \<open>NaN\<close>, or the value
  \<open>undefined\<close> of an unassigned field, an array hole or a missing table key.
  \<open>Number n\<close> is the double whose value is the integer \<open>n\<close>.
\<close>

datatype jsnum = Undefined | NaN | Number int

text \<open>
  \<open>dbl n\<close> is the double nearest to the integer \<open>n\<close> (round to nearest, ties to even):
  integers of at most 53 bits are kept, a longer one is rounded to a multiple of
  \<open>2 ^ e\<close> where \<open>e\<close> is the number of excess bits. (Magnitudes below \<open>2 ^ 1024\<close>.)
\<close>

definition dbl :: "int \<Rightarrow> int" where
  "dbl n =
     (let a = \<bar>n\<bar>;
          e = nat (bitlen a - 53);
          q = a div 2 ^ e;
          r = a mod 2 ^ e;
          q' = (if 2 * r > 2 ^ e \<or> (2 * r = 2 ^ e \<and> odd q) then q + 1 else q)
      in sgn n * (q' * 2 ^ e))"

text \<open>\<open>ToInt32\<close> of ECMAScript on an integer: wrap into \<open>[-2^31, 2^31)\<close>.\<close>

definition ToInt32 :: "int \<Rightarrow> int" where
  "ToInt32 n = (n + 2 ^ 31) mod 2 ^ 32 - 2 ^ 31"

text \<open>\<open>undefined\<close> and \<open>NaN\<close> convert to 0 in the bitwise operators.\<close>

fun js_int32 :: "jsnum \<Rightarrow> int" where
  "js_int32 (Number n) = ToInt32 n"
| "js_int32 Undefined = 0"
| "js_int32 NaN = 0"

text \<open>\<open>x << k\<close>: the shift count is taken modulo 32 and the result is an int32.\<close>

definition js_shl :: "jsnum \<Rightarrow> nat \<Rightarrow> jsnum" where
  "js_shl x k = Number (ToInt32 (js_int32 x * 2 ^ (k mod 32)))"

text \<open>\<open>x & y\<close>: both operands are converted to int32.\<close>

definition js_and :: "jsnum \<Rightarrow> jsnum \<Rightarrow> jsnum" where
  "js_and x y = Number (and (js_int32 x) (js_int32 y))"

text \<open>\<open>+\<close>, \<open>-\<close> and \<open>*\<close> on numbers: \<open>undefined\<close> converts to \<open>NaN\<close>, which is absorbing.\<close>

fun js_add :: "jsnum \<Rightarrow> jsnum \<Rightarrow> jsnum" where
  "js_add (Number a) (Number b) = Number (dbl (a + b))"
| "js_add _ _ = NaN"

fun js_sub :: "jsnum \<Rightarrow> jsnum \<Rightarrow> jsnum" where
  "js_sub (Number a) (Number b) = Number (dbl (a - b))"
| "js_sub _ _ = NaN"

fun js_mul :: "jsnum \<Rightarrow> jsnum \<Rightarrow> jsnum" where
  "js_mul (Number a) (Number b) = Number (dbl (a * b))"
| "js_mul _ _ = NaN"

text \<open>\<open>a !== b\<close> on these values: \<open>NaN\<close> differs from everything, itself included.\<close>

definition strict_neq :: "jsnum \<Rightarrow> jsnum \<Rightarrow> bool" where
  "strict_neq a b = (a \<noteq> b \<or> a = NaN)"

text \<open>Truthiness of a number, as in \<open>x ? 1 : 0\<close> and \<open>a || b\<close>.\<close>

fun js_truthy :: "jsnum \<Rightarrow> bool" where
  "js_truthy (Number n) = (n \<noteq> 0)"
| "js_truthy _ = False"

text \<open>Reading an array element: an index past the end gives \<open>undefined\<close>.\<close>

definition js_index :: "'a list \<Rightarrow> nat \<Rightarrow> 'a option" where
  "js_index xs i = (if i < length xs then Some (xs ! i) else None)"

text \<open>Writing \<open>xs[i] = v\<close> with \<open>i \<le> xs.length\<close>: overwrite, or extend by one.\<close>

definition js_store :: "'a list \<Rightarrow> nat \<Rightarrow> 'a \<Rightarrow> 'a list" where
  "js_store xs i v = (if i < length xs then xs[i := v] else xs @ [v])"

section \<open>Enumerations of the graphics interface\<close>

datatype primitive_topology = PointList | LineList | LineStrip | TriangleList | TriangleStrip

datatype compare_function =
  CF_Never | CF_Less | CF_Equal | CF_LessEqual | CF_Greater | CF_NotEqual | CF_GreaterEqual
  | CF_Always

datatype stencil_operation =
  SO_Zero | SO_Keep | SO_Replace | SO_IncrementClamp | SO_DecrementClamp | SO_Invert
  | SO_IncrementWrap | SO_DecrementWrap

datatype blend_operation = BO_Add | BO_Subtract | BO_ReverseSubtract | BO_Min | BO_Max

datatype blend_factor =
  BF_Zero | BF_One | BF_Src | BF_OneMinusSrc | BF_SrcAlpha | BF_OneMinusSrcAlpha
  | BF_DstAlpha | BF_OneMinusDstAlpha | BF_Dst | BF_OneMinusDst | BF_SrcAlphaSaturated
  | BF_Constant | BF_OneMinusConstant | BF_Src1 | BF_OneMinusSrc1 | BF_Src1Alpha
  | BF_OneMinusSrc1Alpha

datatype vertex_format =
  Snorm8x2 | Sint8x2 | Snorm8x4 | Sint8x4 | Unorm8x2 | Uint8x2 | Unorm8x4 | Uint8x4
  | Snorm16x2 | Sint16x2 | Snorm16x4 | Sint16x4 | Unorm16x2 | Uint16x2 | Unorm16x4
  | Uint16x4 | Sint32 | Sint32x2 | Sint32x3 | Sint32x4 | Uint32 | Uint32x2 | Uint32x3
  | Uint32x4 | Float32 | Float32x2 | Float32x3 | Float32x4

datatype vertex_step_mode = Vertex | Instance

datatype index_format = IndexUint16 | IndexUint32

datatype front_face = CCW | CW

datatype cull_mode = CullNone | CullFront | CullBack

text \<open>The component types of a vertex buffer (\<open>VertexBuffer.BYTE\<close>, ...).\<close>

datatype vertex_type =
  VB_BYTE | VB_UNSIGNED_BYTE | VB_SHORT | VB_UNSIGNED_SHORT | VB_INT | VB_UNSIGNED_INT
  | VB_FLOAT | VB_OTHER

section \<open>Errors\<close>

text \<open>
  Every \<open>throw\<close> of the cache is a value: the two unsupported fill modes of
  \<open>_GetTopology\<close>, the attachment bound of \<open>setMRT\<close>, the unknown vertex format, the
  \<open>TypeError\<close> of reading a property of \<open>null\<close>, and a failure raised by the device.
\<close>

datatype error =
  LineLoopUnsupported | TriangleFanUnsupported | TooManyAttachments | InvalidFormat
  | TypeError | DeviceError nat

fun isConfigError :: "error \<Rightarrow> bool" where
  "isConfigError LineLoopUnsupported = True"
| "isConfigError TriangleFanUnsupported = True"
| "isConfigError TooManyAttachments = True"
| "isConfigError InvalidFormat = True"
| "isConfigError _ = False"

section \<open>External collaborators\<close>

text \<open>
  The cache reads constants, tables and helpers of the engine that are defined outside
  its own source file. They are parameters of the model, collected in one record:
  the fill-mode constants of \<open>Constants\<close>, the comparison and stencil constants used by
  \<open>reset\<close>, the two texture formats \<open>reset\<close> installs, the table
  \<open>renderableTextureFormatToIndex\<close> (\<open>Undefined\<close> for a missing key), the helpers
  \<open>WebGPUTextureHelper.GetSample\<close> and \<open>WebGPUTextureHelper.HasStencilAspect\<close>, and the
  device limit \<open>maxVertexBufferArrayStride\<close>.
\<close>

record env =
  MATERIAL_TriangleFillMode :: int
  MATERIAL_WireFrameFillMode :: int
  MATERIAL_PointFillMode :: int
  MATERIAL_PointListDrawMode :: int
  MATERIAL_LineListDrawMode :: int
  MATERIAL_LineLoopDrawMode :: int
  MATERIAL_LineStripDrawMode :: int
  MATERIAL_TriangleStripDrawMode :: int
  MATERIAL_TriangleFanDrawMode :: int
  ALWAYS :: int
  KEEP :: int
  REPLACE :: int
  BGRA8Unorm :: string
  Depth24PlusStencil8 :: string
  renderableTextureFormatToIndex :: "string \<Rightarrow> jsnum"
  GetSample :: "int \<Rightarrow> int"
  HasStencilAspect :: "string \<Rightarrow> bool"
  maxVertexBufferArrayStride :: jsnum

section \<open>Data model\<close>

subsection \<open>Shader program, vertex buffers, textures\<close>

text \<open>
  What the cache reads of an \<open>Effect\<close>: its unique id, the attribute names and
  locations of its shader processing context, and whether it has a fragment stage.
\<close>

record effect =
  uniqueId :: int
  attributeNamesFromEffect :: "string list"
  attributeLocationsFromEffect :: "int list"
  hasFragmentStage :: bool

text \<open>
  What the cache reads of a \<open>VertexBuffer\<close>: the GPU buffer behind it
  (\<open>effectiveBuffer?.underlyingResource\<close>, absent when there is none), offset, stride,
  component type, normalisation, \<open>getSize()\<close>, \<open>getSize(true)\<close>, instancing, hash code,
  and the memo \<open>_validOffsetRange\<close> the cache writes on it (\<open>None\<close> while undefined).
\<close>

record vertex_buffer =
  underlyingResource :: "nat option"
  effectiveByteOffset :: int
  effectiveByteStride :: int
  vtype :: vertex_type
  normalized :: bool
  getSize :: int
  getSizeInBytes :: int
  getIsInstanced :: bool
  hashCode :: int
  validOffsetRange :: "bool option"

text \<open>Vertex buffers are shared objects: they live in a heap and are named by address.\<close>

type_synonym vbref = nat

text \<open>An \<open>InternalTexture\<close>: the format of its hardware texture, when it has one.\<close>

record internal_texture =
  hardwareTextureFormat :: "string option"

record data_buffer =
  is32Bits :: bool

subsection \<open>Render pipeline descriptor\<close>

record vertex_attribute =
  shaderLocation :: jsnum
  offset :: int
  format :: vertex_format

record vertex_buffer_layout =
  arrayStride :: int
  stepMode :: vertex_step_mode
  attributes :: "vertex_attribute list"

record blend_component =
  srcFactor :: blend_factor
  dstFactor :: blend_factor
  operation :: blend_operation

record blend_state =
  alpha :: blend_component
  color :: blend_component

record color_target_state =
  targetFormat :: string
  targetWriteMask :: int
  blend :: "blend_state option"

record stencil_face_state =
  compare :: compare_function
  depthFailOp :: stencil_operation
  failOp :: stencil_operation
  passOp :: stencil_operation

record depth_stencil_state =
  depthWriteEnabled :: bool
  depthCompare :: compare_function
  depthStencilFormat :: string
  stencilFront :: "stencil_face_state option"
  stencilBack :: "stencil_face_state option"
  stencilReadMask :: "jsnum option"
  stencilWriteMask :: "jsnum option"
  depthBias :: jsnum
  depthBiasClamp :: jsnum
  depthBiasSlopeScale :: jsnum

text \<open>
  The argument of \<open>device.createRenderPipeline\<close>. The shader modules and the pipeline
  layout are determined by the effect and the texture state and are represented by
  them (\<open>shaderOf\<close>, \<open>layoutTextureState\<close>); the diagnostic label is left out. An absent
  (\<open>undefined\<close>) member is \<open>None\<close>.
\<close>

record descriptor =
  shaderOf :: int
  layoutTextureState :: jsnum
  buffers :: "vertex_buffer_layout list"
  topology :: primitive_topology
  stripIndexFormat :: "index_format option"
  frontFace :: front_face
  cullMode :: cull_mode
  targets :: "color_target_state option list option"
  multisampleCount :: int
  depthStencil :: "depth_stencil_state option"

type_synonym pipeline = nat

text \<open>
  The device: \<open>createRenderPipeline\<close> answers a descriptor with a pipeline handle or
  throws; its answer may depend on the calls made before.
\<close>

type_synonym device = "descriptor list \<Rightarrow> descriptor \<Rightarrow> nat + pipeline"

subsection \<open>Lookup strategy\<close>

text \<open>
  \<open>_getRenderPipeline\<close> and \<open>_setRenderPipeline\<close> are abstract in the cache class; the
  subclasses that implement them are not part of the sources. A strategy is any pair of
  functions over a private store \<open>'c\<close> (which also holds the \<open>token\<close> of the parameter
  object): the lookup reads the state vector (the first \<open>_statesLength\<close> slots) and the
  lowest dirty index, may update its store, and sets \<open>param.pipeline\<close> to what it finds
  (\<open>None\<close> for \<open>null\<close>); the store operation records \<open>param.pipeline\<close> for that vector.
\<close>

record 'c strategy =
  lookupRP :: "'c \<Rightarrow> jsnum list \<Rightarrow> nat \<Rightarrow> 'c \<times> pipeline option"
  storeRP :: "'c \<Rightarrow> jsnum list \<Rightarrow> pipeline \<Rightarrow> 'c"

subsection \<open>State positions\<close>

definition StencilReadMask :: nat where "StencilReadMask = 0"
definition StencilWriteMask :: nat where "StencilWriteMask = 1"
definition DepthBias :: nat where "DepthBias = 2"
definition DepthBiasSlopeScale :: nat where "DepthBiasSlopeScale = 3"
definition DepthStencilState :: nat where "DepthStencilState = 4"
definition MRTAttachments :: nat where "MRTAttachments = 5"
definition RasterizationState :: nat where "RasterizationState = 6"
definition ColorStates1 :: nat where "ColorStates1 = 7"
definition ColorStates2 :: nat where "ColorStates2 = 8"
definition ColorStates3 :: nat where "ColorStates3 = 9"
definition ColorStates4 :: nat where "ColorStates4 = 10"
definition ShaderStage :: nat where "ShaderStage = 11"
definition TextureStage :: nat where "TextureStage = 12"
definition VertexState :: nat where "VertexState = 13"
definition NumStates :: nat where "NumStates = 14"

subsection \<open>The cache object\<close>

text \<open>
  One record holds the instance fields of \<open>WebGPUCacheRenderPipeline\<close> (a private or
  protected field \<open>_x\<close> is \<open>m_x\<close>, a public field keeps its name), the static counters
  of the class, and the parts of the world the cache acts on: the heap of vertex
  buffers, the store of the lookup strategy, and the descriptors the device has
  received so far (\<open>deviceCalls\<close>, latest last).

  \<open>_states\<close> is a sparse array: a function from index to value, \<open>Undefined\<close> where
  nothing was written. A numeric field that is compared before it is first assigned,
  or that holds the result of a table lookup, is a \<open>jsnum\<close>.
\<close>

record 'c cache =
  NumCacheHitWithoutHash :: nat
  NumCacheHitWithHash :: nat
  NumCacheMiss :: nat
  NumPipelineCreationLastFrame :: nat
  m_NumPipelineCreationCurrentFrame :: nat
  disabled :: bool
  m_states :: "nat \<Rightarrow> jsnum"
  m_statesLength :: nat
  m_stateDirtyLowestIndex :: nat
  lastStateDirtyLowestIndex :: "nat option"
  m_isDirty :: bool
  m_emptyVertexBuffer :: vbref
  m_parameter_pipeline :: "pipeline option"
  m_kMaxVertexBufferStride :: int
  m_shaderId :: jsnum
  m_alphaToCoverageEnabled :: bool
  m_frontFace :: int
  m_cullEnabled :: bool
  m_cullFace :: int
  m_clampDepth :: bool
  m_rasterizationState :: jsnum
  m_depthBias :: jsnum
  m_depthBiasClamp :: jsnum
  m_depthBiasSlopeScale :: jsnum
  m_colorFormat :: jsnum
  m_webgpuColorFormat :: "string option"
  m_mrtAttachments :: jsnum
  m_mrtFormats :: "string option list"
  m_mrtEnabledMask :: jsnum
  m_alphaBlendEnabled :: "bool list"
  m_numAlphaBlendTargetsEnabled :: int
  m_alphaBlendFuncParams :: "int option list"
  m_alphaBlendEqParams :: "int option list"
  m_writeMask :: int
  m_depthStencilFormat :: jsnum
  m_webgpuDepthStencilFormat :: "string option"
  m_depthTestEnabled :: bool
  m_depthWriteEnabled :: bool
  m_depthCompare :: int
  m_stencilEnabled :: bool
  m_stencilFrontCompare :: int
  m_stencilFrontDepthFailOp :: jsnum
  m_stencilFrontPassOp :: jsnum
  m_stencilFrontFailOp :: jsnum
  m_stencilBackCompare :: int
  m_stencilBackDepthFailOp :: jsnum
  m_stencilBackPassOp :: jsnum
  m_stencilBackFailOp :: jsnum
  m_stencilReadMask :: jsnum
  m_stencilWriteMask :: jsnum
  m_depthStencilState :: jsnum
  m_vertexBuffers :: "(string \<rightharpoonup> vbref) option"
  m_overrideVertexBuffers :: "(string \<rightharpoonup> vbref) option"
  m_textureState :: jsnum
  vertexBuffers :: "vbref list"
  indexBuffer :: "data_buffer option"
  mrtAttachments :: "int list option"
  mrtTextureArray :: "internal_texture list"
  mrtTextureCount :: nat
  vbHeap :: "vbref \<Rightarrow> vertex_buffer"
  store :: 'c
  deviceCalls :: "descriptor list"

section \<open>Lookup tables of the cache\<close>

text \<open>A key that a table does not hold yields \<open>Undefined\<close>.\<close>

definition alphaBlendFactorToIndex :: "int \<Rightarrow> jsnum" where
  "alphaBlendFactorToIndex k =
     (if k = 0 then Number 1
      else if k = 1 then Number 2
      else if k = 0x0300 then Number 3
      else if k = 0x0301 then Number 4
      else if k = 0x0302 then Number 5
      else if k = 0x0303 then Number 6
      else if k = 0x0304 then Number 7
      else if k = 0x0305 then Number 8
      else if k = 0x0306 then Number 9
      else if k = 0x0307 then Number 10
      else if k = 0x0308 then Number 11
      else if k = 0x8001 then Number 12
      else if k = 0x8002 then Number 13
      else if k = 0x8003 then Number 14
      else if k = 0x8004 then Number 15
      else if k = 0x88f9 then Number 16
      else if k = 0x88fa then Number 17
      else if k = 0x8589 then Number 18
      else if k = 0x88fb then Number 19
      else Undefined)"

definition alphaBlendEquationToIndex :: "int \<Rightarrow> jsnum" where
  "alphaBlendEquationToIndex k =
     (if k = 0x8006 then Number 0
      else if k = 0x8007 then Number 1
      else if k = 0x8008 then Number 2
      else if k = 0x800a then Number 3
      else if k = 0x800b then Number 4
      else Undefined)"

definition stencilOpToIndex :: "int \<Rightarrow> jsnum" where
  "stencilOpToIndex k =
     (if k = 0x0000 then Number 0
      else if k = 0x1e00 then Number 1
      else if k = 0x1e01 then Number 2
      else if k = 0x1e02 then Number 3
      else if k = 0x1e03 then Number 4
      else if k = 0x150a then Number 5
      else if k = 0x8507 then Number 6
      else if k = 0x8508 then Number 7
      else Undefined)"

section \<open>State encoder: the setters\<close>

definition setAlphaToCoverage :: "bool \<Rightarrow> 'c cache \<Rightarrow> 'c cache" where
  "setAlphaToCoverage enabled s = s\<lparr>m_alphaToCoverageEnabled := enabled\<rparr>"

definition setFrontFace :: "int \<Rightarrow> 'c cache \<Rightarrow> 'c cache" where
  "setFrontFace frontFace' s = s\<lparr>m_frontFace := frontFace'\<rparr>"

definition setCullEnabled :: "bool \<Rightarrow> 'c cache \<Rightarrow> 'c cache" where
  "setCullEnabled enabled s = s\<lparr>m_cullEnabled := enabled\<rparr>"

definition setCullFace :: "int \<Rightarrow> 'c cache \<Rightarrow> 'c cache" where
  "setCullFace cullFace s = s\<lparr>m_cullFace := cullFace\<rparr>"

definition setClampDepth :: "bool \<Rightarrow> 'c cache \<Rightarrow> 'c cache" where
  "setClampDepth clampDepth s = s\<lparr>m_clampDepth := clampDepth\<rparr>"

definition setDepthBias :: "int \<Rightarrow> 'c cache \<Rightarrow> 'c cache" where
  "setDepthBias depthBias' s =
     (if strict_neq (m_depthBias s) (Number depthBias') then
        s\<lparr>m_depthBias := Number depthBias',
          m_states := (m_states s)(DepthBias := Number depthBias'),
          m_isDirty := True,
          m_stateDirtyLowestIndex := min (m_stateDirtyLowestIndex s) DepthBias\<rparr>
      else s)"

definition setDepthBiasSlopeScale :: "int \<Rightarrow> 'c cache \<Rightarrow> 'c cache" where
  "setDepthBiasSlopeScale depthBiasSlopeScale' s =
     (if strict_neq (m_depthBiasSlopeScale s) (Number depthBiasSlopeScale') then
        s\<lparr>m_depthBiasSlopeScale := Number depthBiasSlopeScale',
          m_states := (m_states s)(DepthBiasSlopeScale := Number depthBiasSlopeScale'),
          m_isDirty := True,
          m_stateDirtyLowestIndex := min (m_stateDirtyLowestIndex s) DepthBiasSlopeScale\<rparr>
      else s)"

text \<open>\<open>(x ?? Constants.ALWAYS) - 0x0200\<close>, for the three comparison setters.\<close>

definition compareIndex :: "env \<Rightarrow> int option \<Rightarrow> int" where
  "compareIndex E func = dbl ((case func of None \<Rightarrow> ALWAYS E | Some f \<Rightarrow> f) - 0x0200)"

text \<open>\<open>op === null ? d : stencilOpToIndex[op]\<close>.\<close>

definition stencilOpIndex :: "int \<Rightarrow> int option \<Rightarrow> jsnum" where
  "stencilOpIndex d op = (case op of None \<Rightarrow> Number d | Some k \<Rightarrow> stencilOpToIndex k)"

definition setDepthCullingState ::
  "env \<Rightarrow> bool \<Rightarrow> int \<Rightarrow> int \<Rightarrow> int \<Rightarrow> int \<Rightarrow> bool \<Rightarrow> bool \<Rightarrow> int option \<Rightarrow> 'c cache \<Rightarrow> 'c cache"
where
  "setDepthCullingState E cullEnabled frontFace' cullFace zOffset zOffsetUnits
       depthTestEnabled depthWriteEnabled' depthCompare' s =
     setDepthBias zOffsetUnits
       (setDepthBiasSlopeScale zOffset
          (s\<lparr>m_depthWriteEnabled := depthWriteEnabled',
             m_depthTestEnabled := depthTestEnabled,
             m_depthCompare := compareIndex E depthCompare',
             m_cullFace := cullFace,
             m_cullEnabled := cullEnabled,
             m_frontFace := frontFace'\<rparr>))"

definition resetDepthCullingState :: "env \<Rightarrow> 'c cache \<Rightarrow> 'c cache" where
  "resetDepthCullingState E s =
     setDepthCullingState E False 2 1 0 0 True True (Some (ALWAYS E)) s"

definition setColorFormat :: "env \<Rightarrow> string option \<Rightarrow> 'c cache \<Rightarrow> 'c cache" where
  "setColorFormat E format' s =
     s\<lparr>m_webgpuColorFormat := format',
       m_colorFormat :=
         renderableTextureFormatToIndex E (case format' of None \<Rightarrow> [] | Some f \<Rightarrow> f)\<rparr>"

text \<open>The enable mask of \<open>setMRTAttachments\<close>: \<open>mask += 1 << i\<close> where the entry is not 0.\<close>

definition attachmentsMask :: "int list \<Rightarrow> jsnum" where
  "attachmentsMask attachments =
     foldl (\<lambda>m i. if attachments ! i \<noteq> 0 then js_add m (js_shl (Number 1) i) else m)
       (Number 0) [0..<length attachments]"

definition setMRTAttachments :: "int list \<Rightarrow> 'c cache \<Rightarrow> 'c cache" where
  "setMRTAttachments attachments s =
     (let s1 = s\<lparr>mrtAttachments := Some attachments\<rparr>;
          mask' = attachmentsMask attachments
      in if strict_neq (m_mrtEnabledMask s1) mask' then
           s1\<lparr>m_mrtEnabledMask := mask',
              m_isDirty := True,
              m_stateDirtyLowestIndex := min (m_stateDirtyLowestIndex s1) MRTAttachments\<rparr>
         else s1)"

text \<open>
  The format of attachment \<open>i\<close> in \<open>setMRT\<close>:
  \<open>texture?._hardwareTexture?.format ?? this._webgpuColorFormat[0]\<close>.
\<close>

definition mrtFormat :: "internal_texture list \<Rightarrow> string option \<Rightarrow> nat \<Rightarrow> string option" where
  "mrtFormat textureArray fallback i =
     (case js_index textureArray i of
        None \<Rightarrow> fallback
      | Some texture \<Rightarrow>
          (case hardwareTextureFormat texture of None \<Rightarrow> fallback | Some f \<Rightarrow> Some f))"

text \<open>
  The loop of \<open>setMRT\<close> over the formats: six bits per attachment,
  \<open>mrtAttachments += renderableTextureFormatToIndex[format ?? ""] * 2 ** mask\<close>.
\<close>

definition packMRTFormats :: "env \<Rightarrow> string option list \<Rightarrow> jsnum" where
  "packMRTFormats E formats =
     foldl (\<lambda>acc i.
              js_add acc
                (js_mul
                   (renderableTextureFormatToIndex E
                      (case formats ! i of None \<Rightarrow> [] | Some f \<Rightarrow> f))
                   (Number (2 ^ (6 * i)))))
       (Number 0) [0..<length formats]"

text \<open>The part of \<open>setMRT\<close> after the bound check.\<close>

definition setMRT_body :: "env \<Rightarrow> internal_texture list \<Rightarrow> nat \<Rightarrow> 'c cache \<Rightarrow> 'c cache" where
  "setMRT_body E textureArray textureCount s =
     (let formats = map (mrtFormat textureArray (m_webgpuColorFormat s)) [0..<textureCount];
          mrtAttachments' = packMRTFormats E formats;
          s1 = s\<lparr>mrtTextureArray := textureArray,
                 mrtTextureCount := textureCount,
                 m_mrtEnabledMask := Number 0xffff,
                 m_mrtFormats := formats\<rparr>
      in if strict_neq (m_mrtAttachments s1) mrtAttachments' then
           s1\<lparr>m_mrtAttachments := mrtAttachments',
              m_states := (m_states s1)(MRTAttachments := mrtAttachments'),
              m_isDirty := True,
              m_stateDirtyLowestIndex := min (m_stateDirtyLowestIndex s1) MRTAttachments\<rparr>
         else s1)"

definition setMRT ::
  "env \<Rightarrow> internal_texture list \<Rightarrow> nat option \<Rightarrow> 'c cache \<Rightarrow> error + 'c cache"
where
  "setMRT E textureArray textureCount s =
     (let textureCount' = (case textureCount of None \<Rightarrow> length textureArray | Some n \<Rightarrow> n)
      in if textureCount' > 8 then Inl TooManyAttachments
         else Inr (setMRT_body E textureArray textureCount' s))"

definition setAlphaBlendEnabled :: "bool list \<Rightarrow> int \<Rightarrow> 'c cache \<Rightarrow> 'c cache" where
  "setAlphaBlendEnabled enabled numAlphaBlendTargetsEnabled s =
     s\<lparr>m_alphaBlendEnabled := enabled,
       m_numAlphaBlendTargetsEnabled := numAlphaBlendTargetsEnabled\<rparr>"

definition setAlphaBlendFactors :: "int option list \<Rightarrow> int option list \<Rightarrow> 'c cache \<Rightarrow> 'c cache" where
  "setAlphaBlendFactors factors operations s =
     s\<lparr>m_alphaBlendFuncParams := factors, m_alphaBlendEqParams := operations\<rparr>"

definition setWriteMask :: "int \<Rightarrow> 'c cache \<Rightarrow> 'c cache" where
  "setWriteMask mask' s = s\<lparr>m_writeMask := mask'\<rparr>"

definition setDepthStencilFormat :: "env \<Rightarrow> string option \<Rightarrow> 'c cache \<Rightarrow> 'c cache" where
  "setDepthStencilFormat E format' s =
     s\<lparr>m_webgpuDepthStencilFormat := format',
       m_depthStencilFormat :=
         (case format' of None \<Rightarrow> Number 0 | Some f \<Rightarrow> renderableTextureFormatToIndex E f)\<rparr>"

definition setDepthTestEnabled :: "bool \<Rightarrow> 'c cache \<Rightarrow> 'c cache" where
  "setDepthTestEnabled enabled s = s\<lparr>m_depthTestEnabled := enabled\<rparr>"

definition setDepthWriteEnabled :: "bool \<Rightarrow> 'c cache \<Rightarrow> 'c cache" where
  "setDepthWriteEnabled enabled s = s\<lparr>m_depthWriteEnabled := enabled\<rparr>"

definition setDepthCompare :: "env \<Rightarrow> int option \<Rightarrow> 'c cache \<Rightarrow> 'c cache" where
  "setDepthCompare E func s = s\<lparr>m_depthCompare := compareIndex E func\<rparr>"

definition setStencilEnabled :: "bool \<Rightarrow> 'c cache \<Rightarrow> 'c cache" where
  "setStencilEnabled enabled s = s\<lparr>m_stencilEnabled := enabled\<rparr>"

definition setStencilCompare :: "env \<Rightarrow> int option \<Rightarrow> 'c cache \<Rightarrow> 'c cache" where
  "setStencilCompare E func s = s\<lparr>m_stencilFrontCompare := compareIndex E func\<rparr>"

definition setStencilDepthFailOp :: "int option \<Rightarrow> 'c cache \<Rightarrow> 'c cache" where
  "setStencilDepthFailOp op s = s\<lparr>m_stencilFrontDepthFailOp := stencilOpIndex 1 op\<rparr>"

definition setStencilPassOp :: "int option \<Rightarrow> 'c cache \<Rightarrow> 'c cache" where
  "setStencilPassOp op s = s\<lparr>m_stencilFrontPassOp := stencilOpIndex 2 op\<rparr>"

definition setStencilFailOp :: "int option \<Rightarrow> 'c cache \<Rightarrow> 'c cache" where
  "setStencilFailOp op s = s\<lparr>m_stencilFrontFailOp := stencilOpIndex 1 op\<rparr>"

definition setStencilBackCompare :: "env \<Rightarrow> int option \<Rightarrow> 'c cache \<Rightarrow> 'c cache" where
  "setStencilBackCompare E func s = s\<lparr>m_stencilBackCompare := compareIndex E func\<rparr>"

definition setStencilBackDepthFailOp :: "int option \<Rightarrow> 'c cache \<Rightarrow> 'c cache" where
  "setStencilBackDepthFailOp op s = s\<lparr>m_stencilBackDepthFailOp := stencilOpIndex 1 op\<rparr>"

definition setStencilBackPassOp :: "int option \<Rightarrow> 'c cache \<Rightarrow> 'c cache" where
  "setStencilBackPassOp op s = s\<lparr>m_stencilBackPassOp := stencilOpIndex 2 op\<rparr>"

definition setStencilBackFailOp :: "int option \<Rightarrow> 'c cache \<Rightarrow> 'c cache" where
  "setStencilBackFailOp op s = s\<lparr>m_stencilBackFailOp := stencilOpIndex 1 op\<rparr>"

definition setStencilReadMask :: "int \<Rightarrow> 'c cache \<Rightarrow> 'c cache" where
  "setStencilReadMask mask' s =
     (if strict_neq (m_stencilReadMask s) (Number mask') then
        s\<lparr>m_stencilReadMask := Number mask',
          m_states := (m_states s)(StencilReadMask := Number mask'),
          m_isDirty := True,
          m_stateDirtyLowestIndex := min (m_stateDirtyLowestIndex s) StencilReadMask\<rparr>
      else s)"

definition setStencilWriteMask :: "int \<Rightarrow> 'c cache \<Rightarrow> 'c cache" where
  "setStencilWriteMask mask' s =
     (if strict_neq (m_stencilWriteMask s) (Number mask') then
        s\<lparr>m_stencilWriteMask := Number mask',
          m_states := (m_states s)(StencilWriteMask := Number mask'),
          m_isDirty := True,
          m_stateDirtyLowestIndex := min (m_stateDirtyLowestIndex s) StencilWriteMask\<rparr>
      else s)"

definition setStencilState ::
  "env \<Rightarrow> bool \<Rightarrow> int option \<Rightarrow> int option \<Rightarrow> int option \<Rightarrow> int option \<Rightarrow> int \<Rightarrow> int
     \<Rightarrow> int option \<Rightarrow> int option \<Rightarrow> int option \<Rightarrow> int option \<Rightarrow> 'c cache \<Rightarrow> 'c cache"
where
  "setStencilState E stencilEnabled compare' depthFailOp' passOp' failOp' readMask writeMask
       backCompare backDepthFailOp backPassOp backFailOp s =
     setStencilWriteMask writeMask
       (setStencilReadMask readMask
          (s\<lparr>m_stencilEnabled := stencilEnabled,
             m_stencilFrontCompare := compareIndex E compare',
             m_stencilFrontDepthFailOp := stencilOpIndex 1 depthFailOp',
             m_stencilFrontPassOp := stencilOpIndex 2 passOp',
             m_stencilFrontFailOp := stencilOpIndex 1 failOp',
             m_stencilBackCompare := compareIndex E backCompare,
             m_stencilBackDepthFailOp := stencilOpIndex 1 backDepthFailOp,
             m_stencilBackPassOp := stencilOpIndex 2 backPassOp,
             m_stencilBackFailOp := stencilOpIndex 1 backFailOp\<rparr>))"

definition resetStencilState :: "env \<Rightarrow> 'c cache \<Rightarrow> 'c cache" where
  "resetStencilState E s =
     setStencilState E False (Some (ALWAYS E)) (Some (KEEP E)) (Some (REPLACE E))
       (Some (KEEP E)) 0xff 0xff None None None None s"

definition setBuffers ::
  "(string \<rightharpoonup> vbref) option \<Rightarrow> data_buffer option \<Rightarrow> (string \<rightharpoonup> vbref) option
     \<Rightarrow> 'c cache \<Rightarrow> 'c cache"
where
  "setBuffers vertexBuffers' indexBuffer' overrideVertexBuffers s =
     s\<lparr>m_vertexBuffers := vertexBuffers',
       m_overrideVertexBuffers := overrideVertexBuffers,
       indexBuffer := indexBuffer'\<rparr>"

definition m_setTextureState :: "int \<Rightarrow> 'c cache \<Rightarrow> 'c cache" where
  "m_setTextureState textureState s =
     (if strict_neq (m_textureState s) (Number textureState) then
        s\<lparr>m_textureState := Number textureState,
          m_states := (m_states s)(TextureStage := Number textureState),
          m_isDirty := True,
          m_stateDirtyLowestIndex := min (m_stateDirtyLowestIndex s) TextureStage\<rparr>
      else s)"

definition endFrame :: "'c cache \<Rightarrow> 'c cache" where
  "endFrame s =
     s\<lparr>NumPipelineCreationLastFrame := m_NumPipelineCreationCurrentFrame s,
       m_NumPipelineCreationCurrentFrame := 0\<rparr>"

text \<open>
  \<open>reset\<close>. Its call \<open>setMRT([])\<close> passes the bound check (no attachment), so the body
  of \<open>setMRT\<close> is applied directly.
\<close>

definition reset :: "env \<Rightarrow> 'c cache \<Rightarrow> 'c cache" where
  "reset E s =
     m_setTextureState 0
       (setBuffers None None None
          (resetStencilState E
             (setStencilEnabled False
                (setDepthStencilFormat E (Some (Depth24PlusStencil8 E))
                   (setWriteMask 0xf
                      (setAlphaBlendFactors [None, None, None, None] [None, None]
                         (setAlphaBlendEnabled [False] 1
                            (setMRT_body E [] 0
                               (setColorFormat E (Some (BGRA8Unorm E))
                                  ((setDepthBias 0
                                      (setClampDepth False
                                         (resetDepthCullingState E
                                            (setAlphaToCoverage False
                                               (s\<lparr>m_isDirty := True, vertexBuffers := []\<rparr>)))))
                                   \<lparr>m_webgpuColorFormat := Some (BGRA8Unorm E)\<rparr>))))))))))"

text \<open>
  The constructor: the fields it assigns itself, then \<open>reset\<close>. Fields that neither
  assigns stay undefined (\<open>Undefined\<close>, \<open>None\<close>); the plain fields get a placeholder
  here that \<open>reset\<close> overwrites before any read. The static counters start at 0.
\<close>

definition blank :: "env \<Rightarrow> vbref \<Rightarrow> (vbref \<Rightarrow> vertex_buffer) \<Rightarrow> 'c \<Rightarrow> 'c cache" where
  "blank E emptyVertexBuffer heap st =
     \<lparr>NumCacheHitWithoutHash = 0, NumCacheHitWithHash = 0, NumCacheMiss = 0,
      NumPipelineCreationLastFrame = 0, m_NumPipelineCreationCurrentFrame = 0,
      disabled = False, m_states = (\<lambda>_. Undefined), m_statesLength = 0,
      m_stateDirtyLowestIndex = 0, lastStateDirtyLowestIndex = None, m_isDirty = False,
      m_emptyVertexBuffer = emptyVertexBuffer, m_parameter_pipeline = None,
      m_kMaxVertexBufferStride =
        (case maxVertexBufferArrayStride E of
           Number n \<Rightarrow> (if n \<noteq> 0 then n else 2048) | _ \<Rightarrow> 2048),
      m_shaderId = Undefined, m_alphaToCoverageEnabled = False, m_frontFace = 0,
      m_cullEnabled = False, m_cullFace = 0, m_clampDepth = False,
      m_rasterizationState = Undefined, m_depthBias = Undefined,
      m_depthBiasClamp = Undefined, m_depthBiasSlopeScale = Undefined,
      m_colorFormat = Undefined, m_webgpuColorFormat = None, m_mrtAttachments = Undefined,
      m_mrtFormats = [], m_mrtEnabledMask = Undefined, m_alphaBlendEnabled = [],
      m_numAlphaBlendTargetsEnabled = 0, m_alphaBlendFuncParams = [],
      m_alphaBlendEqParams = [], m_writeMask = 0, m_depthStencilFormat = Undefined,
      m_webgpuDepthStencilFormat = None, m_depthTestEnabled = False,
      m_depthWriteEnabled = False, m_depthCompare = 0, m_stencilEnabled = False,
      m_stencilFrontCompare = 0, m_stencilFrontDepthFailOp = Undefined,
      m_stencilFrontPassOp = Undefined, m_stencilFrontFailOp = Undefined,
      m_stencilBackCompare = 0, m_stencilBackDepthFailOp = Undefined,
      m_stencilBackPassOp = Undefined, m_stencilBackFailOp = Undefined,
      m_stencilReadMask = Undefined, m_stencilWriteMask = Undefined,
      m_depthStencilState = Undefined, m_vertexBuffers = None,
      m_overrideVertexBuffers = None, m_textureState = Undefined, vertexBuffers = [],
      indexBuffer = None, mrtAttachments = None, mrtTextureArray = [], mrtTextureCount = 0,
      vbHeap = heap, store = st, deviceCalls = []\<rparr>"

definition constructor :: "env \<Rightarrow> vbref \<Rightarrow> (vbref \<Rightarrow> vertex_buffer) \<Rightarrow> 'c \<Rightarrow> 'c cache" where
  "constructor E emptyVertexBuffer heap st = reset E (blank E emptyVertexBuffer heap st)"

section \<open>Mapping engine values to the graphics interface\<close>

text \<open>
  \<open>_GetTopology\<close>: a \<open>switch\<close> over the fill-mode constants, in the order of the source
  (the first matching case wins).
\<close>

definition m_GetTopology :: "env \<Rightarrow> int \<Rightarrow> error + primitive_topology" where
  "m_GetTopology E fillMode =
     (if fillMode = MATERIAL_TriangleFillMode E then Inr TriangleList
      else if fillMode = MATERIAL_PointFillMode E then Inr PointList
      else if fillMode = MATERIAL_WireFrameFillMode E then Inr LineList
      else if fillMode = MATERIAL_PointListDrawMode E then Inr PointList
      else if fillMode = MATERIAL_LineListDrawMode E then Inr LineList
      else if fillMode = MATERIAL_LineLoopDrawMode E then Inl LineLoopUnsupported
      else if fillMode = MATERIAL_LineStripDrawMode E then Inr LineStrip
      else if fillMode = MATERIAL_TriangleStripDrawMode E then Inr TriangleStrip
      else if fillMode = MATERIAL_TriangleFanDrawMode E then Inl TriangleFanUnsupported
      else Inr TriangleList)"

text \<open>
  \<open>_GetAphaBlendOperation\<close> and \<open>_GetAphaBlendFactor\<close> switch over constants of
  \<open>Constants\<close>; their numeric values are the keys that the tables
  \<open>alphaBlendEquationToIndex\<close> and \<open>alphaBlendFactorToIndex\<close> list for the same names.
  The argument is \<open>None\<close> for \<open>null\<close> or \<open>undefined\<close>.
\<close>

definition m_GetAphaBlendOperation :: "int option \<Rightarrow> blend_operation" where
  "m_GetAphaBlendOperation operation' =
     (if operation' = Some 0x8006 then BO_Add
      else if operation' = Some 0x800a then BO_Subtract
      else if operation' = Some 0x800b then BO_ReverseSubtract
      else if operation' = Some 0x8007 then BO_Min
      else if operation' = Some 0x8008 then BO_Max
      else BO_Add)"

definition m_GetAphaBlendFactor :: "int option \<Rightarrow> blend_factor" where
  "m_GetAphaBlendFactor factor =
     (if factor = Some 0 then BF_Zero
      else if factor = Some 1 then BF_One
      else if factor = Some 0x0300 then BF_Src
      else if factor = Some 0x0301 then BF_OneMinusSrc
      else if factor = Some 0x0302 then BF_SrcAlpha
      else if factor = Some 0x0303 then BF_OneMinusSrcAlpha
      else if factor = Some 0x0304 then BF_DstAlpha
      else if factor = Some 0x0305 then BF_OneMinusDstAlpha
      else if factor = Some 0x0306 then BF_Dst
      else if factor = Some 0x0307 then BF_OneMinusDst
      else if factor = Some 0x0308 then BF_SrcAlphaSaturated
      else if factor = Some 0x8001 \<or> factor = Some 0x8003 then BF_Constant
      else if factor = Some 0x8002 \<or> factor = Some 0x8004 then BF_OneMinusConstant
      else if factor = Some 0x88f9 then BF_Src1
      else if factor = Some 0x88fa then BF_OneMinusSrc1
      else if factor = Some 0x8589 then BF_Src1Alpha
      else if factor = Some 0x88fb then BF_OneMinusSrc1Alpha
      else BF_One)"

definition m_GetCompareFunction :: "int \<Rightarrow> compare_function" where
  "m_GetCompareFunction compareFunction =
     (if compareFunction = 0 then CF_Never
      else if compareFunction = 1 then CF_Less
      else if compareFunction = 2 then CF_Equal
      else if compareFunction = 3 then CF_LessEqual
      else if compareFunction = 4 then CF_Greater
      else if compareFunction = 5 then CF_NotEqual
      else if compareFunction = 6 then CF_GreaterEqual
      else if compareFunction = 7 then CF_Always
      else CF_Never)"

definition m_GetStencilOpFunction :: "jsnum \<Rightarrow> stencil_operation" where
  "m_GetStencilOpFunction operation' =
     (if operation' = Number 0 then SO_Zero
      else if operation' = Number 1 then SO_Keep
      else if operation' = Number 2 then SO_Replace
      else if operation' = Number 3 then SO_IncrementClamp
      else if operation' = Number 4 then SO_DecrementClamp
      else if operation' = Number 5 then SO_Invert
      else if operation' = Number 6 then SO_IncrementWrap
      else if operation' = Number 7 then SO_DecrementWrap
      else SO_Keep)"

text \<open>
  \<open>_GetVertexInputDescriptorFormat\<close>: the nested \<open>switch\<close> over component type and
  size; whatever falls through both throws.
\<close>

definition m_GetVertexInputDescriptorFormat :: "vertex_buffer \<Rightarrow> error + vertex_format" where
  "m_GetVertexInputDescriptorFormat vertexBuffer =
     (let type = vtype vertexBuffer;
          normalized' = normalized vertexBuffer;
          size' = getSize vertexBuffer
      in case type of
           VB_BYTE \<Rightarrow>
             (if size' = 1 \<or> size' = 2 then Inr (if normalized' then Snorm8x2 else Sint8x2)
              else if size' = 3 \<or> size' = 4 then Inr (if normalized' then Snorm8x4 else Sint8x4)
              else Inl InvalidFormat)
         | VB_UNSIGNED_BYTE \<Rightarrow>
             (if size' = 1 \<or> size' = 2 then Inr (if normalized' then Unorm8x2 else Uint8x2)
              else if size' = 3 \<or> size' = 4 then Inr (if normalized' then Unorm8x4 else Uint8x4)
              else Inl InvalidFormat)
         | VB_SHORT \<Rightarrow>
             (if size' = 1 \<or> size' = 2 then Inr (if normalized' then Snorm16x2 else Sint16x2)
              else if size' = 3 \<or> size' = 4 then Inr (if normalized' then Snorm16x4 else Sint16x4)
              else Inl InvalidFormat)
         | VB_UNSIGNED_SHORT \<Rightarrow>
             (if size' = 1 \<or> size' = 2 then Inr (if normalized' then Unorm16x2 else Uint16x2)
              else if size' = 3 \<or> size' = 4 then Inr (if normalized' then Unorm16x4 else Uint16x4)
              else Inl InvalidFormat)
         | VB_INT \<Rightarrow>
             (if size' = 1 then Inr Sint32
              else if size' = 2 then Inr Sint32x2
              else if size' = 3 then Inr Sint32x3
              else if size' = 4 then Inr Sint32x4
              else Inl InvalidFormat)
         | VB_UNSIGNED_INT \<Rightarrow>
             (if size' = 1 then Inr Uint32
              else if size' = 2 then Inr Uint32x2
              else if size' = 3 then Inr Uint32x3
              else if size' = 4 then Inr Uint32x4
              else Inl InvalidFormat)
         | VB_FLOAT \<Rightarrow>
             (if size' = 1 then Inr Float32
              else if size' = 2 then Inr Float32x2
              else if size' = 3 then Inr Float32x3
              else if size' = 4 then Inr Float32x4
              else Inl InvalidFormat)
         | VB_OTHER \<Rightarrow> Inl InvalidFormat)"

text \<open>
  Reading a blend parameter for the descriptor: \<open>null\<close> and a read past the end both
  reach the \<open>default\<close> case of the mapping.
\<close>

definition blendParam :: "int option list \<Rightarrow> nat \<Rightarrow> int option" where
  "blendParam params i = (case js_index params i of None \<Rightarrow> None | Some v \<Rightarrow> v)"

definition m_getAphaBlendState :: "'c cache \<Rightarrow> nat \<Rightarrow> blend_component option" where
  "m_getAphaBlendState s targetIndex =
     (if js_index (m_alphaBlendEnabled s) targetIndex \<noteq> Some True then None
      else Some
        \<lparr>srcFactor = m_GetAphaBlendFactor (blendParam (m_alphaBlendFuncParams s) (targetIndex * 4 + 2)),
         dstFactor = m_GetAphaBlendFactor (blendParam (m_alphaBlendFuncParams s) (targetIndex * 4 + 3)),
         operation = m_GetAphaBlendOperation (blendParam (m_alphaBlendEqParams s) (targetIndex * 2 + 1))\<rparr>)"

text \<open>
  \<open>_getColorBlendState\<close> tests the array \<open>_alphaBlendEnabled\<close> itself, which is an
  object and hence never falsy: it always returns a component.
\<close>

definition m_getColorBlendState :: "'c cache \<Rightarrow> nat \<Rightarrow> blend_component option" where
  "m_getColorBlendState s targetIndex =
     Some
       \<lparr>srcFactor = m_GetAphaBlendFactor (blendParam (m_alphaBlendFuncParams s) (targetIndex * 4 + 0)),
        dstFactor = m_GetAphaBlendFactor (blendParam (m_alphaBlendFuncParams s) (targetIndex * 4 + 1)),
        operation = m_GetAphaBlendOperation (blendParam (m_alphaBlendEqParams s) (targetIndex * 2 + 0))\<rparr>"

section \<open>State encoder: packing at resolution time\<close>

definition m_setShaderStage :: "int \<Rightarrow> 'c cache \<Rightarrow> 'c cache" where
  "m_setShaderStage id' s =
     (if strict_neq (m_shaderId s) (Number id') then
        s\<lparr>m_shaderId := Number id',
          m_states := (m_states s)(ShaderStage := Number id'),
          m_isDirty := True,
          m_stateDirtyLowestIndex := min (m_stateDirtyLowestIndex s) ShaderStage\<rparr>
      else s)"

text \<open>The packed value computed by \<open>_setRasterizationState\<close>.\<close>

definition rasterizationStateOf :: "'c cache \<Rightarrow> int \<Rightarrow> int \<Rightarrow> jsnum" where
  "rasterizationStateOf s topology' sampleCount =
     (let frontFace' = m_frontFace s;
          cullMode' = (if m_cullEnabled s then m_cullFace s else 0);
          clampDepth = (if m_clampDepth s then 1 else 0);
          alphaToCoverage = (if m_alphaToCoverageEnabled s then 1 else 0)
      in js_add
           (js_add
              (js_add
                 (js_add
                    (js_add (js_sub (Number frontFace') (Number 1)) (js_shl (Number cullMode') 1))
                    (js_shl (Number clampDepth) 3))
                 (js_shl (Number alphaToCoverage) 4))
              (js_shl (Number topology') 5))
           (js_shl (Number sampleCount) 8))"

definition m_setRasterizationState :: "int \<Rightarrow> int \<Rightarrow> 'c cache \<Rightarrow> 'c cache" where
  "m_setRasterizationState topology' sampleCount s =
     (let rasterizationState = rasterizationStateOf s topology' sampleCount
      in if strict_neq (m_rasterizationState s) rasterizationState then
           s\<lparr>m_rasterizationState := rasterizationState,
             m_states := (m_states s)(RasterizationState := rasterizationState),
             m_isDirty := True,
             m_stateDirtyLowestIndex := min (m_stateDirtyLowestIndex s) RasterizationState\<rparr>
         else s)"

text \<open>
  \<open>x === null ? d : table[x]\<close> on an element read from a parameter array: \<open>None\<close> is a
  read past the end (\<open>undefined\<close>, which no table holds), \<open>Some None\<close> is \<open>null\<close>.
\<close>

definition tableIndex :: "(int \<Rightarrow> jsnum) \<Rightarrow> int \<Rightarrow> int option option \<Rightarrow> jsnum" where
  "tableIndex table d x =
     (case x of None \<Rightarrow> Undefined | Some None \<Rightarrow> Number d | Some (Some k) \<Rightarrow> table k)"

text \<open>What \<open>_setColorStates\<close> adds to a color state for the enabled blend target \<open>i\<close>.\<close>

definition blendTargetBits :: "'c cache \<Rightarrow> nat \<Rightarrow> jsnum" where
  "blendTargetBits s i =
     (let index0 = i * 4 + 0; index1 = i * 4 + 1; index2 = i * 4 + 2; index3 = i * 4 + 3;
          indexEq0 = i * 2 + 0; indexEq1 = i * 2 + 1;
          eq0 = tableIndex alphaBlendEquationToIndex 0 (js_index (m_alphaBlendEqParams s) indexEq0);
          eq1 = tableIndex alphaBlendEquationToIndex 0 (js_index (m_alphaBlendEqParams s) indexEq1);
          f = (\<lambda>k. tableIndex alphaBlendFactorToIndex 1 (js_index (m_alphaBlendFuncParams s) k))
      in js_add
           (js_add
              (js_add
                 (js_add (js_shl (f index0) 0) (js_shl (f index1) 5))
                 (js_shl (f index2) 10))
              (js_shl (f index3) 15))
           (js_mul (js_add eq0 (js_mul eq1 (Number 5))) (js_shl (Number 1) 20)))"

text \<open>
  One round of the loop of \<open>_setColorStates\<close>. The loop carries the scratch array
  \<open>colorStates\<close>, \<open>colorStateIndex\<close>, the local \<open>isDirty\<close> and the cache (whose slots
  are written after every odd \<open>i\<close>).
\<close>

definition setColorStates_step ::
  "jsnum list \<times> nat \<times> bool \<times> 'c cache \<Rightarrow> nat \<Rightarrow> jsnum list \<times> nat \<times> bool \<times> 'c cache"
where
  "setColorStates_step st i =
     (case st of (colorStates, colorStateIndex, isDirty, s) \<Rightarrow>
        let colorStates1 =
              (if js_index (m_alphaBlendEnabled s) i = Some True then
                 colorStates[colorStateIndex :=
                   js_add (colorStates ! colorStateIndex) (blendTargetBits s i)]
               else colorStates)
        in if odd i then
             (colorStates1, colorStateIndex + 1,
              isDirty \<or> strict_neq (m_states s (ColorStates1 + colorStateIndex))
                          (colorStates1 ! colorStateIndex),
              s\<lparr>m_states := (m_states s)(ColorStates1 + colorStateIndex :=
                                           colorStates1 ! colorStateIndex)\<rparr>)
           else (colorStates1, colorStateIndex, isDirty, s))"

definition m_setColorStates :: "'c cache \<Rightarrow> 'c cache" where
  "m_setColorStates s =
     (let colorStates =
            [Number ((if m_writeMask s \<noteq> 0 then 1 else 0) * 2 ^ 53),
             Number ((if m_depthWriteEnabled s then 1 else 0) * 2 ^ 53),
             js_mul (js_and (m_colorFormat s) (Number 0x07)) (Number (2 ^ 50)),
             js_mul (js_and (m_colorFormat s) (Number 0x38)) (Number (2 ^ 47))]
      in case foldl setColorStates_step (colorStates, 0, False, s) [0, 1, 2, 3, 4, 5, 6, 7] of
           (_, _, isDirty, s1) \<Rightarrow>
             if isDirty then
               s1\<lparr>m_isDirty := True,
                  m_stateDirtyLowestIndex := min (m_stateDirtyLowestIndex s1) ColorStates1\<rparr>
             else s1)"

text \<open>The packed value computed by \<open>_setDepthStencilState\<close>.\<close>

definition depthStencilStateOf :: "'c cache \<Rightarrow> jsnum" where
  "depthStencilStateOf s =
     (let stencilState =
            (if \<not> m_stencilEnabled s then
               js_add
                 (js_add
                    (js_add
                       (js_add
                          (js_add
                             (js_add
                                (js_add (Number 7) (js_shl (Number 1) 3))
                                (js_shl (Number 1) 6))
                             (js_shl (Number 1) 9))
                          (js_shl (Number 7) 12))
                       (js_shl (Number 1) 15))
                    (js_shl (Number 1) 18))
                 (js_shl (Number 1) 21)
             else
               js_add
                 (js_add
                    (js_add
                       (js_add
                          (js_add
                             (js_add
                                (js_add (Number (m_stencilFrontCompare s))
                                   (js_shl (m_stencilFrontDepthFailOp s) 3))
                                (js_shl (m_stencilFrontPassOp s) 6))
                             (js_shl (m_stencilFrontFailOp s) 9))
                          (js_shl (Number (m_stencilBackCompare s)) 12))
                       (js_shl (m_stencilBackDepthFailOp s) 15))
                    (js_shl (m_stencilBackPassOp s) 18))
                 (js_shl (m_stencilBackFailOp s) 21))
      in js_add
           (js_add (m_depthStencilFormat s)
              (js_shl (Number (if m_depthTestEnabled s then m_depthCompare s else 7)) 6))
           (js_mul stencilState (js_shl (Number 1) 10)))"

definition m_setDepthStencilState :: "'c cache \<Rightarrow> 'c cache" where
  "m_setDepthStencilState s =
     (let depthStencilState = depthStencilStateOf s
      in if strict_neq (m_depthStencilState s) depthStencilState then
           s\<lparr>m_depthStencilState := depthStencilState,
             m_states := (m_states s)(DepthStencilState := depthStencilState),
             m_isDirty := True,
             m_stateDirtyLowestIndex := min (m_stateDirtyLowestIndex s) DepthStencilState\<rparr>
         else s)"

section \<open>Vertex state\<close>

text \<open>
  The vertex buffer of an attribute:
  \<open>(this._overrideVertexBuffers && this._overrideVertexBuffers[name]) ?? this._vertexBuffers![name]\<close>,
  replaced by the empty vertex buffer when there is none. Reading \<open>_vertexBuffers\<close>
  while it is \<open>null\<close> is a \<open>TypeError\<close>.
\<close>

definition resolveVertexBuffer :: "'c cache \<Rightarrow> string \<Rightarrow> error + vbref" where
  "resolveVertexBuffer s name =
     (case (case m_overrideVertexBuffers s of None \<Rightarrow> None | Some ov \<Rightarrow> ov name) of
        Some r \<Rightarrow> Inr r
      | None \<Rightarrow>
          (case m_vertexBuffers s of
             None \<Rightarrow> Inl TypeError
           | Some vbs \<Rightarrow> Inr (case vbs name of None \<Rightarrow> m_emptyVertexBuffer s | Some r \<Rightarrow> r)))"

text \<open>The value \<open>_setVertexState\<close> memoises in \<open>_validOffsetRange\<close>.\<close>

definition validOffsetRangeOf :: "int \<Rightarrow> vertex_buffer \<Rightarrow> bool" where
  "validOffsetRangeOf kMaxVertexBufferStride vertexBuffer =
     (let offset' = effectiveByteOffset vertexBuffer;
          formatSize = getSizeInBytes vertexBuffer;
          byteStride = effectiveByteStride vertexBuffer
      in (offset' + formatSize \<le> kMaxVertexBufferStride \<and> byteStride = 0)
         \<or> (byteStride \<noteq> 0 \<and> offset' + formatSize \<le> byteStride))"

definition attributeLocation :: "int list \<Rightarrow> nat \<Rightarrow> jsnum" where
  "attributeLocation locations index =
     (case js_index locations index of None \<Rightarrow> Undefined | Some l \<Rightarrow> Number l)"

text \<open>
  The loop of \<open>_setVertexState\<close> over the attributes, from \<open>index\<close> on. It carries
  \<open>currentGPUBuffer\<close> (\<open>None\<close> while undefined or \<open>null\<close>), \<open>numVertexBuffers\<close> and
  \<open>newNumStates\<close>. A throw leaves the cache as it is at that point.
\<close>

fun setVertexState_loop ::
  "int list \<Rightarrow> string list \<Rightarrow> nat \<Rightarrow> nat option \<times> nat \<times> nat \<Rightarrow> 'c cache
     \<Rightarrow> error option \<times> (nat \<times> nat) \<times> 'c cache"
where
  "setVertexState_loop locations [] index (currentGPUBuffer, numVertexBuffers, newNumStates) s =
     (None, (numVertexBuffers, newNumStates), s)"
| "setVertexState_loop locations (attribute # rest) index
       (currentGPUBuffer, numVertexBuffers, newNumStates) s =
     (case resolveVertexBuffer s attribute of
        Inl e \<Rightarrow> (Some e, (numVertexBuffers, newNumStates), s)
      | Inr r \<Rightarrow>
          let location = attributeLocation locations index;
              buffer = underlyingResource (vbHeap s r);
              s1 = (if validOffsetRange (vbHeap s r) = None then
                      s\<lparr>vbHeap := (vbHeap s)(r := (vbHeap s r)
                           \<lparr>validOffsetRange :=
                              Some (validOffsetRangeOf (m_kMaxVertexBufferStride s) (vbHeap s r))\<rparr>)\<rparr>
                    else s);
              vertexBuffer = vbHeap s1 r;
              valid = (validOffsetRange vertexBuffer = Some True);
              combine = (currentGPUBuffer \<noteq> None \<and> currentGPUBuffer = buffer \<and> valid);
              s2 = (if combine then s1
                    else s1\<lparr>vertexBuffers := js_store (vertexBuffers s1) numVertexBuffers r\<rparr>);
              numVertexBuffers' = (if combine then numVertexBuffers else numVertexBuffers + 1);
              currentGPUBuffer' =
                (if combine then currentGPUBuffer else if valid then buffer else None);
              vid = js_add (Number (hashCode vertexBuffer)) (js_shl location 7);
              s3 = s2\<lparr>m_isDirty := (m_isDirty s2 \<or> strict_neq (m_states s2 newNumStates) vid),
                     m_states := (m_states s2)(newNumStates := vid)\<rparr>
          in setVertexState_loop locations rest (index + 1)
               (currentGPUBuffer', numVertexBuffers', newNumStates + 1) s3)"

definition m_setVertexState :: "effect \<Rightarrow> 'c cache \<Rightarrow> error option \<times> 'c cache" where
  "m_setVertexState eff s =
     (let currStateLen = m_statesLength s
      in case setVertexState_loop (attributeLocationsFromEffect eff)
                (attributeNamesFromEffect eff) 0 (None, 0, VertexState) s of
           (Some e, _, s1) \<Rightarrow> (Some e, s1)
         | (None, (numVertexBuffers, newNumStates), s1) \<Rightarrow>
             let s2 = s1\<lparr>vertexBuffers := take numVertexBuffers (vertexBuffers s1),
                        m_statesLength := newNumStates\<rparr>;
                 s3 = s2\<lparr>m_isDirty := (m_isDirty s2 \<or> newNumStates \<noteq> currStateLen)\<rparr>
             in (None,
                 if m_isDirty s3 then
                   s3\<lparr>m_stateDirtyLowestIndex := min (m_stateDirtyLowestIndex s3) VertexState\<rparr>
                 else s3))"

section \<open>Descriptor builder\<close>

text \<open>\<open>currentGPUAttributes.push(a)\<close>: the attribute list is that of the latest layout.\<close>

definition pushAttribute ::
  "vertex_buffer_layout list \<Rightarrow> vertex_attribute \<Rightarrow> vertex_buffer_layout list"
where
  "pushAttribute descriptors a =
     butlast descriptors
     @ [(last descriptors)\<lparr>attributes := attributes (last descriptors) @ [a]\<rparr>]"

text \<open>
  The loop of \<open>_getVertexInputDescriptor\<close>. \<open>currentGPUAttributes\<close> is defined exactly
  when a layout has been pushed.
\<close>

fun getVertexInputDescriptor_loop ::
  "'c cache \<Rightarrow> int list \<Rightarrow> string list \<Rightarrow> nat \<Rightarrow> nat option \<Rightarrow> vertex_buffer_layout list
     \<Rightarrow> error + vertex_buffer_layout list"
where
  "getVertexInputDescriptor_loop s locations [] index currentGPUBuffer descriptors =
     Inr descriptors"
| "getVertexInputDescriptor_loop s locations (attribute # rest) index currentGPUBuffer
       descriptors =
     (case resolveVertexBuffer s attribute of
        Inl e \<Rightarrow> Inl e
      | Inr r \<Rightarrow>
          let location = attributeLocation locations index;
              vertexBuffer = vbHeap s r;
              buffer = underlyingResource vertexBuffer;
              invalidOffsetRange = (validOffsetRange vertexBuffer \<noteq> Some True);
              fresh = (\<not> (currentGPUBuffer \<noteq> None \<and> descriptors \<noteq> []
                           \<and> currentGPUBuffer = buffer)
                       \<or> invalidOffsetRange);
              descriptors1 =
                (if fresh then
                   descriptors
                   @ [\<lparr>arrayStride = effectiveByteStride vertexBuffer,
                       stepMode = (if getIsInstanced vertexBuffer then Instance else Vertex),
                       attributes = []\<rparr>]
                 else descriptors);
              offset' = (if fresh \<and> invalidOffsetRange then 0
                         else effectiveByteOffset vertexBuffer);
              buffer' = (if fresh \<and> invalidOffsetRange then None else buffer)
          in case m_GetVertexInputDescriptorFormat vertexBuffer of
               Inl e \<Rightarrow> Inl e
             | Inr fmt \<Rightarrow>
                 getVertexInputDescriptor_loop s locations rest (index + 1) buffer'
                   (pushAttribute descriptors1
                      \<lparr>shaderLocation = location, offset = offset', format = fmt\<rparr>))"

definition m_getVertexInputDescriptor :: "effect \<Rightarrow> 'c cache \<Rightarrow> error + vertex_buffer_layout list"
where
  "m_getVertexInputDescriptor eff s =
     getVertexInputDescriptor_loop s (attributeLocationsFromEffect eff)
       (attributeNamesFromEffect eff) 0 None []"

text \<open>One color target: format, write mask, and the blend state of \<open>targetIndex\<close>.\<close>

definition colorTarget :: "'c cache \<Rightarrow> string \<Rightarrow> int \<Rightarrow> nat \<Rightarrow> color_target_state" where
  "colorTarget s format' writeMask targetIndex =
     \<lparr>targetFormat = format', targetWriteMask = writeMask,
      blend =
        (case (m_getAphaBlendState s targetIndex, m_getColorBlendState s targetIndex) of
           (Some alphaBlend, Some colorBlend) \<Rightarrow> Some \<lparr>alpha = alphaBlend, color = colorBlend\<rparr>
         | _ \<Rightarrow> None)\<rparr>"

text \<open>A format is truthy when it is a non-empty string.\<close>

definition truthyFormat :: "string option \<Rightarrow> string option" where
  "truthyFormat f = (case f of Some x \<Rightarrow> (if x = [] then None else Some x) | None \<Rightarrow> None)"

definition colorStatesOf :: "'c cache \<Rightarrow> color_target_state option list" where
  "colorStatesOf s =
     (if (case m_mrtAttachments s of Number n \<Rightarrow> n > 0 | _ \<Rightarrow> False) then
        map (\<lambda>i. case truthyFormat (m_mrtFormats s ! i) of
                   Some format' \<Rightarrow>
                     Some (colorTarget s format'
                             (if js_and (m_mrtEnabledMask s) (js_shl (Number 1) i) \<noteq> Number 0
                              then m_writeMask s else 0)
                             (if int i < m_numAlphaBlendTargetsEnabled s then i else 0))
                 | None \<Rightarrow> None)
          [0..<length (m_mrtFormats s)]
      else
        [case truthyFormat (m_webgpuColorFormat s) of
           Some format' \<Rightarrow> Some (colorTarget s format' (m_writeMask s) 0)
         | None \<Rightarrow> None])"

definition stencilFrontOf :: "'c cache \<Rightarrow> stencil_face_state" where
  "stencilFrontOf s =
     \<lparr>compare = m_GetCompareFunction (if m_stencilEnabled s then m_stencilFrontCompare s else 7),
      depthFailOp = m_GetStencilOpFunction
                      (if m_stencilEnabled s then m_stencilFrontDepthFailOp s else Number 1),
      failOp = m_GetStencilOpFunction
                 (if m_stencilEnabled s then m_stencilFrontFailOp s else Number 1),
      passOp = m_GetStencilOpFunction
                 (if m_stencilEnabled s then m_stencilFrontPassOp s else Number 1)\<rparr>"

definition stencilBackOf :: "'c cache \<Rightarrow> stencil_face_state" where
  "stencilBackOf s =
     \<lparr>compare = m_GetCompareFunction (if m_stencilEnabled s then m_stencilBackCompare s else 7),
      depthFailOp = m_GetStencilOpFunction
                      (if m_stencilEnabled s then m_stencilBackDepthFailOp s else Number 1),
      failOp = m_GetStencilOpFunction
                 (if m_stencilEnabled s then m_stencilBackFailOp s else Number 1),
      passOp = m_GetStencilOpFunction
                 (if m_stencilEnabled s then m_stencilBackPassOp s else Number 1)\<rparr>"

text \<open>
  The descriptor that \<open>_createRenderPipeline\<close> hands to the device. Building it throws
  when the vertex input descriptor does.
\<close>

definition renderPipelineDescriptor ::
  "env \<Rightarrow> effect \<Rightarrow> primitive_topology \<Rightarrow> int \<Rightarrow> 'c cache \<Rightarrow> error + descriptor"
where
  "renderPipelineDescriptor E eff topology' sampleCount s =
     (case m_getVertexInputDescriptor eff s of
        Inl e \<Rightarrow> Inl e
      | Inr inputStateDescriptor \<Rightarrow>
          let colorStates = colorStatesOf s;
              stencilFront' = stencilFrontOf s;
              stencilBack' = stencilBackOf s;
              topologyIsTriangle = (topology' = TriangleList \<or> topology' = TriangleStrip);
              stripIndexFormat' =
                (if topology' = LineStrip \<or> topology' = TriangleStrip then
                   Some (case indexBuffer s of
                           None \<Rightarrow> IndexUint32
                         | Some ib \<Rightarrow> (if is32Bits ib then IndexUint32 else IndexUint16))
                 else None);
              depthStencilFormatHasStencil =
                (case truthyFormat (m_webgpuDepthStencilFormat s) of
                   Some f \<Rightarrow> HasStencilAspect E f
                 | None \<Rightarrow> False)
          in Inr
               \<lparr>shaderOf = uniqueId eff,
                layoutTextureState = m_textureState s,
                buffers = inputStateDescriptor,
                topology = topology',
                stripIndexFormat = stripIndexFormat',
                frontFace = (if m_frontFace s = 1 then CCW else CW),
                cullMode = (if \<not> m_cullEnabled s then CullNone
                            else if m_cullFace s = 2 then CullFront else CullBack),
                targets = (if \<not> hasFragmentStage eff then None else Some colorStates),
                multisampleCount = sampleCount,
                depthStencil =
                  (case m_webgpuDepthStencilFormat s of
                     None \<Rightarrow> None
                   | Some f \<Rightarrow>
                       Some
                         \<lparr>depthWriteEnabled = m_depthWriteEnabled s,
                          depthCompare =
                            (if m_depthTestEnabled s then m_GetCompareFunction (m_depthCompare s)
                             else CF_Always),
                          depthStencilFormat = f,
                          stencilFront =
                            (if m_stencilEnabled s \<and> depthStencilFormatHasStencil
                             then Some stencilFront' else None),
                          stencilBack =
                            (if m_stencilEnabled s \<and> depthStencilFormatHasStencil
                             then Some stencilBack' else None),
                          stencilReadMask =
                            (if m_stencilEnabled s \<and> depthStencilFormatHasStencil
                             then Some (m_stencilReadMask s) else None),
                          stencilWriteMask =
                            (if m_stencilEnabled s \<and> depthStencilFormatHasStencil
                             then Some (m_stencilWriteMask s) else None),
                          depthBias = m_depthBias s,
                          depthBiasClamp =
                            (if topologyIsTriangle then m_depthBiasClamp s else Number 0),
                          depthBiasSlopeScale =
                            (if topologyIsTriangle then m_depthBiasSlopeScale s else Number 0)\<rparr>)\<rparr>)"

text \<open>
  \<open>_createRenderPipeline\<close>: build the descriptor and call the device, which is recorded
  in \<open>deviceCalls\<close> whether it answers or throws.
\<close>

definition m_createRenderPipeline ::
  "env \<Rightarrow> device \<Rightarrow> effect \<Rightarrow> primitive_topology \<Rightarrow> int \<Rightarrow> 'c cache
     \<Rightarrow> (error + pipeline) \<times> 'c cache"
where
  "m_createRenderPipeline E dev eff topology' sampleCount s =
     (case renderPipelineDescriptor E eff topology' sampleCount s of
        Inl e \<Rightarrow> (Inl e, s)
      | Inr d \<Rightarrow>
          (case dev (deviceCalls s) d of
             Inl code \<Rightarrow> (Inl (DeviceError code), s\<lparr>deviceCalls := deviceCalls s @ [d]\<rparr>)
           | Inr p \<Rightarrow> (Inr p, s\<lparr>deviceCalls := deviceCalls s @ [d]\<rparr>)))"

section \<open>Pipeline resolver\<close>

text \<open>The state vector: the first \<open>_statesLength\<close> slots.\<close>

definition stateVector :: "'c cache \<Rightarrow> jsnum list" where
  "stateVector s = map (m_states s) [0..<m_statesLength s]"

text \<open>
  \<open>getRenderPipeline\<close> returns the pipeline or the error thrown, together with the
  cache as the call leaves it (a throw does not undo the writes made before it).
\<close>

definition getRenderPipeline ::
  "env \<Rightarrow> device \<Rightarrow> 'c strategy \<Rightarrow> int \<Rightarrow> effect \<Rightarrow> int \<Rightarrow> int \<Rightarrow> 'c cache
     \<Rightarrow> (error + pipeline) \<times> 'c cache"
where
  "getRenderPipeline E dev strat fillMode eff sampleCount' textureState s =
     (let sampleCount = GetSample E sampleCount'
      in if disabled s then
           (case m_GetTopology E fillMode of
              Inl e \<Rightarrow> (Inl e, s)
            | Inr topology' \<Rightarrow>
                (case m_setVertexState eff s of
                   (Some e, s1) \<Rightarrow> (Inl e, s1)
                 | (None, s1) \<Rightarrow>
                     (case m_createRenderPipeline E dev eff topology' sampleCount
                             (m_setTextureState textureState s1) of
                        (Inl e, s2) \<Rightarrow> (Inl e, s2)
                      | (Inr p, s2) \<Rightarrow>
                          (Inr p,
                           s2\<lparr>m_parameter_pipeline := Some p,
                              NumCacheMiss := NumCacheMiss s2 + 1,
                              m_NumPipelineCreationCurrentFrame :=
                                m_NumPipelineCreationCurrentFrame s2 + 1\<rparr>))))
         else
           (case m_setVertexState eff
                   (m_setDepthStencilState
                      (m_setColorStates
                         (m_setRasterizationState fillMode sampleCount
                            (m_setShaderStage (uniqueId eff) s)))) of
              (Some e, s1) \<Rightarrow> (Inl e, s1)
            | (None, s1) \<Rightarrow>
                let s2 = m_setTextureState textureState s1;
                    s3 = s2\<lparr>lastStateDirtyLowestIndex := Some (m_stateDirtyLowestIndex s2)\<rparr>
                in if \<not> m_isDirty s3 \<and> m_parameter_pipeline s3 \<noteq> None then
                     (Inr (the (m_parameter_pipeline s3)),
                      s3\<lparr>m_stateDirtyLowestIndex := m_statesLength s3,
                         NumCacheHitWithoutHash := NumCacheHitWithoutHash s3 + 1\<rparr>)
                   else
                     (case lookupRP strat (store s3) (stateVector s3)
                             (m_stateDirtyLowestIndex s3) of
                        (st, found) \<Rightarrow>
                          let s4 = s3\<lparr>store := st,
                                     m_parameter_pipeline := found,
                                     m_isDirty := False,
                                     m_stateDirtyLowestIndex := m_statesLength s3\<rparr>
                          in (case found of
                                Some p \<Rightarrow>
                                  (Inr p, s4\<lparr>NumCacheHitWithHash := NumCacheHitWithHash s4 + 1\<rparr>)
                              | None \<Rightarrow>
                                  (case m_GetTopology E fillMode of
                                     Inl e \<Rightarrow> (Inl e, s4)
                                   | Inr topology' \<Rightarrow>
                                       (case m_createRenderPipeline E dev eff topology'
                                               sampleCount s4 of
                                          (Inl e, s5) \<Rightarrow> (Inl e, s5)
                                        | (Inr p, s5) \<Rightarrow>
                                            (Inr p,
                                             s5\<lparr>m_parameter_pipeline := Some p,
                                                store := storeRP strat (store s5)
                                                           (stateVector s5) p,
                                                NumCacheMiss := NumCacheMiss s5 + 1,
                                                m_NumPipelineCreationCurrentFrame :=
                                                  m_NumPipelineCreationCurrentFrame s5 + 1\<rparr>)))))))"

subsection \<open>Two lookup strategies\<close>

text \<open>
  Modelled from the spec: the subclasses of the cache class that implement
  \<open>_getRenderPipeline\<close> and \<open>_setRenderPipeline\<close> are not in the sources. The spec names
  two variants: an indexed one, "keyed by the full state vector", which finds "an
  existing pipeline for this exact state", and a disabled one for which "every
  getRenderPipeline call is a miss". The indexed store is a list of entries, the
  latest first.
\<close>

definition Indexed :: "(jsnum list \<times> pipeline) list strategy" where
  "Indexed =
     \<lparr>lookupRP = (\<lambda>st key lowest. (st, map_of st key)),
      storeRP = (\<lambda>st key p. (key, p) # st)\<rparr>"

definition NoCache :: "unit strategy" where
  "NoCache = \<lparr>lookupRP = (\<lambda>st key lowest. (st, None)), storeRP = (\<lambda>st key p. st)\<rparr>"

section \<open>A concrete setting\<close>

text \<open>
  A concrete environment for evaluating the model: the fill-mode constants numbered
  from 0 in the order triangle fill, wireframe, point, point list, line list, line
  loop, line strip, triangle strip, triangle fan; \<open>ALWAYS = 0x0207\<close>, \<open>KEEP = 0x1E00\<close>,
  \<open>REPLACE = 0x1E01\<close>; a small format table; a sample-count helper that answers 4 for
  more than one sample and 1 otherwise; three formats with a stencil aspect.
\<close>

definition exampleEnv :: env where
  "exampleEnv =
     \<lparr>MATERIAL_TriangleFillMode = 0, MATERIAL_WireFrameFillMode = 1,
      MATERIAL_PointFillMode = 2, MATERIAL_PointListDrawMode = 3,
      MATERIAL_LineListDrawMode = 4, MATERIAL_LineLoopDrawMode = 5,
      MATERIAL_LineStripDrawMode = 6, MATERIAL_TriangleStripDrawMode = 7,
      MATERIAL_TriangleFanDrawMode = 8,
      ALWAYS = 0x0207, KEEP = 0x1E00, REPLACE = 0x1E01,
      BGRA8Unorm = ''bgra8unorm'', Depth24PlusStencil8 = ''depth24plus-stencil8'',
      renderableTextureFormatToIndex =
        (\<lambda>f. if f = [] then Number 0
             else if f = ''rgba8unorm'' then Number 9
             else if f = ''bgra8unorm'' then Number 13
             else if f = ''depth32float'' then Number 40
             else if f = ''depth24plus-stencil8'' then Number 42
             else Undefined),
      GetSample = (\<lambda>n. if n > 1 then 4 else 1),
      HasStencilAspect =
        (\<lambda>f. f = ''stencil8'' \<or> f = ''depth24plus-stencil8'' \<or> f = ''depth32float-stencil8''),
      maxVertexBufferArrayStride = Number 2048\<rparr>"

text \<open>A device that accepts every descriptor and numbers its pipelines from 100.\<close>

definition acceptingDevice :: device where
  "acceptingDevice calls d = Inr (100 + length calls)"

text \<open>A device that rejects every descriptor.\<close>

definition rejectingDevice :: device where
  "rejectingDevice calls d = Inl 7"

text \<open>
  Vertex buffers for the examples, all of three floats: address 0 is the empty vertex
  buffer; 1 and 2 share GPU buffer 50 with stride 24 (offsets 0 and 12); 3 sits alone
  in GPU buffer 51; 4 is in GPU buffer 50 too but its offset 16 leaves no room for 12
  bytes within the stride.
\<close>

definition exampleBuffer :: "nat \<Rightarrow> int \<Rightarrow> int \<Rightarrow> int \<Rightarrow> vertex_buffer" where
  "exampleBuffer gpu offset' stride hash =
     \<lparr>underlyingResource = Some gpu, effectiveByteOffset = offset',
      effectiveByteStride = stride, vtype = VB_FLOAT, normalized = False, getSize = 3,
      getSizeInBytes = 12, getIsInstanced = False, hashCode = hash,
      validOffsetRange = None\<rparr>"

definition exampleHeap :: "vbref \<Rightarrow> vertex_buffer" where
  "exampleHeap r =
     (if r = 1 then exampleBuffer 50 0 24 11
      else if r = 2 then exampleBuffer 50 12 24 12
      else if r = 3 then exampleBuffer 51 0 12 13
      else if r = 4 then exampleBuffer 50 16 24 14
      else exampleBuffer 49 0 0 10)"

definition noAttributes :: effect where
  "noAttributes =
     \<lparr>uniqueId = 1, attributeNamesFromEffect = [], attributeLocationsFromEffect = [],
      hasFragmentStage = True\<rparr>"

definition twoAttributes :: effect where
  "twoAttributes =
     \<lparr>uniqueId = 2, attributeNamesFromEffect = [''position'', ''normal''],
      attributeLocationsFromEffect = [0, 1], hasFragmentStage = True\<rparr>"

text \<open>A new cache with the indexed strategy and an empty store.\<close>

definition newCache :: "(jsnum list \<times> pipeline) list cache" where
  "newCache = constructor exampleEnv 0 exampleHeap []"

section \<open>Vocabulary of the statements\<close>

text \<open>The fill modes that \<open>_GetTopology\<close> has a case for.\<close>

definition recognisedFillModes :: "env \<Rightarrow> int set" where
  "recognisedFillModes E =
     {MATERIAL_TriangleFillMode E, MATERIAL_PointFillMode E, MATERIAL_WireFrameFillMode E,
      MATERIAL_PointListDrawMode E, MATERIAL_LineListDrawMode E, MATERIAL_LineLoopDrawMode E,
      MATERIAL_LineStripDrawMode E, MATERIAL_TriangleStripDrawMode E,
      MATERIAL_TriangleFanDrawMode E}"

text \<open>
  The vertex buffer an attribute name resolves to (address 0 stands in when the
  resolution throws; the statements use it only where it does not).
\<close>

definition refOf :: "'c cache \<Rightarrow> string \<Rightarrow> vbref" where
  "refOf s name = (case resolveVertexBuffer s name of Inr r \<Rightarrow> r | Inl e \<Rightarrow> 0)"

text \<open>
  One round of the loop of \<open>_setVertexState\<close>, for an attribute that resolves to the
  vertex buffer \<open>r\<close>, in parts: the cache after the memo \<open>_validOffsetRange\<close> is filled
  in, the test for reusing the current layout, the value \<open>vid\<close> written to the slot,
  the cache after the round, and the loop variables after the round.
\<close>

definition withMemo :: "'c cache \<Rightarrow> vbref \<Rightarrow> 'c cache" where
  "withMemo s r =
     (if validOffsetRange (vbHeap s r) = None then
        s\<lparr>vbHeap := (vbHeap s)(r := (vbHeap s r)
             \<lparr>validOffsetRange :=
                Some (validOffsetRangeOf (m_kMaxVertexBufferStride s) (vbHeap s r))\<rparr>)\<rparr>
      else s)"

definition canCombine :: "'c cache \<Rightarrow> nat option \<Rightarrow> vbref \<Rightarrow> bool" where
  "canCombine s cur r \<longleftrightarrow>
     cur \<noteq> None \<and> cur = underlyingResource (vbHeap s r)
     \<and> validOffsetRange (vbHeap (withMemo s r) r) = Some True"

definition vidAt :: "'c cache \<Rightarrow> int list \<Rightarrow> nat \<Rightarrow> vbref \<Rightarrow> jsnum" where
  "vidAt s locs index r =
     js_add (Number (hashCode (vbHeap s r))) (js_shl (attributeLocation locs index) 7)"

definition stepState ::
  "'c cache \<Rightarrow> int list \<Rightarrow> nat \<Rightarrow> nat option \<Rightarrow> nat \<Rightarrow> nat \<Rightarrow> vbref \<Rightarrow> 'c cache"
where
  "stepState s locs index cur num nn r =
     (let s1 = withMemo s r;
          s2 = (if canCombine s cur r then s1
                else s1\<lparr>vertexBuffers := js_store (vertexBuffers s1) num r\<rparr>)
      in s2\<lparr>m_isDirty := (m_isDirty s2 \<or> strict_neq (m_states s2 nn) (vidAt s locs index r)),
            m_states := (m_states s2)(nn := vidAt s locs index r)\<rparr>)"

definition stepCarry ::
  "'c cache \<Rightarrow> nat option \<Rightarrow> nat \<Rightarrow> nat \<Rightarrow> vbref \<Rightarrow> nat option \<times> nat \<times> nat"
where
  "stepCarry s cur num nn r =
     (if canCombine s cur r then (cur, num, nn + 1)
      else (if validOffsetRange (vbHeap (withMemo s r) r) = Some True
            then underlyingResource (vbHeap s r) else None, num + 1, nn + 1))"

text \<open>The value of \<open>_validOffsetRange\<close> once \<open>_setVertexState\<close> has seen the buffer.\<close>

definition memoOf :: "'c cache \<Rightarrow> vbref \<Rightarrow> bool option" where
  "memoOf s r =
     (case validOffsetRange (vbHeap s r) of
        None \<Rightarrow> Some (validOffsetRangeOf (m_kMaxVertexBufferStride s) (vbHeap s r))
      | Some b \<Rightarrow> Some b)"

text \<open>
  Frames. \<open>recomputes s s'\<close>: the cache \<open>s'\<close> differs from \<open>s\<close> at most in what the
  packing steps of a resolution write (slots, their length, the dirty tracking, the
  packed values kept for comparison, the list of vertex buffers, the heap).
  \<open>heapFrame s s'\<close>: the heaps differ at most in the memos \<open>_validOffsetRange\<close>.
\<close>

definition recomputes :: "'c cache \<Rightarrow> 'c cache \<Rightarrow> bool" where
  "recomputes s s' \<longleftrightarrow>
     s' = s\<lparr>m_states := m_states s', m_statesLength := m_statesLength s',
            m_stateDirtyLowestIndex := m_stateDirtyLowestIndex s',
            lastStateDirtyLowestIndex := lastStateDirtyLowestIndex s',
            m_isDirty := m_isDirty s',
            m_shaderId := m_shaderId s', m_rasterizationState := m_rasterizationState s',
            m_depthStencilState := m_depthStencilState s', m_textureState := m_textureState s',
            vertexBuffers := vertexBuffers s', vbHeap := vbHeap s'\<rparr>"

text \<open>
  \<open>vertexFrame s s'\<close>: \<open>s'\<close> differs from \<open>s\<close> at most in what \<open>_setVertexState\<close> writes.
\<close>

definition vertexFrame :: "'c cache \<Rightarrow> 'c cache \<Rightarrow> bool" where
  "vertexFrame s s' \<longleftrightarrow>
     s' = s\<lparr>m_states := m_states s', m_statesLength := m_statesLength s',
            m_stateDirtyLowestIndex := m_stateDirtyLowestIndex s',
            m_isDirty := m_isDirty s',
            vertexBuffers := vertexBuffers s', vbHeap := vbHeap s'\<rparr>"

definition heapFrame :: "'c cache \<Rightarrow> 'c cache \<Rightarrow> bool" where
  "heapFrame s s' \<longleftrightarrow>
     (\<forall>r. vbHeap s' r = (vbHeap s r)\<lparr>validOffsetRange := validOffsetRange (vbHeap s' r)\<rparr>)"

text \<open>
  The loop of \<open>_setColorStates\<close> in closed form: color state \<open>k\<close> starts from its flag
  bits and receives the bits of the blend targets \<open>2k\<close> and \<open>2k + 1\<close> that are enabled.
\<close>

definition blendEnabled :: "'c cache \<Rightarrow> nat \<Rightarrow> bool" where
  "blendEnabled s i = (js_index (m_alphaBlendEnabled s) i = Some True)"

definition colorStateInit :: "'c cache \<Rightarrow> jsnum list" where
  "colorStateInit s =
     [Number ((if m_writeMask s \<noteq> 0 then 1 else 0) * 2 ^ 53),
      Number ((if m_depthWriteEnabled s then 1 else 0) * 2 ^ 53),
      js_mul (js_and (m_colorFormat s) (Number 0x07)) (Number (2 ^ 50)),
      js_mul (js_and (m_colorFormat s) (Number 0x38)) (Number (2 ^ 47))]"

definition addTarget :: "'c cache \<Rightarrow> nat \<Rightarrow> jsnum \<Rightarrow> jsnum" where
  "addTarget s i c = (if blendEnabled s i then js_add c (blendTargetBits s i) else c)"

definition colorStateOf :: "'c cache \<Rightarrow> nat \<Rightarrow> jsnum" where
  "colorStateOf s k = addTarget s (2 * k + 1) (addTarget s (2 * k) (colorStateInit s ! k))"

text \<open>
  The two halves of \<open>getRenderPipeline\<close> in the enabled mode: the packing steps up to
  the recording of \<open>lastStateDirtyLowestIndex\<close>, and the path taken when the memo does
  not answer (lookup, then creation).
\<close>

definition prepare ::
  "env \<Rightarrow> int \<Rightarrow> effect \<Rightarrow> int \<Rightarrow> int \<Rightarrow> 'c cache \<Rightarrow> error option \<times> 'c cache"
where
  "prepare E fillMode eff sampleCount' textureState s =
     (case m_setVertexState eff
             (m_setDepthStencilState
                (m_setColorStates
                   (m_setRasterizationState fillMode (GetSample E sampleCount')
                      (m_setShaderStage (uniqueId eff) s)))) of
        (Some e, s1) \<Rightarrow> (Some e, s1)
      | (None, s1) \<Rightarrow>
          (None,
           (m_setTextureState textureState s1)
             \<lparr>lastStateDirtyLowestIndex :=
                Some (m_stateDirtyLowestIndex (m_setTextureState textureState s1))\<rparr>))"

definition lookedUp :: "'c strategy \<Rightarrow> 'c cache \<Rightarrow> 'c cache" where
  "lookedUp strat s3 =
     s3\<lparr>store := fst (lookupRP strat (store s3) (stateVector s3) (m_stateDirtyLowestIndex s3)),
        m_parameter_pipeline :=
          snd (lookupRP strat (store s3) (stateVector s3) (m_stateDirtyLowestIndex s3)),
        m_isDirty := False,
        m_stateDirtyLowestIndex := m_statesLength s3\<rparr>"

definition slowPath ::
  "env \<Rightarrow> device \<Rightarrow> 'c strategy \<Rightarrow> int \<Rightarrow> effect \<Rightarrow> int \<Rightarrow> 'c cache
     \<Rightarrow> (error + pipeline) \<times> 'c cache"
where
  "slowPath E dev strat fillMode eff sampleCount' s3 =
     (let s4 = lookedUp strat s3
      in case m_parameter_pipeline s4 of
           Some p \<Rightarrow> (Inr p, s4\<lparr>NumCacheHitWithHash := NumCacheHitWithHash s4 + 1\<rparr>)
         | None \<Rightarrow>
             (case m_GetTopology E fillMode of
                Inl e \<Rightarrow> (Inl e, s4)
              | Inr topology' \<Rightarrow>
                  (case m_createRenderPipeline E dev eff topology' (GetSample E sampleCount') s4 of
                     (Inl e, s5) \<Rightarrow> (Inl e, s5)
                   | (Inr p, s5) \<Rightarrow>
                       (Inr p,
                        s5\<lparr>m_parameter_pipeline := Some p,
                           store := storeRP strat (store s5) (stateVector s5) p,
                           NumCacheMiss := NumCacheMiss s5 + 1,
                           m_NumPipelineCreationCurrentFrame :=
                             m_NumPipelineCreationCurrentFrame s5 + 1\<rparr>))))"

text \<open>
  \<open>inSync\<close>: the values kept for comparison and the slots of the color states and of
  the vertex state are those that the packing steps compute from the cache for the
  given request, and every attribute of the effect resolves to a vertex buffer.
\<close>

definition inSync :: "env \<Rightarrow> int \<Rightarrow> effect \<Rightarrow> int \<Rightarrow> int \<Rightarrow> 'c cache \<Rightarrow> bool" where
  "inSync E fillMode eff sampleCount' textureState t \<longleftrightarrow>
     m_shaderId t = Number (uniqueId eff)
     \<and> m_rasterizationState t = rasterizationStateOf t fillMode (GetSample E sampleCount')
     \<and> (\<forall>k < 4. m_states t (ColorStates1 + k) = colorStateOf t k)
     \<and> m_depthStencilState t = depthStencilStateOf t
     \<and> m_textureState t = Number textureState
     \<and> m_statesLength t = VertexState + length (attributeNamesFromEffect eff)
     \<and> (\<forall>j < length (attributeNamesFromEffect eff).
           m_states t (VertexState + j) =
             vidAt t (attributeLocationsFromEffect eff) j
               (refOf t (attributeNamesFromEffect eff ! j)))
     \<and> (\<forall>a \<in> set (attributeNamesFromEffect eff). \<exists>r. resolveVertexBuffer t a = Inr r)"

text \<open>
  \<open>bookkeeping s s'\<close>: \<open>s'\<close> differs from \<open>s\<close> at most in what the resolver writes after
  the packing steps (counters, dirty tracking, memo, store, device calls).
\<close>

definition bookkeeping :: "'c cache \<Rightarrow> 'c cache \<Rightarrow> bool" where
  "bookkeeping s s' \<longleftrightarrow>
     s' = s\<lparr>NumCacheHitWithoutHash := NumCacheHitWithoutHash s',
            NumCacheHitWithHash := NumCacheHitWithHash s',
            NumCacheMiss := NumCacheMiss s',
            m_NumPipelineCreationCurrentFrame := m_NumPipelineCreationCurrentFrame s',
            m_stateDirtyLowestIndex := m_stateDirtyLowestIndex s',
            m_isDirty := m_isDirty s',
            m_parameter_pipeline := m_parameter_pipeline s',
            store := store s',
            deviceCalls := deviceCalls s'\<rparr>"

text \<open>
  \<open>creationState \<dots> s c\<close>: a call of \<open>getRenderPipeline\<close> on \<open>s\<close> reaches pipeline creation
  with the cache \<open>c\<close>: in the disabled mode after the vertex and texture state are set,
  in the enabled mode after the lookup has found nothing.
\<close>

definition creationState ::
  "env \<Rightarrow> 'c strategy \<Rightarrow> int \<Rightarrow> effect \<Rightarrow> int \<Rightarrow> int \<Rightarrow> 'c cache \<Rightarrow> 'c cache \<Rightarrow> bool"
where
  "creationState E strat fillMode eff sampleCount' textureState s c \<longleftrightarrow>
     (if disabled s then
        (\<exists>s1. m_setVertexState eff s = (None, s1) \<and> c = m_setTextureState textureState s1)
      else
        (\<exists>s3. prepare E fillMode eff sampleCount' textureState s = (None, s3)
              \<and> (m_isDirty s3 \<or> m_parameter_pipeline s3 = None)
              \<and> c = lookedUp strat s3 \<and> m_parameter_pipeline c = None))"

text \<open>What \<open>getRenderPipeline\<close> does to the cache after a successful creation.\<close>

definition created :: "'c strategy \<Rightarrow> bool \<Rightarrow> pipeline \<Rightarrow> 'c cache \<Rightarrow> 'c cache" where
  "created strat isDisabled p s5 =
     (if isDisabled then
        s5\<lparr>m_parameter_pipeline := Some p,
           NumCacheMiss := NumCacheMiss s5 + 1,
           m_NumPipelineCreationCurrentFrame := m_NumPipelineCreationCurrentFrame s5 + 1\<rparr>
      else
        s5\<lparr>m_parameter_pipeline := Some p,
           store := storeRP strat (store s5) (stateVector s5) p,
           NumCacheMiss := NumCacheMiss s5 + 1,
           m_NumPipelineCreationCurrentFrame := m_NumPipelineCreationCurrentFrame s5 + 1\<rparr>)"

text \<open>All pairwise different fill-mode constants.\<close>

definition distinctFillModes :: "env \<Rightarrow> bool" where
  "distinctFillModes E \<longleftrightarrow>
     distinct
       [MATERIAL_TriangleFillMode E, MATERIAL_PointFillMode E, MATERIAL_WireFrameFillMode E,
        MATERIAL_PointListDrawMode E, MATERIAL_LineListDrawMode E,
        MATERIAL_LineLoopDrawMode E, MATERIAL_LineStripDrawMode E,
        MATERIAL_TriangleStripDrawMode E, MATERIAL_TriangleFanDrawMode E]"

text \<open>
  What a setter can do to the dirty tracking. \<open>storesOnly s s'\<close>: no slot is written and
  the dirty flag and the lowest dirty index are as before. \<open>touched pos v s s'\<close>: the
  slot \<open>pos\<close> receives \<open>v\<close>, the cache is marked dirty, and the lowest dirty index is
  lowered to \<open>pos\<close> if it was higher.
\<close>

definition storesOnly :: "'c cache \<Rightarrow> 'c cache \<Rightarrow> bool" where
  "storesOnly s s' \<longleftrightarrow>
     m_states s' = m_states s \<and> m_isDirty s' = m_isDirty s
     \<and> m_stateDirtyLowestIndex s' = m_stateDirtyLowestIndex s"

definition touched :: "nat \<Rightarrow> jsnum \<Rightarrow> 'c cache \<Rightarrow> 'c cache \<Rightarrow> bool" where
  "touched pos v s s' \<longleftrightarrow>
     m_states s' = (m_states s)(pos := v) \<and> m_isDirty s'
     \<and> m_stateDirtyLowestIndex s' = min (m_stateDirtyLowestIndex s) pos"

text \<open>
  The six setters that are plain assignments, as one type of calls, so that a statement
  can range over all of them.
\<close>

datatype plain_setter =
    SetFrontFace int | SetCullFace int | SetCullEnabled bool | SetClampDepth bool
  | SetAlphaToCoverage bool | SetWriteMask int

fun applySetter :: "plain_setter \<Rightarrow> 'c cache \<Rightarrow> 'c cache" where
  "applySetter (SetFrontFace v) s = setFrontFace v s"
| "applySetter (SetCullFace v) s = setCullFace v s"
| "applySetter (SetCullEnabled b) s = setCullEnabled b s"
| "applySetter (SetClampDepth b) s = setClampDepth b s"
| "applySetter (SetAlphaToCoverage b) s = setAlphaToCoverage b s"
| "applySetter (SetWriteMask v) s = setWriteMask v s"

text \<open>
  Vocabulary for the vertex-input descriptor. \<open>attributesOf descs\<close> lists the attribute
  descriptors of all layout entries in order, and \<open>entryOf descs i\<close> is the position of
  the layout entry that holds the \<open>i\<close>-th of them. \<open>gpuBufferOf s name\<close> is the GPU buffer under the vertex
  buffer an attribute resolves to. \<open>offsetValid s name\<close>: the flag \<open>_validOffsetRange\<close> of
  that vertex buffer is set once \<open>_setVertexState\<close> has seen it, which for a vertex buffer
  seen for the first time is the test on offset, size and stride.
\<close>

definition attributesOf :: "vertex_buffer_layout list \<Rightarrow> vertex_attribute list" where
  "attributesOf descs = concat (map attributes descs)"

fun entryOf :: "vertex_buffer_layout list \<Rightarrow> nat \<Rightarrow> nat" where
  "entryOf [] i = 0"
| "entryOf (d # ds) i =
     (if i < length (attributes d) then 0 else Suc (entryOf ds (i - length (attributes d))))"

definition gpuBufferOf :: "'c cache \<Rightarrow> string \<Rightarrow> nat option" where
  "gpuBufferOf s name = underlyingResource (vbHeap s (refOf s name))"

definition offsetValid :: "'c cache \<Rightarrow> string \<Rightarrow> bool" where
  "offsetValid s name \<longleftrightarrow> memoOf s (refOf s name) = Some True"

text \<open>
  One round of the loop of \<open>_getVertexInputDescriptor\<close>, for an attribute that resolves to
  the vertex buffer \<open>r\<close>, in parts: the test for starting a new layout, the new layout,
  the attribute descriptor, and \<open>currentGPUBuffer\<close> after the round.
\<close>

definition startsEntry ::
  "'c cache \<Rightarrow> nat option \<Rightarrow> vertex_buffer_layout list \<Rightarrow> vbref \<Rightarrow> bool"
where
  "startsEntry c cur descs r \<longleftrightarrow>
     \<not> (cur \<noteq> None \<and> descs \<noteq> [] \<and> cur = underlyingResource (vbHeap c r))
     \<or> validOffsetRange (vbHeap c r) \<noteq> Some True"

definition layoutFor :: "'c cache \<Rightarrow> vbref \<Rightarrow> vertex_buffer_layout" where
  "layoutFor c r =
     \<lparr>arrayStride = effectiveByteStride (vbHeap c r),
      stepMode = (if getIsInstanced (vbHeap c r) then Instance else Vertex),
      attributes = []\<rparr>"

definition attributeFor ::
  "'c cache \<Rightarrow> int list \<Rightarrow> nat \<Rightarrow> vbref \<Rightarrow> vertex_format \<Rightarrow> vertex_attribute"
where
  "attributeFor c locs index r fmt =
     \<lparr>shaderLocation = attributeLocation locs index,
      offset = (if validOffsetRange (vbHeap c r) = Some True
                then effectiveByteOffset (vbHeap c r) else 0),
      format = fmt\<rparr>"

definition nextBuffer :: "'c cache \<Rightarrow> vbref \<Rightarrow> nat option" where
  "nextBuffer c r =
     (if validOffsetRange (vbHeap c r) = Some True then underlyingResource (vbHeap c r)
      else None)"

text \<open>Concrete caches for the examples.\<close>

text \<open>
  The new cache with vertex buffers bound to the attributes \<open>position\<close> and \<open>normal\<close>.
\<close>

definition boundCache :: "vbref \<Rightarrow> vbref \<Rightarrow> (jsnum list \<times> pipeline) list cache" where
  "boundCache p n =
     setBuffers (Some [''position'' \<mapsto> p, ''normal'' \<mapsto> n]) None None newCache"

text \<open>A depth-only format (no stencil aspect) with the stencil test enabled.\<close>

definition depthOnlyCache :: "(jsnum list \<times> pipeline) list cache" where
  "depthOnlyCache =
     setStencilEnabled True (setDepthStencilFormat exampleEnv (Some ''depth32float'') newCache)"

text \<open>
  Three calls in a row: a triangle-fan request on the new cache; a triangle-fill request
  with \<open>disabled\<close> set; a triangle-fan request with \<open>disabled\<close> cleared again.
\<close>

definition afterFanRequest :: "(jsnum list \<times> pipeline) list cache" where
  "afterFanRequest =
     snd (getRenderPipeline exampleEnv acceptingDevice Indexed 8 noAttributes 1 0 newCache)"

definition afterBypass :: "(jsnum list \<times> pipeline) list cache" where
  "afterBypass =
     snd (getRenderPipeline exampleEnv acceptingDevice Indexed 0 noAttributes 1 0
            (afterFanRequest\<lparr>disabled := True\<rparr>))"

definition secondFanRequest :: "(error + pipeline) \<times> (jsnum list \<times> pipeline) list cache" where
  "secondFanRequest =
     getRenderPipeline exampleEnv acceptingDevice Indexed 8 noAttributes 1 0
       (afterBypass\<lparr>disabled := False\<rparr>)"

text \<open>
  Blending enabled for the second target only, with the parameter arrays as \<open>reset\<close>
  leaves them (one target's worth): the equation codes of target 1 are read past the
  end of the array.
\<close>

definition shortBlendArrays :: "(jsnum list \<times> pipeline) list cache" where
  "shortBlendArrays = setAlphaBlendEnabled [False, True] 2 newCache"

definition afterShortBlend :: "(jsnum list \<times> pipeline) list cache" where
  "afterShortBlend =
     snd (getRenderPipeline exampleEnv acceptingDevice Indexed 0 noAttributes 1 0
            shortBlendArrays)"


text \<open>The new cache after one successful resolution.\<close>

definition resolvedCache :: "(jsnum list \<times> pipeline) list cache" where
  "resolvedCache =
     snd (getRenderPipeline exampleEnv acceptingDevice Indexed 0 noAttributes 1 0 newCache)"

text \<open>
  Two blend configurations for target 0 that differ in the source color factor only:
  \<open>SrcColor\<close> (0x0300) and \<open>OneMinusSrcColor\<close> (0x0301).
\<close>

definition blendSrcColor :: "(jsnum list \<times> pipeline) list cache" where
  "blendSrcColor =
     setAlphaBlendFactors [Some 0x0300, None, None, None] [None, None]
       (setAlphaBlendEnabled [True] 1 newCache)"

definition blendOneMinusSrcColor :: "(jsnum list \<times> pipeline) list cache" where
  "blendOneMinusSrcColor =
     setAlphaBlendFactors [Some 0x0301, None, None, None] [None, None]
       (setAlphaBlendEnabled [True] 1 newCache)"

text \<open>
  Two configurations with the write mask off that enable blending for one target each,
  with the same (default) parameters: target 0, and target 1.
\<close>

definition blendTarget0 :: "(jsnum list \<times> pipeline) list cache" where
  "blendTarget0 =
     setAlphaBlendFactors (replicate 8 None) (replicate 4 None)
       (setAlphaBlendEnabled [True, False] 2 (setWriteMask 0 newCache))"

definition blendTarget1 :: "(jsnum list \<times> pipeline) list cache" where
  "blendTarget1 =
     setAlphaBlendFactors (replicate 8 None) (replicate 4 None)
       (setAlphaBlendEnabled [False, True] 2 (setWriteMask 0 newCache))"

text \<open>
  The rasterization slot as the specification words it:
  \<open>frontFace + (cullMode<<1) + (clampDepth<<3) + (alphaToCoverage<<4) + (topology<<5)
  + (sampleCount<<8)\<close>.
\<close>

definition specRasterizationState :: "'c cache \<Rightarrow> int \<Rightarrow> int \<Rightarrow> jsnum" where
  "specRasterizationState s topology' sampleCount =
     (let frontFace' = m_frontFace s;
          cullMode' = (if m_cullEnabled s then m_cullFace s else 0);
          clampDepth = (if m_clampDepth s then 1 else 0);
          alphaToCoverage = (if m_alphaToCoverageEnabled s then 1 else 0)
      in js_add
           (js_add
              (js_add
                 (js_add
                    (js_add (Number frontFace') (js_shl (Number cullMode') 1))
                    (js_shl (Number clampDepth) 3))
                 (js_shl (Number alphaToCoverage) 4))
              (js_shl (Number topology') 5))
           (js_shl (Number sampleCount) 8))"

section \<open>Facts about the number operations\<close>

lemmas StatePosition_defs =
  StencilReadMask_def StencilWriteMask_def DepthBias_def DepthBiasSlopeScale_def
  DepthStencilState_def MRTAttachments_def RasterizationState_def ColorStates1_def
  ColorStates2_def ColorStates3_def ColorStates4_def ShaderStage_def TextureStage_def
  VertexState_def NumStates_def

lemma dbl_small: "\<bar>n\<bar> < 2 ^ 53 \<Longrightarrow> dbl n = n"
proof -
  assume a: "\<bar>n\<bar> < 2 ^ 53"
  have "bitlen \<bar>n\<bar> \<le> 53"
    using a by (simp add: bitlen_le_iff_power)
  then have e: "nat (bitlen \<bar>n\<bar> - 53) = 0" by simp
  show ?thesis unfolding dbl_def Let_def e by (simp add: mult_sgn_abs)
qed

lemma ToInt32_small: "- (2 ^ 31) \<le> n \<Longrightarrow> n < 2 ^ 31 \<Longrightarrow> ToInt32 n = n"
  unfolding ToInt32_def by (simp add: mod_pos_pos_trivial)

lemma js_shl_small:
  "0 \<le> n \<Longrightarrow> k < 32 \<Longrightarrow> n * 2 ^ k < 2 ^ 31 \<Longrightarrow> js_shl (Number n) k = Number (n * 2 ^ k)"
proof -
  assume a: "0 \<le> n" "k < 32" "n * 2 ^ k < 2 ^ 31"
  have "n \<le> n * 2 ^ k" using a(1) by (simp add: mult_le_cancel_left1)
  then have "n < 2 ^ 31" using a(3) by linarith
  then have n: "ToInt32 n = n" using a(1) by (simp add: ToInt32_small)
  have "0 \<le> n * 2 ^ k" using a(1) by simp
  then have "ToInt32 (n * 2 ^ k) = n * 2 ^ k"
    using a(3) by (intro ToInt32_small) simp_all
  with n show ?thesis using a(2) by (simp add: js_shl_def)
qed

section \<open>Facts about the packing steps and the resolver\<close>

lemma blendTargetBits_states [simp]:
  "blendTargetBits (s\<lparr>m_states := f\<rparr>) i = blendTargetBits s i"
  by (simp add: blendTargetBits_def)

lemma blendEnabled_states [simp]:
  "blendEnabled (s\<lparr>m_states := f\<rparr>) i = blendEnabled s i"
  by (simp add: blendEnabled_def)

lemma addTarget_states [simp]:
  "addTarget (s\<lparr>m_states := f\<rparr>) i c = addTarget s i c"
  by (simp add: addTarget_def)

lemma step_even:
  "even i \<Longrightarrow> k < length cs \<Longrightarrow>
   setColorStates_step (cs, k, d, s) i = (cs[k := addTarget s i (cs ! k)], k, d, s)"
  by (simp add: setColorStates_step_def addTarget_def blendEnabled_def Let_def)

lemma step_odd:
  "odd i \<Longrightarrow> k < length cs \<Longrightarrow>
   setColorStates_step (cs, k, d, s) i =
     (cs[k := addTarget s i (cs ! k)], k + 1,
      d \<or> strict_neq (m_states s (ColorStates1 + k)) (addTarget s i (cs ! k)),
      s\<lparr>m_states := (m_states s)(ColorStates1 + k := addTarget s i (cs ! k))\<rparr>)"
  by (simp add: setColorStates_step_def addTarget_def blendEnabled_def Let_def)

lemma setColorStates_loop_eq:
  "foldl setColorStates_step ([a, b, c, e], 0, False, s) [0, 1, 2, 3, 4, 5, 6, 7] =
     ([addTarget s 1 (addTarget s 0 a), addTarget s 3 (addTarget s 2 b),
       addTarget s 5 (addTarget s 4 c), addTarget s 7 (addTarget s 6 e)], 4,
      (strict_neq (m_states s 7) (addTarget s 1 (addTarget s 0 a))
       \<or> strict_neq (m_states s 8) (addTarget s 3 (addTarget s 2 b))
       \<or> strict_neq (m_states s 9) (addTarget s 5 (addTarget s 4 c))
       \<or> strict_neq (m_states s 10) (addTarget s 7 (addTarget s 6 e))),
      s\<lparr>m_states := (m_states s)
           (7 := addTarget s 1 (addTarget s 0 a), 8 := addTarget s 3 (addTarget s 2 b),
            9 := addTarget s 5 (addTarget s 4 c), 10 := addTarget s 7 (addTarget s 6 e))\<rparr>)"
  by (simp add: step_even step_odd ColorStates1_def)

lemma m_setColorStates_eq:
  "m_setColorStates s =
     (let st = (m_states s)(7 := colorStateOf s 0, 8 := colorStateOf s 1,
                            9 := colorStateOf s 2, 10 := colorStateOf s 3);
          dirty = (strict_neq (m_states s 7) (colorStateOf s 0)
                   \<or> strict_neq (m_states s 8) (colorStateOf s 1)
                   \<or> strict_neq (m_states s 9) (colorStateOf s 2)
                   \<or> strict_neq (m_states s 10) (colorStateOf s 3))
      in if dirty then
           s\<lparr>m_states := st, m_isDirty := True,
             m_stateDirtyLowestIndex := min (m_stateDirtyLowestIndex s) ColorStates1\<rparr>
         else s\<lparr>m_states := st\<rparr>)"
  unfolding m_setColorStates_def Let_def setColorStates_loop_eq
  by (simp add: colorStateOf_def colorStateInit_def)

lemma getRenderPipeline_enabled:
  "\<not> disabled s \<Longrightarrow>
   getRenderPipeline E dev strat fillMode eff sampleCount' textureState s =
     (case prepare E fillMode eff sampleCount' textureState s of
        (Some e, s1) \<Rightarrow> (Inl e, s1)
      | (None, s3) \<Rightarrow>
          if \<not> m_isDirty s3 \<and> m_parameter_pipeline s3 \<noteq> None then
            (Inr (the (m_parameter_pipeline s3)),
             s3\<lparr>m_stateDirtyLowestIndex := m_statesLength s3,
                NumCacheHitWithoutHash := NumCacheHitWithoutHash s3 + 1\<rparr>)
          else slowPath E dev strat fillMode eff sampleCount' s3)"
proof -
  assume en: "\<not> disabled s"
  obtain r s1 where vs: "m_setVertexState eff
             (m_setDepthStencilState
                (m_setColorStates
                   (m_setRasterizationState fillMode (GetSample E sampleCount')
                      (m_setShaderStage (uniqueId eff) s)))) = (r, s1)"
    by (cases "m_setVertexState eff
             (m_setDepthStencilState
                (m_setColorStates
                   (m_setRasterizationState fillMode (GetSample E sampleCount')
                      (m_setShaderStage (uniqueId eff) s))))") auto
  show ?thesis
  proof (cases r)
    case (Some e)
    then show ?thesis using en vs by (simp add: getRenderPipeline_def prepare_def)
  next
    case None
    obtain st found where lk: "lookupRP strat (store s1) (stateVector (m_setTextureState textureState s1))
        (m_stateDirtyLowestIndex (m_setTextureState textureState s1)) = (st, found)"
      by (cases "lookupRP strat (store s1) (stateVector (m_setTextureState textureState s1))
        (m_stateDirtyLowestIndex (m_setTextureState textureState s1))") auto
    have st: "store (m_setTextureState textureState s1) = store s1"
      by (simp add: m_setTextureState_def)
    show ?thesis using en vs None lk st
      by (simp add: getRenderPipeline_def prepare_def slowPath_def lookedUp_def Let_def stateVector_def
          cong: option.case_cong sum.case_cong prod.case_cong)
  qed
qed

lemma getRenderPipeline_disabled:
  "disabled s \<Longrightarrow>
   getRenderPipeline E dev strat fillMode eff sampleCount' textureState s =
     (case m_GetTopology E fillMode of
        Inl e \<Rightarrow> (Inl e, s)
      | Inr topology' \<Rightarrow>
          (case m_setVertexState eff s of
             (Some e, s1) \<Rightarrow> (Inl e, s1)
           | (None, s1) \<Rightarrow>
               (case m_createRenderPipeline E dev eff topology' (GetSample E sampleCount')
                       (m_setTextureState textureState s1) of
                  (Inl e, s2) \<Rightarrow> (Inl e, s2)
                | (Inr p, s2) \<Rightarrow>
                    (Inr p,
                     s2\<lparr>m_parameter_pipeline := Some p,
                        NumCacheMiss := NumCacheMiss s2 + 1,
                        m_NumPipelineCreationCurrentFrame :=
                          m_NumPipelineCreationCurrentFrame s2 + 1\<rparr>))))"
  by (simp add: getRenderPipeline_def Let_def)

lemma recomputes_refl: "recomputes s s"
  by (simp add: recomputes_def)

lemma recomputes_trans: "recomputes a b \<Longrightarrow> recomputes b c \<Longrightarrow> recomputes a c"
proof -
  assume ab: "recomputes a b" and bc: "recomputes b c"
  have "c = b\<lparr>m_states := m_states c, m_statesLength := m_statesLength c,
            m_stateDirtyLowestIndex := m_stateDirtyLowestIndex c,
            lastStateDirtyLowestIndex := lastStateDirtyLowestIndex c,
            m_isDirty := m_isDirty c,
            m_shaderId := m_shaderId c, m_rasterizationState := m_rasterizationState c,
            m_depthStencilState := m_depthStencilState c, m_textureState := m_textureState c,
            vertexBuffers := vertexBuffers c, vbHeap := vbHeap c\<rparr>"
    using bc by (simp only: recomputes_def)
  also have "b = a\<lparr>m_states := m_states b, m_statesLength := m_statesLength b,
            m_stateDirtyLowestIndex := m_stateDirtyLowestIndex b,
            lastStateDirtyLowestIndex := lastStateDirtyLowestIndex b,
            m_isDirty := m_isDirty b,
            m_shaderId := m_shaderId b, m_rasterizationState := m_rasterizationState b,
            m_depthStencilState := m_depthStencilState b, m_textureState := m_textureState b,
            vertexBuffers := vertexBuffers b, vbHeap := vbHeap b\<rparr>"
    using ab by (simp only: recomputes_def)
  finally show ?thesis
    by (simp add: recomputes_def)
qed

lemma recomputes_fields:
  assumes "recomputes s s'"
  shows "store s' = store s" and "deviceCalls s' = deviceCalls s"
    and "NumCacheHitWithoutHash s' = NumCacheHitWithoutHash s"
    and "NumCacheHitWithHash s' = NumCacheHitWithHash s"
    and "NumCacheMiss s' = NumCacheMiss s"
    and "NumPipelineCreationLastFrame s' = NumPipelineCreationLastFrame s"
    and "m_NumPipelineCreationCurrentFrame s' = m_NumPipelineCreationCurrentFrame s"
    and "disabled s' = disabled s"
    and "m_parameter_pipeline s' = m_parameter_pipeline s"
    and "m_kMaxVertexBufferStride s' = m_kMaxVertexBufferStride s"
    and "m_emptyVertexBuffer s' = m_emptyVertexBuffer s"
    and "m_vertexBuffers s' = m_vertexBuffers s"
    and "m_overrideVertexBuffers s' = m_overrideVertexBuffers s"
    and "m_stencilEnabled s' = m_stencilEnabled s"
    and "m_webgpuDepthStencilFormat s' = m_webgpuDepthStencilFormat s"
    and "m_frontFace s' = m_frontFace s"
    and "m_cullEnabled s' = m_cullEnabled s"
    and "m_cullFace s' = m_cullFace s"
    and "m_clampDepth s' = m_clampDepth s"
    and "m_alphaToCoverageEnabled s' = m_alphaToCoverageEnabled s"
    and "indexBuffer s' = indexBuffer s"
proof -
  have eq: "s' = s\<lparr>m_states := m_states s', m_statesLength := m_statesLength s',
            m_stateDirtyLowestIndex := m_stateDirtyLowestIndex s',
            lastStateDirtyLowestIndex := lastStateDirtyLowestIndex s',
            m_isDirty := m_isDirty s',
            m_shaderId := m_shaderId s', m_rasterizationState := m_rasterizationState s',
            m_depthStencilState := m_depthStencilState s', m_textureState := m_textureState s',
            vertexBuffers := vertexBuffers s', vbHeap := vbHeap s'\<rparr>"
    using assms by (simp only: recomputes_def)
  show "store s' = store s" by (subst eq) simp
  show "deviceCalls s' = deviceCalls s" by (subst eq) simp
  show "NumCacheHitWithoutHash s' = NumCacheHitWithoutHash s" by (subst eq) simp
  show "NumCacheHitWithHash s' = NumCacheHitWithHash s" by (subst eq) simp
  show "NumCacheMiss s' = NumCacheMiss s" by (subst eq) simp
  show "NumPipelineCreationLastFrame s' = NumPipelineCreationLastFrame s" by (subst eq) simp
  show "m_NumPipelineCreationCurrentFrame s' = m_NumPipelineCreationCurrentFrame s" by (subst eq) simp
  show "disabled s' = disabled s" by (subst eq) simp
  show "m_parameter_pipeline s' = m_parameter_pipeline s" by (subst eq) simp
  show "m_kMaxVertexBufferStride s' = m_kMaxVertexBufferStride s" by (subst eq) simp
  show "m_emptyVertexBuffer s' = m_emptyVertexBuffer s" by (subst eq) simp
  show "m_vertexBuffers s' = m_vertexBuffers s" by (subst eq) simp
  show "m_overrideVertexBuffers s' = m_overrideVertexBuffers s" by (subst eq) simp
  show "m_stencilEnabled s' = m_stencilEnabled s" by (subst eq) simp
  show "m_webgpuDepthStencilFormat s' = m_webgpuDepthStencilFormat s" by (subst eq) simp
  show "m_frontFace s' = m_frontFace s" by (subst eq) simp
  show "m_cullEnabled s' = m_cullEnabled s" by (subst eq) simp
  show "m_cullFace s' = m_cullFace s" by (subst eq) simp
  show "m_clampDepth s' = m_clampDepth s" by (subst eq) simp
  show "m_alphaToCoverageEnabled s' = m_alphaToCoverageEnabled s" by (subst eq) simp
  show "indexBuffer s' = indexBuffer s" by (subst eq) simp
qed

lemma recomputes_functions:
  assumes "recomputes s s'"
  shows "rasterizationStateOf s' t c = rasterizationStateOf s t c"
    and "depthStencilStateOf s' = depthStencilStateOf s"
    and "colorStateOf s' k = colorStateOf s k"
    and "resolveVertexBuffer s' a = resolveVertexBuffer s a"
    and "colorStatesOf s' = colorStatesOf s"
proof -
  have eq: "s' = s\<lparr>m_states := m_states s', m_statesLength := m_statesLength s',
            m_stateDirtyLowestIndex := m_stateDirtyLowestIndex s',
            lastStateDirtyLowestIndex := lastStateDirtyLowestIndex s',
            m_isDirty := m_isDirty s',
            m_shaderId := m_shaderId s', m_rasterizationState := m_rasterizationState s',
            m_depthStencilState := m_depthStencilState s', m_textureState := m_textureState s',
            vertexBuffers := vertexBuffers s', vbHeap := vbHeap s'\<rparr>"
    using assms by (simp only: recomputes_def)
  show "rasterizationStateOf s' t c = rasterizationStateOf s t c"
    by (subst eq) (simp add: rasterizationStateOf_def)
  show "depthStencilStateOf s' = depthStencilStateOf s"
    by (subst eq) (simp add: depthStencilStateOf_def)
  show "colorStateOf s' k = colorStateOf s k"
    by (subst eq)
      (simp add: colorStateOf_def addTarget_def blendEnabled_def blendTargetBits_def
        colorStateInit_def)
  show "resolveVertexBuffer s' a = resolveVertexBuffer s a"
    by (subst eq) (simp add: resolveVertexBuffer_def cong: option.case_cong)
  show "colorStatesOf s' = colorStatesOf s"
    by (subst eq)
      (simp add: colorStatesOf_def colorTarget_def m_getAphaBlendState_def
        m_getColorBlendState_def cong: if_cong option.case_cong jsnum.case_cong)
qed

lemma vertexFrame_refl: "vertexFrame s s"
  by (simp add: vertexFrame_def)

lemma vertexFrame_trans: "vertexFrame a b \<Longrightarrow> vertexFrame b c \<Longrightarrow> vertexFrame a c"
proof -
  assume ab: "vertexFrame a b" and bc: "vertexFrame b c"
  have "c = b\<lparr>m_states := m_states c, m_statesLength := m_statesLength c,
            m_stateDirtyLowestIndex := m_stateDirtyLowestIndex c,
            m_isDirty := m_isDirty c,
            vertexBuffers := vertexBuffers c, vbHeap := vbHeap c\<rparr>"
    using bc by (simp only: vertexFrame_def)
  also have "b = a\<lparr>m_states := m_states b, m_statesLength := m_statesLength b,
            m_stateDirtyLowestIndex := m_stateDirtyLowestIndex b,
            m_isDirty := m_isDirty b,
            vertexBuffers := vertexBuffers b, vbHeap := vbHeap b\<rparr>"
    using ab by (simp only: vertexFrame_def)
  finally show ?thesis
    by (simp add: vertexFrame_def)
qed

lemma vertexFrame_fields:
  assumes "vertexFrame s s'"
  shows "m_shaderId s' = m_shaderId s"
    and "m_rasterizationState s' = m_rasterizationState s"
    and "m_depthStencilState s' = m_depthStencilState s"
    and "m_textureState s' = m_textureState s"
    and "lastStateDirtyLowestIndex s' = lastStateDirtyLowestIndex s"
proof -
  have eq: "s' = s\<lparr>m_states := m_states s', m_statesLength := m_statesLength s',
            m_stateDirtyLowestIndex := m_stateDirtyLowestIndex s',
            m_isDirty := m_isDirty s',
            vertexBuffers := vertexBuffers s', vbHeap := vbHeap s'\<rparr>"
    using assms by (simp only: vertexFrame_def)
  show "m_shaderId s' = m_shaderId s" by (subst eq) simp
  show "m_rasterizationState s' = m_rasterizationState s" by (subst eq) simp
  show "m_depthStencilState s' = m_depthStencilState s" by (subst eq) simp
  show "m_textureState s' = m_textureState s" by (subst eq) simp
  show "lastStateDirtyLowestIndex s' = lastStateDirtyLowestIndex s" by (subst eq) simp
qed

lemma vertexFrame_recomputes: "vertexFrame s s' \<Longrightarrow> recomputes s s'"
proof -
  assume a: "vertexFrame s s'"
  have eq: "s' = s\<lparr>m_states := m_states s', m_statesLength := m_statesLength s',
            m_stateDirtyLowestIndex := m_stateDirtyLowestIndex s',
            m_isDirty := m_isDirty s',
            vertexBuffers := vertexBuffers s', vbHeap := vbHeap s'\<rparr>"
    using a by (simp only: vertexFrame_def)
  show ?thesis unfolding recomputes_def by (subst eq) (simp add: vertexFrame_fields[OF a])
qed

lemma heapFrame_refl: "heapFrame s s"
  by (simp add: heapFrame_def)

lemma heapFrame_trans: "heapFrame a b \<Longrightarrow> heapFrame b c \<Longrightarrow> heapFrame a c"
  unfolding heapFrame_def
proof
  fix r
  assume ab: "\<forall>r. vbHeap b r = (vbHeap a r)\<lparr>validOffsetRange := validOffsetRange (vbHeap b r)\<rparr>"
    and bc: "\<forall>r. vbHeap c r = (vbHeap b r)\<lparr>validOffsetRange := validOffsetRange (vbHeap c r)\<rparr>"
  have "vbHeap c r = (vbHeap b r)\<lparr>validOffsetRange := validOffsetRange (vbHeap c r)\<rparr>"
    using bc by blast
  also have "vbHeap b r = (vbHeap a r)\<lparr>validOffsetRange := validOffsetRange (vbHeap b r)\<rparr>"
    using ab by blast
  finally show "vbHeap c r = (vbHeap a r)\<lparr>validOffsetRange := validOffsetRange (vbHeap c r)\<rparr>"
    by simp
qed

lemma heapFrame_fields:
  assumes "heapFrame s s'"
  shows "hashCode (vbHeap s' r) = hashCode (vbHeap s r)"
    and "underlyingResource (vbHeap s' r) = underlyingResource (vbHeap s r)"
    and "effectiveByteOffset (vbHeap s' r) = effectiveByteOffset (vbHeap s r)"
    and "effectiveByteStride (vbHeap s' r) = effectiveByteStride (vbHeap s r)"
    and "getIsInstanced (vbHeap s' r) = getIsInstanced (vbHeap s r)"
    and "m_GetVertexInputDescriptorFormat (vbHeap s' r) = m_GetVertexInputDescriptorFormat (vbHeap s r)"
    and "validOffsetRangeOf k (vbHeap s' r) = validOffsetRangeOf k (vbHeap s r)"
proof -
  have eq: "vbHeap s' r = (vbHeap s r)\<lparr>validOffsetRange := validOffsetRange (vbHeap s' r)\<rparr>"
    using assms by (simp add: heapFrame_def)
  show "hashCode (vbHeap s' r) = hashCode (vbHeap s r)" by (subst eq) simp
  show "underlyingResource (vbHeap s' r) = underlyingResource (vbHeap s r)" by (subst eq) simp
  show "effectiveByteOffset (vbHeap s' r) = effectiveByteOffset (vbHeap s r)" by (subst eq) simp
  show "effectiveByteStride (vbHeap s' r) = effectiveByteStride (vbHeap s r)" by (subst eq) simp
  show "getIsInstanced (vbHeap s' r) = getIsInstanced (vbHeap s r)" by (subst eq) simp
  show "m_GetVertexInputDescriptorFormat (vbHeap s' r) = m_GetVertexInputDescriptorFormat (vbHeap s r)"
    by (subst eq) (simp add: m_GetVertexInputDescriptorFormat_def)
  show "validOffsetRangeOf k (vbHeap s' r) = validOffsetRangeOf k (vbHeap s r)"
    by (subst eq) (simp add: validOffsetRangeOf_def)
qed

lemma vidAt_frame: "heapFrame s s' \<Longrightarrow> vidAt s' locs i r = vidAt s locs i r"
  by (simp add: vidAt_def heapFrame_fields)

lemma refOf_frame: "recomputes s s' \<Longrightarrow> refOf s' a = refOf s a"
  by (simp add: refOf_def recomputes_functions)

lemma vidAt_Number: "\<exists>n. vidAt s locs i r = Number n"
  by (simp add: vidAt_def js_shl_def)

lemma setVertexState_loop_Cons:
  "resolveVertexBuffer s a = Inr r \<Longrightarrow>
   setVertexState_loop locs (a # names) index (cur, num, nn) s =
     setVertexState_loop locs names (index + 1) (stepCarry s cur num nn r)
       (stepState s locs index cur num nn r)"
  by (simp add: Let_def stepCarry_def stepState_def canCombine_def withMemo_def vidAt_def)

lemma stepCarry_ex: "\<exists>cur' num'. stepCarry s cur num nn r = (cur', num', nn + 1)"
  by (simp add: stepCarry_def)

lemma stepState_frame:
  "vertexFrame s (stepState s locs index cur num nn r)"
  "heapFrame s (stepState s locs index cur num nn r)"
  by (simp_all add: vertexFrame_def heapFrame_def stepState_def withMemo_def Let_def)

lemma stepState_slots:
  "m_states (stepState s locs index cur num nn r) = (m_states s)(nn := vidAt s locs index r)"
  by (simp add: stepState_def withMemo_def Let_def)

lemma stepState_dirty:
  "m_isDirty (stepState s locs index cur num nn r) =
     (m_isDirty s \<or> strict_neq (m_states s nn) (vidAt s locs index r))"
  by (simp add: stepState_def withMemo_def Let_def)

lemma setVertexState_loop_frame:
  "setVertexState_loop locs names index carry s = (res, out, s1)
     \<Longrightarrow> vertexFrame s s1 \<and> heapFrame s s1"
proof (induction names arbitrary: index carry s)
  case Nil
  then show ?case by (cases carry) (auto simp add: vertexFrame_refl heapFrame_refl)
next
  case (Cons a names)
  obtain cur num nn where carry: "carry = (cur, num, nn)" by (cases carry) auto
  show ?case
  proof (cases "resolveVertexBuffer s a")
    case (Inl e)
    with Cons.prems carry show ?thesis by (simp add: vertexFrame_refl heapFrame_refl)
  next
    case (Inr r)
    from Cons.prems have step: "setVertexState_loop locs names (index + 1) (stepCarry s cur num nn r)
       (stepState s locs index cur num nn r) = (res, out, s1)"
      unfolding carry setVertexState_loop_Cons[OF Inr] .
    from Cons.IH[OF step] stepState_frame[of s locs index cur num nn r] show ?thesis
      using vertexFrame_trans heapFrame_trans by blast
  qed
qed

lemma setVertexState_loop_error:
  "setVertexState_loop locs names index carry s = (Some e, out, s1) \<Longrightarrow> e = TypeError"
proof (induction names arbitrary: index carry s)
  case Nil
  then show ?case by (cases carry) auto
next
  case (Cons a names)
  obtain cur num nn where carry: "carry = (cur, num, nn)" by (cases carry) auto
  show ?case
  proof (cases "resolveVertexBuffer s a")
    case (Inl e')
    then have "e' = TypeError"
      by (auto simp add: resolveVertexBuffer_def split: option.splits)
    with Inl Cons.prems carry show ?thesis by simp
  next
    case (Inr r)
    from Cons.prems have step: "setVertexState_loop locs names (index + 1) (stepCarry s cur num nn r)
       (stepState s locs index cur num nn r) = (Some e, out, s1)"
      unfolding carry setVertexState_loop_Cons[OF Inr] .
    from Cons.IH[OF step] show ?thesis .
  qed
qed

text \<open>slots written by a successful run\<close>

lemma setVertexState_loop_slots:
  "setVertexState_loop locs names index (cur, num, nn) s = (None, (num1, nn1), s1) \<Longrightarrow>
   nn1 = nn + length names
   \<and> (\<forall>k < nn. m_states s1 k = m_states s k)
   \<and> (\<forall>j < length names. m_states s1 (nn + j) = vidAt s locs (index + j) (refOf s (names ! j)))"
proof (induction names arbitrary: index cur num nn s)
  case Nil
  then show ?case by simp
next
  case (Cons a names)
  show ?case
  proof (cases "resolveVertexBuffer s a")
    case (Inl e)
    with Cons.prems show ?thesis by simp
  next
    case (Inr r)
    let ?s = "stepState s locs index cur num nn r"
    obtain cur' num' where c: "stepCarry s cur num nn r = (cur', num', nn + 1)"
      using stepCarry_ex by blast
    from Cons.prems have step: "setVertexState_loop locs names (index + 1) (cur', num', nn + 1) ?s
         = (None, (num1, nn1), s1)"
      unfolding setVertexState_loop_Cons[OF Inr] c .
    note IH = Cons.IH[OF step]
    have fr: "recomputes s ?s" "heapFrame s ?s"
      using stepState_frame[of s locs index cur num nn r] vertexFrame_recomputes by blast+
    have r: "refOf s a = r" using Inr by (simp add: refOf_def)
    have 1: "nn1 = nn + length (a # names)" using IH by simp
    have 2: "\<forall>k < nn. m_states s1 k = m_states s k"
      using IH by (auto simp add: stepState_slots)
    have 3: "\<forall>j < length (a # names).
               m_states s1 (nn + j) = vidAt s locs (index + j) (refOf s ((a # names) ! j))"
    proof (intro allI impI)
      fix j assume j: "j < length (a # names)"
      show "m_states s1 (nn + j) = vidAt s locs (index + j) (refOf s ((a # names) ! j))"
      proof (cases j)
        case 0
        have "m_states s1 nn = m_states ?s nn" using IH by simp
        then show ?thesis using 0 r by (simp add: stepState_slots)
      next
        case (Suc j')
        then have "j' < length names" using j by simp
        then have "m_states s1 (nn + 1 + j') = vidAt ?s locs (index + 1 + j') (refOf ?s (names ! j'))"
          using IH by blast
        then show ?thesis using Suc
          by (simp add: vidAt_frame[OF fr(2)] refOf_frame[OF fr(1)])
      qed
    qed
    from 1 2 3 show ?thesis by blast
  qed
qed

text \<open>a run over slots that already hold the values changes neither slots nor dirtiness\<close>

lemma setVertexState_loop_stable:
  "(\<forall>a \<in> set names. \<exists>r. resolveVertexBuffer s a = Inr r) \<Longrightarrow>
   (\<forall>j < length names. m_states s (nn + j) = vidAt s locs (index + j) (refOf s (names ! j))) \<Longrightarrow>
   \<exists>num1 s1. setVertexState_loop locs names index (cur, num, nn) s
                = (None, (num1, nn + length names), s1)
     \<and> m_states s1 = m_states s \<and> m_isDirty s1 = m_isDirty s"
proof (induction names arbitrary: index cur num nn s)
  case Nil
  then show ?case by simp
next
  case (Cons a names)
  from Cons.prems(1) obtain r where Inr: "resolveVertexBuffer s a = Inr r" by auto
  let ?s = "stepState s locs index cur num nn r"
  obtain cur' num' where c: "stepCarry s cur num nn r = (cur', num', nn + 1)"
    using stepCarry_ex by blast
  have fr: "recomputes s ?s" "heapFrame s ?s"
    using stepState_frame[of s locs index cur num nn r] vertexFrame_recomputes by blast+
  have r: "refOf s a = r" using Inr by (simp add: refOf_def)
  have slot0: "m_states s nn = vidAt s locs index r"
    using Cons.prems(2) r by force
  have st: "m_states ?s = m_states s"
    by (simp add: stepState_slots slot0[symmetric])
  obtain n where n: "vidAt s locs index r = Number n" using vidAt_Number by blast
  have dr: "m_isDirty ?s = m_isDirty s"
    by (simp add: stepState_dirty slot0 n strict_neq_def)
  have p1: "\<forall>a \<in> set names. \<exists>r. resolveVertexBuffer ?s a = Inr r"
    using Cons.prems(1) by (simp add: recomputes_functions[OF fr(1)])
  have p2: "\<forall>j < length names. m_states ?s (nn + 1 + j) = vidAt ?s locs (index + 1 + j) (refOf ?s (names ! j))"
  proof (intro allI impI)
    fix j assume "j < length names"
    then have "m_states s (nn + Suc j) = vidAt s locs (index + Suc j) (refOf s ((a # names) ! Suc j))"
      using Cons.prems(2) by (metis Suc_less_eq length_Cons)
    then show "m_states ?s (nn + 1 + j) = vidAt ?s locs (index + 1 + j) (refOf ?s (names ! j))"
      by (simp add: st vidAt_frame[OF fr(2)] refOf_frame[OF fr(1)])
  qed
  from Cons.IH[OF p1 p2, of cur' num'] obtain num1 s1 where
    run: "setVertexState_loop locs names (index + 1) (cur', num', nn + 1) ?s
            = (None, (num1, nn + 1 + length names), s1)"
    and res: "m_states s1 = m_states ?s" "m_isDirty s1 = m_isDirty ?s"
    by blast
  have "setVertexState_loop locs (a # names) index (cur, num, nn) s
          = (None, (num1, nn + length (a # names)), s1)"
    unfolding setVertexState_loop_Cons[OF Inr] c using run by simp
  then show ?case using res st dr by auto
qed

lemma m_setVertexState_frame:
  "m_setVertexState eff s = (res, s1) \<Longrightarrow> vertexFrame s s1 \<and> heapFrame s s1"
proof -
  assume a: "m_setVertexState eff s = (res, s1)"
  obtain r out t where l: "setVertexState_loop (attributeLocationsFromEffect eff)
                (attributeNamesFromEffect eff) 0 (None, 0, VertexState) s = (r, out, t)"
    by (metis prod_cases3)
  from setVertexState_loop_frame[OF l] have f: "vertexFrame s t" "heapFrame s t" by auto
  have "vertexFrame t s1 \<and> heapFrame t s1"
    using a l
    by (cases r; cases out)
       (auto simp add: m_setVertexState_def Let_def vertexFrame_def heapFrame_def split: if_splits)
  with f show ?thesis using vertexFrame_trans heapFrame_trans by blast
qed

lemma m_setVertexState_error:
  "m_setVertexState eff s = (Some e, s1) \<Longrightarrow> e = TypeError"
proof -
  assume a: "m_setVertexState eff s = (Some e, s1)"
  obtain r out t where l: "setVertexState_loop (attributeLocationsFromEffect eff)
                (attributeNamesFromEffect eff) 0 (None, 0, VertexState) s = (r, out, t)"
    by (metis prod_cases3)
  show ?thesis
  proof (cases r)
    case None
    with a l show ?thesis
      by (cases out) (auto simp add: m_setVertexState_def Let_def split: if_splits)
  next
    case (Some e')
    with a l have "e' = e" by (simp add: m_setVertexState_def)
    with Some l show ?thesis using setVertexState_loop_error by blast
  qed
qed

lemma m_setVertexState_slots:
  assumes "m_setVertexState eff s = (None, s1)"
  shows "m_statesLength s1 = VertexState + length (attributeNamesFromEffect eff)"
    and "\<forall>k < VertexState. m_states s1 k = m_states s k"
    and "\<forall>j < length (attributeNamesFromEffect eff).
           m_states s1 (VertexState + j) =
             vidAt s (attributeLocationsFromEffect eff) j (refOf s (attributeNamesFromEffect eff ! j))"
proof -
  obtain r num1 nn1 t where l: "setVertexState_loop (attributeLocationsFromEffect eff)
                (attributeNamesFromEffect eff) 0 (None, 0, VertexState) s = (r, (num1, nn1), t)"
    by (cases "setVertexState_loop (attributeLocationsFromEffect eff)
                (attributeNamesFromEffect eff) 0 (None, 0, VertexState) s") auto
  have r: "r = None" using assms l by (cases r) (simp_all add: m_setVertexState_def)
  note L = setVertexState_loop_slots[OF l[unfolded r]]
  have st: "m_states s1 = m_states t" "m_statesLength s1 = nn1"
    using assms l r by (auto simp add: m_setVertexState_def Let_def split: if_splits)
  show "m_statesLength s1 = VertexState + length (attributeNamesFromEffect eff)"
    using L st by simp
  show "\<forall>k < VertexState. m_states s1 k = m_states s k" using L st by simp
  show "\<forall>j < length (attributeNamesFromEffect eff).
           m_states s1 (VertexState + j) =
             vidAt s (attributeLocationsFromEffect eff) j (refOf s (attributeNamesFromEffect eff ! j))"
    using L st by simp
qed

lemma m_setVertexState_stable:
  assumes "\<forall>a \<in> set (attributeNamesFromEffect eff). \<exists>r. resolveVertexBuffer s a = Inr r"
    and "\<forall>j < length (attributeNamesFromEffect eff).
           m_states s (VertexState + j) =
             vidAt s (attributeLocationsFromEffect eff) j (refOf s (attributeNamesFromEffect eff ! j))"
    and "m_statesLength s = VertexState + length (attributeNamesFromEffect eff)"
  shows "\<exists>s1. m_setVertexState eff s = (None, s1) \<and> m_states s1 = m_states s
           \<and> m_isDirty s1 = m_isDirty s \<and> m_statesLength s1 = m_statesLength s"
proof -
  have "\<exists>num1 t. setVertexState_loop (attributeLocationsFromEffect eff)
                (attributeNamesFromEffect eff) 0 (None, 0, VertexState) s
                  = (None, (num1, VertexState + length (attributeNamesFromEffect eff)), t)
           \<and> m_states t = m_states s \<and> m_isDirty t = m_isDirty s"
    by (rule setVertexState_loop_stable) (use assms in simp_all)
  then obtain num1 t where l: "setVertexState_loop (attributeLocationsFromEffect eff)
                (attributeNamesFromEffect eff) 0 (None, 0, VertexState) s
                  = (None, (num1, VertexState + length (attributeNamesFromEffect eff)), t)"
    and t: "m_states t = m_states s" "m_isDirty t = m_isDirty s"
    by auto
  show ?thesis
    using l t assms(3)
    by (auto simp add: m_setVertexState_def Let_def)
qed

lemma recomputes_setShaderStage: "recomputes s (m_setShaderStage i s)"
  by (simp add: recomputes_def m_setShaderStage_def)

lemma recomputes_setRasterizationState: "recomputes s (m_setRasterizationState t c s)"
  by (simp add: recomputes_def m_setRasterizationState_def Let_def)

lemma recomputes_setColorStates: "recomputes s (m_setColorStates s)"
  by (simp add: recomputes_def m_setColorStates_eq Let_def)

lemma recomputes_setDepthStencilState: "recomputes s (m_setDepthStencilState s)"
  by (simp add: recomputes_def m_setDepthStencilState_def Let_def)

lemma recomputes_setTextureState: "recomputes s (m_setTextureState t s)"
  by (simp add: recomputes_def m_setTextureState_def)

lemma vbHeap_steps:
  "vbHeap (m_setShaderStage i s) = vbHeap s"
  "vbHeap (m_setRasterizationState t c s) = vbHeap s"
  "vbHeap (m_setColorStates s) = vbHeap s"
  "vbHeap (m_setDepthStencilState s) = vbHeap s"
  "vbHeap (m_setTextureState ts s) = vbHeap s"
  by (simp_all add: m_setShaderStage_def m_setRasterizationState_def m_setColorStates_eq
      m_setDepthStencilState_def m_setTextureState_def Let_def)

lemma packing_frame:
  "recomputes s (m_setDepthStencilState (m_setColorStates (m_setRasterizationState t c (m_setShaderStage i s))))"
  "vbHeap (m_setDepthStencilState (m_setColorStates (m_setRasterizationState t c (m_setShaderStage i s)))) = vbHeap s"
proof -
  show "recomputes s (m_setDepthStencilState (m_setColorStates (m_setRasterizationState t c (m_setShaderStage i s))))"
    by (meson recomputes_trans recomputes_setShaderStage recomputes_setRasterizationState
        recomputes_setColorStates recomputes_setDepthStencilState)
  show "vbHeap (m_setDepthStencilState (m_setColorStates (m_setRasterizationState t c (m_setShaderStage i s)))) = vbHeap s"
    by (simp add: vbHeap_steps)
qed

lemma setShaderStage_fields:
  "m_shaderId (m_setShaderStage i s) = Number i"
  "m_rasterizationState (m_setShaderStage i s) = m_rasterizationState s"
  "m_depthStencilState (m_setShaderStage i s) = m_depthStencilState s"
  "m_textureState (m_setShaderStage i s) = m_textureState s"
  "k \<noteq> ShaderStage \<Longrightarrow> m_states (m_setShaderStage i s) k = m_states s k"
  by (simp_all add: m_setShaderStage_def strict_neq_def)

lemma setRasterizationState_fields:
  "m_shaderId (m_setRasterizationState t c s) = m_shaderId s"
  "m_rasterizationState (m_setRasterizationState t c s) = rasterizationStateOf s t c"
  "m_depthStencilState (m_setRasterizationState t c s) = m_depthStencilState s"
  "m_textureState (m_setRasterizationState t c s) = m_textureState s"
  "k \<noteq> RasterizationState \<Longrightarrow> m_states (m_setRasterizationState t c s) k = m_states s k"
  by (simp_all add: m_setRasterizationState_def strict_neq_def Let_def)

lemma setColorStates_fields:
  "m_shaderId (m_setColorStates s) = m_shaderId s"
  "m_rasterizationState (m_setColorStates s) = m_rasterizationState s"
  "m_depthStencilState (m_setColorStates s) = m_depthStencilState s"
  "m_textureState (m_setColorStates s) = m_textureState s"
  "k < ColorStates1 \<or> ColorStates4 < k \<Longrightarrow> m_states (m_setColorStates s) k = m_states s k"
  "m_states (m_setColorStates s) 7 = colorStateOf s 0"
  "m_states (m_setColorStates s) 8 = colorStateOf s 1"
  "m_states (m_setColorStates s) 9 = colorStateOf s 2"
  "m_states (m_setColorStates s) 10 = colorStateOf s 3"
  by (auto simp add: m_setColorStates_eq Let_def ColorStates1_def ColorStates4_def)

lemma setDepthStencilState_fields:
  "m_shaderId (m_setDepthStencilState s) = m_shaderId s"
  "m_rasterizationState (m_setDepthStencilState s) = m_rasterizationState s"
  "m_depthStencilState (m_setDepthStencilState s) = depthStencilStateOf s"
  "m_textureState (m_setDepthStencilState s) = m_textureState s"
  "k \<noteq> DepthStencilState \<Longrightarrow> m_states (m_setDepthStencilState s) k = m_states s k"
  by (simp_all add: m_setDepthStencilState_def strict_neq_def Let_def)

lemma setTextureState_fields:
  "m_shaderId (m_setTextureState ts s) = m_shaderId s"
  "m_rasterizationState (m_setTextureState ts s) = m_rasterizationState s"
  "m_depthStencilState (m_setTextureState ts s) = m_depthStencilState s"
  "m_textureState (m_setTextureState ts s) = Number ts"
  "k \<noteq> TextureStage \<Longrightarrow> m_states (m_setTextureState ts s) k = m_states s k"
  "m_statesLength (m_setTextureState ts s) = m_statesLength s"
  by (simp_all add: m_setTextureState_def strict_neq_def)

lemma rasterizationStateOf_Number: "\<exists>n. rasterizationStateOf s t c = Number n"
  by (simp add: rasterizationStateOf_def js_shl_def Let_def)

lemma packing_result:
  fixes s :: "'c cache" and t c i :: int
  defines "d \<equiv> m_setDepthStencilState (m_setColorStates (m_setRasterizationState t c (m_setShaderStage i s)))"
  shows "m_shaderId d = Number i"
    and "m_rasterizationState d = rasterizationStateOf s t c"
    and "m_depthStencilState d = depthStencilStateOf s"
    and "\<forall>k < 4. m_states d (ColorStates1 + k) = colorStateOf s k"
    and "m_textureState d = m_textureState s"
proof -
  let ?a = "m_setShaderStage i s"
  let ?b = "m_setRasterizationState t c ?a"
  let ?c = "m_setColorStates ?b"
  have fa: "recomputes s ?a" by (rule recomputes_setShaderStage)
  have fb: "recomputes s ?b"
    using recomputes_trans[OF fa recomputes_setRasterizationState] .
  have fc: "recomputes s ?c"
    using recomputes_trans[OF fb recomputes_setColorStates] .
  show "m_shaderId d = Number i"
    by (simp add: d_def setDepthStencilState_fields setColorStates_fields
        setRasterizationState_fields setShaderStage_fields)
  show "m_rasterizationState d = rasterizationStateOf s t c"
    by (simp add: d_def setDepthStencilState_fields setColorStates_fields
        setRasterizationState_fields recomputes_functions[OF fa])
  show "m_depthStencilState d = depthStencilStateOf s"
    by (simp add: d_def setDepthStencilState_fields recomputes_functions[OF fc])
  show "\<forall>k < 4. m_states d (ColorStates1 + k) = colorStateOf s k"
  proof (intro allI impI)
    fix k :: nat assume "k < 4"
    then have "k = 0 \<or> k = 1 \<or> k = 2 \<or> k = 3" by auto
    then show "m_states d (ColorStates1 + k) = colorStateOf s k"
      by (auto simp add: d_def setDepthStencilState_fields setColorStates_fields
          ColorStates1_def DepthStencilState_def recomputes_functions[OF fb])
  qed
  show "m_textureState d = m_textureState s"
    by (simp add: d_def setDepthStencilState_fields setColorStates_fields
        setRasterizationState_fields setShaderStage_fields)
qed

lemma packing_slots:
  "k \<ge> VertexState \<or> k = TextureStage \<or> k = MRTAttachments \<or> k < DepthStencilState \<Longrightarrow>
   m_states (m_setDepthStencilState (m_setColorStates (m_setRasterizationState t c (m_setShaderStage i s)))) k
     = m_states s k"
  by (auto simp add: setDepthStencilState_fields setColorStates_fields
        setRasterizationState_fields setShaderStage_fields StatePosition_defs)

lemma packing_stable:
  assumes "m_shaderId s = Number i"
    and "m_rasterizationState s = rasterizationStateOf s t c"
    and "m_depthStencilState s = depthStencilStateOf s"
    and "\<forall>k < 4. m_states s (ColorStates1 + k) = colorStateOf s k"
    and "depthStencilStateOf s \<noteq> NaN"
    and "\<forall>k < 4. colorStateOf s k \<noteq> NaN"
  shows "m_setDepthStencilState (m_setColorStates (m_setRasterizationState t c (m_setShaderStage i s))) = s"
proof -
  have 1: "m_setShaderStage i s = s"
    using assms(1) by (simp add: m_setShaderStage_def strict_neq_def)
  obtain n where n: "rasterizationStateOf s t c = Number n"
    using rasterizationStateOf_Number by blast
  have 2: "m_setRasterizationState t c s = s"
    using assms(2) n by (simp add: m_setRasterizationState_def strict_neq_def Let_def)
  have c: "m_states s 7 = colorStateOf s 0" "m_states s 8 = colorStateOf s 1"
    "m_states s 9 = colorStateOf s 2" "m_states s 10 = colorStateOf s 3"
    using assms(4) by (auto simp add: ColorStates1_def dest: spec[where x = 0] spec[where x = 1]
        spec[where x = 2] spec[where x = 3])
  have nn: "colorStateOf s 0 \<noteq> NaN" "colorStateOf s 1 \<noteq> NaN" "colorStateOf s 2 \<noteq> NaN"
    "colorStateOf s 3 \<noteq> NaN"
    using assms(6) by auto
  have st: "(m_states s)(7 := colorStateOf s 0, 8 := colorStateOf s 1,
                            9 := colorStateOf s 2, 10 := colorStateOf s 3) = m_states s"
    using c by (metis fun_upd_triv)
  have 3: "m_setColorStates s = s"
    unfolding m_setColorStates_eq Let_def st
    using c nn by (simp add: strict_neq_def)
  have 4: "m_setDepthStencilState s = s"
    using assms(3,5) by (simp add: m_setDepthStencilState_def strict_neq_def Let_def)
  show ?thesis by (simp add: 1 2 3 4)
qed

lemma setVertexState_loop_below:
  "setVertexState_loop locs names index (cur, num, nn) s = (res, out, s1)
     \<Longrightarrow> \<forall>k < nn. m_states s1 k = m_states s k"
proof (induction names arbitrary: index cur num nn s)
  case Nil
  then show ?case by simp
next
  case (Cons a names)
  show ?case
  proof (cases "resolveVertexBuffer s a")
    case (Inl e)
    with Cons.prems show ?thesis by simp
  next
    case (Inr r)
    obtain cur' num' where c: "stepCarry s cur num nn r = (cur', num', nn + 1)"
      using stepCarry_ex by blast
    from Cons.prems have step: "setVertexState_loop locs names (index + 1) (cur', num', nn + 1)
         (stepState s locs index cur num nn r) = (res, out, s1)"
      unfolding setVertexState_loop_Cons[OF Inr] c .
    from Cons.IH[OF step] show ?thesis by (auto simp add: stepState_slots)
  qed
qed

lemma m_setVertexState_below:
  "m_setVertexState eff s = (res, s1) \<Longrightarrow> \<forall>k < VertexState. m_states s1 k = m_states s k"
proof -
  assume a: "m_setVertexState eff s = (res, s1)"
  obtain r out t where l: "setVertexState_loop (attributeLocationsFromEffect eff)
                (attributeNamesFromEffect eff) 0 (None, 0, VertexState) s = (r, out, t)"
    by (metis prod_cases3)
  have "m_states s1 = m_states t"
    using a l by (cases r; cases out) (auto simp add: m_setVertexState_def Let_def split: if_splits)
  with setVertexState_loop_below[OF l] show ?thesis by simp
qed

lemma setVertexState_loop_resolves:
  "setVertexState_loop locs names index carry s = (None, out, s1)
     \<Longrightarrow> \<forall>a \<in> set names. \<exists>r. resolveVertexBuffer s a = Inr r"
proof (induction names arbitrary: index carry s)
  case Nil
  then show ?case by simp
next
  case (Cons a names)
  obtain cur num nn where carry: "carry = (cur, num, nn)" by (cases carry) auto
  show ?case
  proof (cases "resolveVertexBuffer s a")
    case (Inl e)
    with Cons.prems carry show ?thesis by simp
  next
    case (Inr r)
    from Cons.prems have step: "setVertexState_loop locs names (index + 1) (stepCarry s cur num nn r)
       (stepState s locs index cur num nn r) = (None, out, s1)"
      unfolding carry setVertexState_loop_Cons[OF Inr] .
    have fr: "recomputes s (stepState s locs index cur num nn r)"
      using stepState_frame(1) vertexFrame_recomputes by blast
    from Cons.IH[OF step] Inr show ?thesis
      by (simp add: recomputes_functions[OF fr])
  qed
qed

lemma m_setVertexState_resolves:
  "m_setVertexState eff s = (None, s1)
     \<Longrightarrow> \<forall>a \<in> set (attributeNamesFromEffect eff). \<exists>r. resolveVertexBuffer s a = Inr r"
proof -
  assume a: "m_setVertexState eff s = (None, s1)"
  obtain r out t where l: "setVertexState_loop (attributeLocationsFromEffect eff)
                (attributeNamesFromEffect eff) 0 (None, 0, VertexState) s = (r, out, t)"
    by (metis prod_cases3)
  have "r = None" using a l by (cases r) (simp_all add: m_setVertexState_def)
  with l show ?thesis using setVertexState_loop_resolves by blast
qed

lemma prepare_cases:
  obtains (err) e s1 where
      "m_setVertexState eff
         (m_setDepthStencilState (m_setColorStates
            (m_setRasterizationState fillMode (GetSample E sc) (m_setShaderStage (uniqueId eff) s))))
         = (Some e, s1)"
      "prepare E fillMode eff sc ts s = (Some e, s1)"
  | (ok) s1 where
      "m_setVertexState eff
         (m_setDepthStencilState (m_setColorStates
            (m_setRasterizationState fillMode (GetSample E sc) (m_setShaderStage (uniqueId eff) s))))
         = (None, s1)"
      "prepare E fillMode eff sc ts s =
         (None, (m_setTextureState ts s1)
                  \<lparr>lastStateDirtyLowestIndex := Some (m_stateDirtyLowestIndex (m_setTextureState ts s1))\<rparr>)"
proof -
  obtain r s1 where v: "m_setVertexState eff
         (m_setDepthStencilState (m_setColorStates
            (m_setRasterizationState fillMode (GetSample E sc) (m_setShaderStage (uniqueId eff) s))))
         = (r, s1)"
    by (metis surj_pair)
  show thesis
  proof (cases r)
    case None
    with v ok show ?thesis by (simp add: prepare_def)
  next
    case (Some e)
    with v err show ?thesis by (simp add: prepare_def)
  qed
qed

lemma lastUpdate_frame:
  "recomputes s (s\<lparr>lastStateDirtyLowestIndex := x\<rparr>)"
  "heapFrame s (s\<lparr>lastStateDirtyLowestIndex := x\<rparr>)"
  by (simp_all add: recomputes_def heapFrame_def)

lemma heapFrame_eq: "vbHeap s' = vbHeap s \<Longrightarrow> heapFrame s s'"
  by (simp add: heapFrame_def)

lemma prepare_frame:
  assumes "prepare E fillMode eff sc ts s = (res, s3)"
  shows "recomputes s s3" and "heapFrame s s3"
proof -
  let ?d = "m_setDepthStencilState (m_setColorStates
            (m_setRasterizationState fillMode (GetSample E sc) (m_setShaderStage (uniqueId eff) s)))"
  have d: "recomputes s ?d" "heapFrame s ?d"
    using packing_frame heapFrame_eq by blast+
  have "recomputes s s3 \<and> heapFrame s s3"
  proof (cases rule: prepare_cases[of eff fillMode E sc s ts])
    case (err e s1)
    then have "s3 = s1" using assms by simp
    with m_setVertexState_frame[OF err(1)] d show ?thesis
      using recomputes_trans heapFrame_trans vertexFrame_recomputes by blast
  next
    case (ok s1)
    let ?f = "m_setTextureState ts s1"
    have s3: "s3 = ?f\<lparr>lastStateDirtyLowestIndex := Some (m_stateDirtyLowestIndex ?f)\<rparr>"
      using assms ok by simp
    have 1: "recomputes s s1" "heapFrame s s1"
      using m_setVertexState_frame[OF ok(1)] d recomputes_trans heapFrame_trans
        vertexFrame_recomputes by blast+
    have 2: "recomputes s1 ?f" "heapFrame s1 ?f"
      using recomputes_setTextureState heapFrame_eq vbHeap_steps(5) by blast+
    have 3: "recomputes ?f s3" "heapFrame ?f s3"
      unfolding s3 by (rule lastUpdate_frame)+
    show ?thesis
      using 1 2 3 recomputes_trans heapFrame_trans by blast
  qed
  then show "recomputes s s3" and "heapFrame s s3" by auto
qed

lemma prepare_error:
  "prepare E fillMode eff sc ts s = (Some e, s3) \<Longrightarrow> e = TypeError"
proof (cases rule: prepare_cases[of eff fillMode E sc s ts])
  case (err e' s1)
  assume "prepare E fillMode eff sc ts s = (Some e, s3)"
  with err have "e' = e" by simp
  with m_setVertexState_error[OF err(1)] show ?thesis by simp
next
  case (ok s1)
  assume "prepare E fillMode eff sc ts s = (Some e, s3)"
  with ok show ?thesis by simp
qed

lemma prepare_inSync:
  assumes "prepare E fillMode eff sc ts s = (None, s3)"
  shows "inSync E fillMode eff sc ts s3"
proof (cases rule: prepare_cases[of eff fillMode E sc s ts])
  case (err e s1)
  with assms show ?thesis by simp
next
  case (ok s1)
  let ?d = "m_setDepthStencilState (m_setColorStates
            (m_setRasterizationState fillMode (GetSample E sc) (m_setShaderStage (uniqueId eff) s)))"
  let ?f = "m_setTextureState ts s1"
  have s3: "s3 = ?f\<lparr>lastStateDirtyLowestIndex := Some (m_stateDirtyLowestIndex ?f)\<rparr>"
    using assms ok by simp
  note fr = prepare_frame[OF assms]
  have d: "recomputes s ?d" "heapFrame s ?d"
    using packing_frame heapFrame_eq by blast+
  have d3: "recomputes ?d s3" "heapFrame ?d s3"
  proof -
    have 1: "recomputes ?d s1" "heapFrame ?d s1"
      using m_setVertexState_frame[OF ok(1)] vertexFrame_recomputes by blast+
    have 2: "recomputes s1 ?f" "heapFrame s1 ?f"
      using recomputes_setTextureState heapFrame_eq vbHeap_steps(5) by blast+
    have 3: "recomputes ?f s3" "heapFrame ?f s3"
      unfolding s3 by (rule lastUpdate_frame)+
    show "recomputes ?d s3" "heapFrame ?d s3"
      using 1 2 3 recomputes_trans heapFrame_trans by blast+
  qed
  note vf = vertexFrame_fields[OF conjunct1[OF m_setVertexState_frame[OF ok(1)]]]
  note pr = packing_result[where i = "uniqueId eff" and t = fillMode and c = "GetSample E sc" and s = s]
  have a: "m_shaderId s3 = Number (uniqueId eff)"
    by (simp add: s3 setTextureState_fields vf pr)
  have b: "m_rasterizationState s3 = rasterizationStateOf s3 fillMode (GetSample E sc)"
    by (simp add: s3 setTextureState_fields vf pr recomputes_functions[OF fr(1), unfolded s3])
  have c: "\<forall>k < 4. m_states s3 (ColorStates1 + k) = colorStateOf s3 k"
  proof (intro allI impI)
    fix k :: nat assume k: "k < 4"
    have "m_states s3 (ColorStates1 + k) = m_states s1 (ColorStates1 + k)"
      using k by (simp add: s3 setTextureState_fields StatePosition_defs)
    also have "\<dots> = m_states ?d (ColorStates1 + k)"
      using m_setVertexState_below[OF ok(1)] k by (simp add: StatePosition_defs)
    also have "\<dots> = colorStateOf s k" using pr(4) k by simp
    finally show "m_states s3 (ColorStates1 + k) = colorStateOf s3 k"
      by (simp add: recomputes_functions[OF fr(1)])
  qed
  have dd: "m_depthStencilState s3 = depthStencilStateOf s3"
    by (simp add: s3 setTextureState_fields vf pr recomputes_functions[OF fr(1), unfolded s3])
  have e: "m_textureState s3 = Number ts"
    by (simp add: s3 setTextureState_fields)
  note vs = m_setVertexState_slots[OF ok(1)]
  have f: "m_statesLength s3 = VertexState + length (attributeNamesFromEffect eff)"
    by (simp add: s3 setTextureState_fields vs)
  have g: "\<forall>j < length (attributeNamesFromEffect eff).
           m_states s3 (VertexState + j) =
             vidAt s3 (attributeLocationsFromEffect eff) j
               (refOf s3 (attributeNamesFromEffect eff ! j))"
  proof (intro allI impI)
    fix j assume j: "j < length (attributeNamesFromEffect eff)"
    have "m_states s3 (VertexState + j) = m_states s1 (VertexState + j)"
      by (simp add: s3 setTextureState_fields StatePosition_defs)
    also have "\<dots> = vidAt ?d (attributeLocationsFromEffect eff) j
               (refOf ?d (attributeNamesFromEffect eff ! j))"
      using vs(3) j by simp
    finally show "m_states s3 (VertexState + j) =
             vidAt s3 (attributeLocationsFromEffect eff) j
               (refOf s3 (attributeNamesFromEffect eff ! j))"
      by (simp add: vidAt_frame[OF d3(2)] refOf_frame[OF d3(1)])
  qed
  have h: "\<forall>a \<in> set (attributeNamesFromEffect eff). \<exists>r. resolveVertexBuffer s3 a = Inr r"
    using m_setVertexState_resolves[OF ok(1)]
    by (simp add: recomputes_functions[OF d3(1)])
  show ?thesis
    unfolding inSync_def using a b c dd e f g h by blast
qed

lemma bookkeeping_refl: "bookkeeping s s"
  by (simp add: bookkeeping_def)

lemma bookkeeping_fields:
  assumes "bookkeeping s s'"
  shows "disabled s' = disabled s"
    and "m_states s' = m_states s"
    and "m_statesLength s' = m_statesLength s"
    and "lastStateDirtyLowestIndex s' = lastStateDirtyLowestIndex s"
    and "m_stencilEnabled s' = m_stencilEnabled s"
    and "m_shaderId s' = m_shaderId s"
    and "m_rasterizationState s' = m_rasterizationState s"
    and "m_depthStencilState s' = m_depthStencilState s"
    and "m_textureState s' = m_textureState s"
    and "depthStencilStateOf s' = depthStencilStateOf s"
    and "colorStateOf s' k = colorStateOf s k"
    and "rasterizationStateOf s' t c = rasterizationStateOf s t c"
    and "resolveVertexBuffer s' a = resolveVertexBuffer s a"
    and "vbHeap s' = vbHeap s"
proof -
  have eq: "s' = s\<lparr>NumCacheHitWithoutHash := NumCacheHitWithoutHash s',
            NumCacheHitWithHash := NumCacheHitWithHash s',
            NumCacheMiss := NumCacheMiss s',
            m_NumPipelineCreationCurrentFrame := m_NumPipelineCreationCurrentFrame s',
            m_stateDirtyLowestIndex := m_stateDirtyLowestIndex s',
            m_isDirty := m_isDirty s',
            m_parameter_pipeline := m_parameter_pipeline s',
            store := store s',
            deviceCalls := deviceCalls s'\<rparr>"
    using assms by (simp only: bookkeeping_def)
  show "disabled s' = disabled s" by (subst eq) simp
  show "m_states s' = m_states s" by (subst eq) simp
  show "m_statesLength s' = m_statesLength s" by (subst eq) simp
  show "lastStateDirtyLowestIndex s' = lastStateDirtyLowestIndex s" by (subst eq) simp
  show "m_stencilEnabled s' = m_stencilEnabled s" by (subst eq) simp
  show "m_shaderId s' = m_shaderId s" by (subst eq) simp
  show "m_rasterizationState s' = m_rasterizationState s" by (subst eq) simp
  show "m_depthStencilState s' = m_depthStencilState s" by (subst eq) simp
  show "m_textureState s' = m_textureState s" by (subst eq) simp
  show "vbHeap s' = vbHeap s" by (subst eq) simp
  show "depthStencilStateOf s' = depthStencilStateOf s"
    by (subst eq) (simp add: depthStencilStateOf_def)
  show "colorStateOf s' k = colorStateOf s k"
    by (subst eq)
      (simp add: colorStateOf_def addTarget_def blendEnabled_def blendTargetBits_def
        colorStateInit_def)
  show "rasterizationStateOf s' t c = rasterizationStateOf s t c"
    by (subst eq) (simp add: rasterizationStateOf_def)
  show "resolveVertexBuffer s' a = resolveVertexBuffer s a"
    by (subst eq) (simp add: resolveVertexBuffer_def cong: option.case_cong)
qed

lemma bookkeeping_inSync:
  assumes "bookkeeping s s'"
  shows "inSync E fillMode eff sc ts s' = inSync E fillMode eff sc ts s"
  unfolding inSync_def vidAt_def refOf_def
  by (simp only: bookkeeping_fields[OF assms])

lemma prepare_stable:
  assumes "inSync E fillMode eff sc ts t"
    and "depthStencilStateOf t \<noteq> NaN"
    and "\<forall>k < 4. colorStateOf t k \<noteq> NaN"
  shows "\<exists>t3. prepare E fillMode eff sc ts t = (None, t3) \<and> m_isDirty t3 = m_isDirty t"
proof -
  have i1: "m_shaderId t = Number (uniqueId eff)"
    and i2: "m_rasterizationState t = rasterizationStateOf t fillMode (GetSample E sc)"
    and i3: "\<forall>k < 4. m_states t (ColorStates1 + k) = colorStateOf t k"
    and i4: "m_depthStencilState t = depthStencilStateOf t"
    and i5: "m_textureState t = Number ts"
    and i6: "m_statesLength t = VertexState + length (attributeNamesFromEffect eff)"
    and i7: "\<forall>j < length (attributeNamesFromEffect eff).
           m_states t (VertexState + j) =
             vidAt t (attributeLocationsFromEffect eff) j
               (refOf t (attributeNamesFromEffect eff ! j))"
    and i8: "\<forall>a \<in> set (attributeNamesFromEffect eff). \<exists>r. resolveVertexBuffer t a = Inr r"
    using assms(1) unfolding inSync_def by blast+
  have d: "m_setDepthStencilState (m_setColorStates
            (m_setRasterizationState fillMode (GetSample E sc) (m_setShaderStage (uniqueId eff) t))) = t"
    using i1 i2 i4 i3 assms(2,3) by (rule packing_stable)
  obtain s1 where v: "m_setVertexState eff t = (None, s1)" and s1: "m_isDirty s1 = m_isDirty t"
    using m_setVertexState_stable[OF i8 i7 i6] by blast
  have "m_textureState s1 = Number ts"
    using vertexFrame_fields(4)[OF conjunct1[OF m_setVertexState_frame[OF v]]] i5 by simp
  then have f: "m_setTextureState ts s1 = s1"
    by (simp add: m_setTextureState_def strict_neq_def)
  have "prepare E fillMode eff sc ts t =
          (None, s1\<lparr>lastStateDirtyLowestIndex := Some (m_stateDirtyLowestIndex s1)\<rparr>)"
    unfolding prepare_def d v by (simp add: f)
  then show ?thesis using s1 by simp
qed

lemma m_createRenderPipeline_cases:
  assumes "m_createRenderPipeline E dev eff topo sc s = (r, s')"
  obtains (nodesc) e where "renderPipelineDescriptor E eff topo sc s = Inl e" "r = Inl e" "s' = s"
  | (reject) d code where "renderPipelineDescriptor E eff topo sc s = Inr d"
      "dev (deviceCalls s) d = Inl code" "r = Inl (DeviceError code)"
      "s' = s\<lparr>deviceCalls := deviceCalls s @ [d]\<rparr>"
  | (accept) d p where "renderPipelineDescriptor E eff topo sc s = Inr d"
      "dev (deviceCalls s) d = Inr p" "r = Inr p"
      "s' = s\<lparr>deviceCalls := deviceCalls s @ [d]\<rparr>"
  using assms
  by (auto simp add: m_createRenderPipeline_def split: sum.splits)

lemma getRenderPipeline_enabled_success:
  assumes "\<not> disabled s"
    and "getRenderPipeline E dev strat fillMode eff sc ts s = (Inr p, s')"
  shows "\<exists>s3. prepare E fillMode eff sc ts s = (None, s3) \<and> bookkeeping s3 s'
           \<and> \<not> m_isDirty s' \<and> m_parameter_pipeline s' = Some p"
proof -
  obtain res s3 where pr: "prepare E fillMode eff sc ts s = (res, s3)" by (metis surj_pair)
  note g = assms(2)[unfolded getRenderPipeline_enabled[OF assms(1)] pr, simplified]
  show ?thesis
  proof (cases res)
    case (Some e)
    with g show ?thesis by simp
  next
    case None
    show ?thesis
    proof (cases "\<not> m_isDirty s3 \<and> m_parameter_pipeline s3 \<noteq> None")
      case True
      with g None have "p = the (m_parameter_pipeline s3)"
        and s': "s' = s3\<lparr>m_stateDirtyLowestIndex := m_statesLength s3,
                NumCacheHitWithoutHash := NumCacheHitWithoutHash s3 + 1\<rparr>"
        by auto
      then show ?thesis using True pr None by (auto simp add: bookkeeping_def)
    next
      case False
      with g None have sp: "slowPath E dev strat fillMode eff sc s3 = (Inr p, s')"
        by (auto split: if_splits)
      let ?s4 = "lookedUp strat s3"
      have b4: "bookkeeping s3 ?s4" "\<not> m_isDirty ?s4"
        by (simp_all add: bookkeeping_def lookedUp_def)
      show ?thesis
      proof (cases "m_parameter_pipeline ?s4")
        case (Some q)
        with sp have "q = p" "s' = ?s4\<lparr>NumCacheHitWithHash := NumCacheHitWithHash ?s4 + 1\<rparr>"
          by (simp_all add: slowPath_def Let_def)
        then show ?thesis using Some pr None
          by (auto simp add: bookkeeping_def lookedUp_def)
      next
        case N: None
        obtain topo where topo: "m_GetTopology E fillMode = Inr topo"
          using sp N by (cases "m_GetTopology E fillMode") (simp_all add: slowPath_def Let_def)
        obtain r5 s5 where c: "m_createRenderPipeline E dev eff topo (GetSample E sc) ?s4 = (r5, s5)"
          by (metis surj_pair)
        from sp N topo c have r5: "r5 = Inr p"
          and s': "s' = s5\<lparr>m_parameter_pipeline := Some p,
                           store := storeRP strat (store s5) (stateVector s5) p,
                           NumCacheMiss := NumCacheMiss s5 + 1,
                           m_NumPipelineCreationCurrentFrame :=
                             m_NumPipelineCreationCurrentFrame s5 + 1\<rparr>"
          by (cases r5; simp add: slowPath_def Let_def)+
        from c r5 obtain d where s5: "s5 = ?s4\<lparr>deviceCalls := deviceCalls ?s4 @ [d]\<rparr>"
          by (cases rule: m_createRenderPipeline_cases) auto
        show ?thesis using pr None
          by (auto simp add: s' s5 bookkeeping_def lookedUp_def)
      qed
    qed
  qed
qed

lemma getRenderPipeline_outcomes:
  assumes "getRenderPipeline E dev strat fillMode eff sc ts s = (r, s')"
  obtains
    (vertex) "r = Inl TypeError" "recomputes s s'"
  | (topology) e where "m_GetTopology E fillMode = Inl e" "r = Inl e" "disabled s" "s' = s"
  | (topology_miss) e s3 where "m_GetTopology E fillMode = Inl e" "r = Inl e" "\<not> disabled s"
      "prepare E fillMode eff sc ts s = (None, s3)" "s' = lookedUp strat s3"
      "m_parameter_pipeline s' = None"
  | (memo) p s3 where "\<not> disabled s" "prepare E fillMode eff sc ts s = (None, s3)"
      "\<not> m_isDirty s3" "m_parameter_pipeline s3 = Some p" "r = Inr p"
      "s' = s3\<lparr>m_stateDirtyLowestIndex := m_statesLength s3,
               NumCacheHitWithoutHash := NumCacheHitWithoutHash s3 + 1\<rparr>"
  | (hit) p s3 where "\<not> disabled s" "prepare E fillMode eff sc ts s = (None, s3)"
      "m_isDirty s3 \<or> m_parameter_pipeline s3 = None"
      "m_parameter_pipeline (lookedUp strat s3) = Some p" "r = Inr p"
      "s' = (lookedUp strat s3)\<lparr>NumCacheHitWithHash := NumCacheHitWithHash (lookedUp strat s3) + 1\<rparr>"
  | (failed) topo c e where "m_GetTopology E fillMode = Inr topo"
      "creationState E strat fillMode eff sc ts s c"
      "m_createRenderPipeline E dev eff topo (GetSample E sc) c = (Inl e, s')" "r = Inl e"
  | (success) topo c p s5 where "m_GetTopology E fillMode = Inr topo"
      "creationState E strat fillMode eff sc ts s c"
      "m_createRenderPipeline E dev eff topo (GetSample E sc) c = (Inr p, s5)" "r = Inr p"
      "s' = created strat (disabled s) p s5"
proof (cases "disabled s")
  case True
  note g = assms[unfolded getRenderPipeline_disabled[OF True]]
  show ?thesis
  proof (cases "m_GetTopology E fillMode")
    case (Inl e)
    with g have "r = Inl e" "s' = s" by simp_all
    then show ?thesis using topology[OF Inl _ True] by blast
  next
    case (Inr topo)
    obtain rv s1 where v: "m_setVertexState eff s = (rv, s1)" by (metis surj_pair)
    show ?thesis
    proof (cases rv)
      case (Some e)
      with g Inr v have "r = Inl e" "s' = s1" by simp_all
      moreover have "e = TypeError" using m_setVertexState_error v Some by blast
      moreover have "recomputes s s1"
        using m_setVertexState_frame[OF v] vertexFrame_recomputes by blast
      ultimately show ?thesis using vertex by blast
    next
      case None
      let ?c = "m_setTextureState ts s1"
      have cs: "creationState E strat fillMode eff sc ts s ?c"
        using True v None by (simp add: creationState_def)
      obtain r5 s5 where c: "m_createRenderPipeline E dev eff topo (GetSample E sc) ?c = (r5, s5)"
        by (metis surj_pair)
      show ?thesis
      proof (cases r5)
        case (Inl e)
        with g Inr v None c have "r = Inl e" "s' = s5" by simp_all
        then show ?thesis using failed[OF Inr cs] c Inl by blast
      next
        case (Inr p)
        with g \<open>m_GetTopology E fillMode = Inr topo\<close> v None c
        have "r = Inr p" "s' = created strat (disabled s) p s5"
          by (simp_all add: created_def True)
        then show ?thesis
          using success[OF \<open>m_GetTopology E fillMode = Inr topo\<close> cs] c Inr by blast
      qed
    qed
  qed
next
  case False
  obtain res s3 where pr: "prepare E fillMode eff sc ts s = (res, s3)" by (metis surj_pair)
  note g = assms[unfolded getRenderPipeline_enabled[OF False] pr, simplified]
  show ?thesis
  proof (cases res)
    case (Some e)
    with g have "r = Inl e" "s' = s3" by simp_all
    moreover have "e = TypeError" using prepare_error pr Some by blast
    moreover have "recomputes s s3" using prepare_frame(1)[OF pr] .
    ultimately show ?thesis using vertex by blast
  next
    case None
    show ?thesis
    proof (cases "\<not> m_isDirty s3 \<and> m_parameter_pipeline s3 \<noteq> None")
      case True
      then obtain p where p: "m_parameter_pipeline s3 = Some p" by auto
      with g None True have "r = Inr p"
        "s' = s3\<lparr>m_stateDirtyLowestIndex := m_statesLength s3,
               NumCacheHitWithoutHash := NumCacheHitWithoutHash s3 + 1\<rparr>"
        by auto
      then show ?thesis using memo[OF False] pr None True p by blast
    next
      case nf: False
      with g None have sp: "slowPath E dev strat fillMode eff sc s3 = (r, s')"
        by (auto split: if_splits)
      have nf': "m_isDirty s3 \<or> m_parameter_pipeline s3 = None" using nf by auto
      let ?s4 = "lookedUp strat s3"
      show ?thesis
      proof (cases "m_parameter_pipeline ?s4")
        case (Some q)
        with sp have "r = Inr q" "s' = ?s4\<lparr>NumCacheHitWithHash := NumCacheHitWithHash ?s4 + 1\<rparr>"
          by (simp_all add: slowPath_def Let_def)
        then show ?thesis using hit[OF False] pr None nf' Some by blast
      next
        case N: None
        show ?thesis
        proof (cases "m_GetTopology E fillMode")
          case (Inl e)
          with sp N have "r = Inl e" "s' = ?s4" by (simp_all add: slowPath_def Let_def)
          then show ?thesis using topology_miss[OF Inl _ False] pr None N by blast
        next
          case (Inr topo)
          have cs: "creationState E strat fillMode eff sc ts s ?s4"
            using False pr None N nf' by (simp add: creationState_def)
          obtain r5 s5 where c: "m_createRenderPipeline E dev eff topo (GetSample E sc) ?s4 = (r5, s5)"
            by (metis surj_pair)
          show ?thesis
          proof (cases r5)
            case (Inl e)
            with sp N Inr c have "r = Inl e" "s' = s5" by (simp_all add: slowPath_def Let_def)
            then show ?thesis using failed[OF Inr cs] c Inl by blast
          next
            case R: (Inr p)
            with sp N Inr c have "r = Inr p" "s' = created strat (disabled s) p s5"
              by (simp_all add: slowPath_def Let_def created_def False)
            then show ?thesis using success[OF Inr cs] c R by blast
          qed
        qed
      qed
    qed
  qed
qed

lemma resolveVertexBuffer_error: "resolveVertexBuffer s a = Inl e \<Longrightarrow> e = TypeError"
  by (auto simp add: resolveVertexBuffer_def split: option.splits)

lemma m_GetVertexInputDescriptorFormat_error:
  "m_GetVertexInputDescriptorFormat vb = Inl e \<Longrightarrow> e = InvalidFormat"
  by (auto simp add: m_GetVertexInputDescriptorFormat_def Let_def
      split: vertex_type.splits if_splits)

lemma getVertexInputDescriptor_loop_error:
  "getVertexInputDescriptor_loop s locs names index cur ds = Inl e
     \<Longrightarrow> e = TypeError \<or> e = InvalidFormat"
proof (induction names arbitrary: index cur ds)
  case Nil
  then show ?case by simp
next
  case (Cons a names)
  show ?case
  proof (cases "resolveVertexBuffer s a")
    case (Inl e')
    with Cons.prems have "e' = e" by simp
    with Inl resolveVertexBuffer_error show ?thesis by blast
  next
    case (Inr r)
    show ?thesis
    proof (cases "m_GetVertexInputDescriptorFormat (vbHeap s r)")
      case (Inl e')
      with Cons.prems Inr have "e' = e" by (simp add: Let_def)
      with Inl m_GetVertexInputDescriptorFormat_error show ?thesis by blast
    next
      case R: (Inr fmt)
      from Cons.prems Inr R obtain i' c' d' where
        "getVertexInputDescriptor_loop s locs names i' c' d' = Inl e"
        by (simp add: Let_def)
      then show ?thesis using Cons.IH by blast
    qed
  qed
qed

lemma renderPipelineDescriptor_error:
  "renderPipelineDescriptor E eff topo sc s = Inl e \<Longrightarrow> e = TypeError \<or> e = InvalidFormat"
  by (auto simp add: renderPipelineDescriptor_def m_getVertexInputDescriptor_def Let_def
      split: sum.splits dest: getVertexInputDescriptor_loop_error)

lemma renderPipelineDescriptor_topology:
  "renderPipelineDescriptor E eff topo sc s = Inr d \<Longrightarrow> topology d = topo"
  by (auto simp add: renderPipelineDescriptor_def Let_def split: sum.splits)

lemma renderPipelineDescriptor_depthStencil:
  "renderPipelineDescriptor E eff topo sc s = Inr d \<Longrightarrow>
   m_webgpuDepthStencilFormat s = Some f \<Longrightarrow> \<not> HasStencilAspect E f \<Longrightarrow>
   \<exists>ds. depthStencil d = Some ds \<and> stencilFront ds = None \<and> stencilBack ds = None
        \<and> stencilReadMask ds = None \<and> stencilWriteMask ds = None"
  by (auto simp add: renderPipelineDescriptor_def Let_def truthyFormat_def split: sum.splits)

lemma lookedUp_fields:
  "bookkeeping s (lookedUp strat s)"
  "deviceCalls (lookedUp strat s) = deviceCalls s"
  "NumCacheHitWithoutHash (lookedUp strat s) = NumCacheHitWithoutHash s"
  "NumCacheHitWithHash (lookedUp strat s) = NumCacheHitWithHash s"
  "NumCacheMiss (lookedUp strat s) = NumCacheMiss s"
  "m_NumPipelineCreationCurrentFrame (lookedUp strat s) = m_NumPipelineCreationCurrentFrame s"
  "m_webgpuDepthStencilFormat (lookedUp strat s) = m_webgpuDepthStencilFormat s"
  "m_stencilEnabled (lookedUp strat s) = m_stencilEnabled s"
  "store (lookedUp strat s) = fst (lookupRP strat (store s) (stateVector s) (m_stateDirtyLowestIndex s))"
  "stateVector (lookedUp strat s) = stateVector s"
  "lastStateDirtyLowestIndex (lookedUp strat s) = lastStateDirtyLowestIndex s"
  "m_isDirty (lookedUp strat s) = False"
  by (simp_all add: lookedUp_def bookkeeping_def stateVector_def)

lemma prepare_last:
  "prepare E fillMode eff sc ts s = (None, s3)
     \<Longrightarrow> lastStateDirtyLowestIndex s3 = Some (m_stateDirtyLowestIndex s3)"
  by (auto simp add: prepare_def split: prod.splits option.splits)

lemma creationState_fields:
  assumes "creationState E strat fillMode eff sc ts s c"
  shows "deviceCalls c = deviceCalls s"
    and "NumCacheHitWithoutHash c = NumCacheHitWithoutHash s"
    and "NumCacheHitWithHash c = NumCacheHitWithHash s"
    and "NumCacheMiss c = NumCacheMiss s"
    and "m_NumPipelineCreationCurrentFrame c = m_NumPipelineCreationCurrentFrame s"
    and "m_webgpuDepthStencilFormat c = m_webgpuDepthStencilFormat s"
    and "m_stencilEnabled c = m_stencilEnabled s"
    and "disabled s \<Longrightarrow> store c = store s \<and> m_parameter_pipeline c = m_parameter_pipeline s"
    and "\<not> disabled s \<Longrightarrow>
           m_parameter_pipeline c = None
           \<and> store c = fst (lookupRP strat (store s) (stateVector c)
                               (the (lastStateDirtyLowestIndex c)))"
proof -
  have "\<exists>m. recomputes s m \<and> (c = m \<or> (\<not> disabled s \<and> c = lookedUp strat m
          \<and> m_parameter_pipeline c = None
          \<and> lastStateDirtyLowestIndex m = Some (m_stateDirtyLowestIndex m)))
          \<and> (disabled s \<longrightarrow> c = m)"
  proof (cases "disabled s")
    case True
    with assms obtain s1 where v: "m_setVertexState eff s = (None, s1)"
      and c: "c = m_setTextureState ts s1"
      by (auto simp add: creationState_def)
    have "recomputes s c"
      unfolding c
      using m_setVertexState_frame[OF v] vertexFrame_recomputes recomputes_setTextureState
        recomputes_trans by blast
    then show ?thesis by blast
  next
    case False
    with assms obtain s3 where pr: "prepare E fillMode eff sc ts s = (None, s3)"
      and c: "c = lookedUp strat s3" "m_parameter_pipeline c = None"
      by (auto simp add: creationState_def)
    show ?thesis
      using prepare_frame(1)[OF pr] prepare_last[OF pr] c False by blast
  qed
  then obtain m where m: "recomputes s m"
    and cm: "c = m \<or> (\<not> disabled s \<and> c = lookedUp strat m \<and> m_parameter_pipeline c = None
          \<and> lastStateDirtyLowestIndex m = Some (m_stateDirtyLowestIndex m))"
    and dm: "disabled s \<longrightarrow> c = m"
    by blast
  note rf = recomputes_fields[OF m]
  show "deviceCalls c = deviceCalls s" using cm rf by (auto simp add: lookedUp_fields)
  show "NumCacheHitWithoutHash c = NumCacheHitWithoutHash s"
    using cm rf by (auto simp add: lookedUp_fields)
  show "NumCacheHitWithHash c = NumCacheHitWithHash s" using cm rf by (auto simp add: lookedUp_fields)
  show "NumCacheMiss c = NumCacheMiss s" using cm rf by (auto simp add: lookedUp_fields)
  show "m_NumPipelineCreationCurrentFrame c = m_NumPipelineCreationCurrentFrame s"
    using cm rf by (auto simp add: lookedUp_fields)
  show "m_webgpuDepthStencilFormat c = m_webgpuDepthStencilFormat s"
    using cm rf by (auto simp add: lookedUp_fields)
  show "m_stencilEnabled c = m_stencilEnabled s" using cm rf by (auto simp add: lookedUp_fields)
  show "disabled s \<Longrightarrow> store c = store s \<and> m_parameter_pipeline c = m_parameter_pipeline s"
    using dm rf by simp
  show "\<not> disabled s \<Longrightarrow>
           m_parameter_pipeline c = None
           \<and> store c = fst (lookupRP strat (store s) (stateVector c)
                               (the (lastStateDirtyLowestIndex c)))"
  proof -
    assume nd: "\<not> disabled s"
    with assms obtain s3 where pr: "prepare E fillMode eff sc ts s = (None, s3)"
      and c: "c = lookedUp strat s3" "m_parameter_pipeline c = None"
      by (auto simp add: creationState_def)
    have "store s3 = store s" using recomputes_fields(1)[OF prepare_frame(1)[OF pr]] .
    then show ?thesis
      using c prepare_last[OF pr] by (simp add: lookedUp_fields)
  qed
qed

lemma created_fields:
  "deviceCalls (created strat b p s) = deviceCalls s"
  "m_stencilEnabled (created strat b p s) = m_stencilEnabled s"
  by (simp_all add: created_def)

lemma m_GetTopology_error:
  "m_GetTopology E fillMode = Inl e \<Longrightarrow> e = LineLoopUnsupported \<or> e = TriangleFanUnsupported"
  by (auto simp add: m_GetTopology_def split: if_splits)

lemma getRenderPipeline_deviceCalls:
  assumes "getRenderPipeline E dev strat fillMode eff sc ts s = (r, s')"
  obtains (untouched) "deviceCalls s' = deviceCalls s"
      "\<forall>code. r \<noteq> Inl (DeviceError code)"
      "NumCacheMiss s' = NumCacheMiss s"
      "m_NumPipelineCreationCurrentFrame s' = m_NumPipelineCreationCurrentFrame s"
  | (rejected) topo c d code where "m_GetTopology E fillMode = Inr topo"
      "creationState E strat fillMode eff sc ts s c"
      "renderPipelineDescriptor E eff topo (GetSample E sc) c = Inr d"
      "dev (deviceCalls s) d = Inl code" "r = Inl (DeviceError code)"
      "s' = c\<lparr>deviceCalls := deviceCalls s @ [d]\<rparr>"
  | (accepted) topo c d p where "m_GetTopology E fillMode = Inr topo"
      "creationState E strat fillMode eff sc ts s c"
      "renderPipelineDescriptor E eff topo (GetSample E sc) c = Inr d"
      "dev (deviceCalls s) d = Inr p" "r = Inr p"
      "s' = created strat (disabled s) p (c\<lparr>deviceCalls := deviceCalls s @ [d]\<rparr>)"
  using assms
proof (cases rule: getRenderPipeline_outcomes)
  case vertex
  note rf = recomputes_fields[OF vertex(2)]
  show ?thesis
  proof (rule untouched)
    show "deviceCalls s' = deviceCalls s" by (rule rf)
    show "\<forall>code. r \<noteq> Inl (DeviceError code)" using vertex(1) by simp
    show "NumCacheMiss s' = NumCacheMiss s" by (rule rf)
    show "m_NumPipelineCreationCurrentFrame s' = m_NumPipelineCreationCurrentFrame s" by (rule rf)
  qed
next
  case (topology e)
  show ?thesis
  proof (rule untouched)
    show "\<forall>code. r \<noteq> Inl (DeviceError code)"
      using m_GetTopology_error[OF topology(1)] topology(2) by auto
  qed (simp_all add: topology(4))
next
  case (topology_miss e s3)
  note rf = recomputes_fields[OF prepare_frame(1)[OF topology_miss(4)]]
  show ?thesis
  proof (rule untouched)
    show "\<forall>code. r \<noteq> Inl (DeviceError code)"
      using m_GetTopology_error[OF topology_miss(1)] topology_miss(2) by auto
  qed (simp_all add: topology_miss(5) lookedUp_fields rf)
next
  case (memo p s3)
  note rf = recomputes_fields[OF prepare_frame(1)[OF memo(2)]]
  show ?thesis
    by (rule untouched) (simp_all add: memo(5,6) rf)
next
  case (hit p s3)
  note rf = recomputes_fields[OF prepare_frame(1)[OF hit(2)]]
  show ?thesis
    by (rule untouched) (simp_all add: hit(5,6) lookedUp_fields rf)
next
  case (failed topo c e)
  note cf = creationState_fields[OF failed(2)]
  from failed(3) show ?thesis
  proof (cases rule: m_createRenderPipeline_cases)
    case (nodesc e')
    show ?thesis
    proof (rule untouched)
      show "\<forall>code. r \<noteq> Inl (DeviceError code)"
        using renderPipelineDescriptor_error[OF nodesc(1)] nodesc(2) failed(4) by auto
    qed (simp_all add: nodesc(3) cf)
  next
    case (reject d code)
    show ?thesis
    proof (rule rejected[of topo c d code])
      show "m_GetTopology E fillMode = Inr topo" by (rule failed(1))
      show "creationState E strat fillMode eff sc ts s c" by (rule failed(2))
      show "renderPipelineDescriptor E eff topo (GetSample E sc) c = Inr d" by (rule reject(1))
      show "dev (deviceCalls s) d = Inl code" using reject(2) by (simp add: cf)
      show "r = Inl (DeviceError code)" using reject(3) failed(4) by simp
      show "s' = c\<lparr>deviceCalls := deviceCalls s @ [d]\<rparr>" using reject(4) by (simp add: cf)
    qed
  next
    case (accept d p)
    then show ?thesis by simp
  qed
next
  case (success topo c p s5)
  note cf = creationState_fields[OF success(2)]
  from success(3) show ?thesis
  proof (cases rule: m_createRenderPipeline_cases)
    case (nodesc e')
    then show ?thesis by simp
  next
    case (reject d code)
    then show ?thesis by simp
  next
    case (accept d p')
    show ?thesis
    proof (rule accepted[of topo c d p])
      show "m_GetTopology E fillMode = Inr topo" by (rule success(1))
      show "creationState E strat fillMode eff sc ts s c" by (rule success(2))
      show "renderPipelineDescriptor E eff topo (GetSample E sc) c = Inr d" by (rule accept(1))
      show "dev (deviceCalls s) d = Inr p" using accept(2,3) by (simp add: cf)
      show "r = Inr p" by (rule success(4))
      show "s' = created strat (disabled s) p (c\<lparr>deviceCalls := deviceCalls s @ [d]\<rparr>)"
        using accept(4) success(5) by (simp add: cf)
    qed
  qed
qed

lemma created_more:
  "m_parameter_pipeline (created strat b p s) = Some p"
  "NumCacheHitWithoutHash (created strat b p s) = NumCacheHitWithoutHash s"
  "NumCacheHitWithHash (created strat b p s) = NumCacheHitWithHash s"
  "NumCacheMiss (created strat b p s) = NumCacheMiss s + 1"
  by (simp_all add: created_def)

lemma m_GetTopology_unsupported:
  assumes "distinctFillModes E"
  shows "m_GetTopology E (MATERIAL_LineLoopDrawMode E) = Inl LineLoopUnsupported"
    and "m_GetTopology E (MATERIAL_TriangleFanDrawMode E) = Inl TriangleFanUnsupported"
  using assms by (auto simp add: m_GetTopology_def distinctFillModes_def)

lemmas setter_defs =
  setAlphaToCoverage_def setFrontFace_def setCullEnabled_def setCullFace_def setClampDepth_def
  setDepthBias_def setDepthBiasSlopeScale_def setDepthCullingState_def resetDepthCullingState_def
  setColorFormat_def setMRT_body_def setAlphaBlendEnabled_def setAlphaBlendFactors_def
  setWriteMask_def setDepthStencilFormat_def setStencilEnabled_def setStencilReadMask_def
  setStencilWriteMask_def setStencilState_def resetStencilState_def setBuffers_def
  m_setTextureState_def compareIndex_def stencilOpIndex_def stencilOpToIndex_def
  packMRTFormats_def strict_neq_def Let_def

lemma dbl_7: "dbl 7 = 7" by (simp add: dbl_small)

lemma newCache_fields:
  "disabled newCache = False"
  "m_isDirty newCache = True"
  "store newCache = []"
  "deviceCalls newCache = []"
  "m_parameter_pipeline newCache = None"
  "m_frontFace newCache = 2"
  "m_cullEnabled newCache = False"
  "m_clampDepth newCache = False"
  "m_alphaToCoverageEnabled newCache = False"
  "m_rasterizationState newCache = Undefined"
  "m_states newCache RasterizationState = Undefined"
  "m_webgpuDepthStencilFormat newCache = Some ''depth24plus-stencil8''"
  "m_stencilEnabled newCache = False"
  "m_vertexBuffers newCache = None"
  "m_overrideVertexBuffers newCache = None"
  "NumCacheHitWithoutHash newCache = 0"
  "NumCacheHitWithHash newCache = 0"
  "NumCacheMiss newCache = 0"
  "m_NumPipelineCreationCurrentFrame newCache = 0"
  "m_writeMask newCache = 0xf"
  "m_depthWriteEnabled newCache = True"
  "m_alphaBlendEnabled newCache = [False]"
  "m_alphaBlendFuncParams newCache = [None, None, None, None]"
  "m_alphaBlendEqParams newCache = [None, None]"
  "m_colorFormat newCache = Number 13"
  "m_emptyVertexBuffer newCache = 0"
  "vbHeap newCache = exampleHeap"
  "m_kMaxVertexBufferStride newCache = 2048"
  "indexBuffer newCache = None"
  "m_depthBias newCache = Number 0"
  "m_stencilReadMask newCache = Number 255"
  "m_states newCache StencilReadMask = Number 255"
  "m_stateDirtyLowestIndex newCache = 0"
  by (simp_all add: newCache_def constructor_def reset_def blank_def setter_defs exampleEnv_def
      StatePosition_defs)

lemma dirty_steps:
  "m_isDirty s \<Longrightarrow> m_isDirty (m_setShaderStage i s)"
  "m_isDirty s \<Longrightarrow> m_isDirty (m_setRasterizationState t c s)"
  "m_isDirty s \<Longrightarrow> m_isDirty (m_setColorStates s)"
  "m_isDirty s \<Longrightarrow> m_isDirty (m_setDepthStencilState s)"
  "m_isDirty s \<Longrightarrow> m_isDirty (m_setTextureState ts s)"
  by (simp_all add: m_setShaderStage_def m_setRasterizationState_def m_setColorStates_eq
      m_setDepthStencilState_def m_setTextureState_def Let_def)

lemma setVertexState_loop_dirty:
  "setVertexState_loop locs names index carry s = (res, out, s1) \<Longrightarrow> m_isDirty s
     \<Longrightarrow> m_isDirty s1"
proof (induction names arbitrary: index carry s)
  case Nil
  then show ?case by (cases carry) auto
next
  case (Cons a names)
  obtain cur num nn where carry: "carry = (cur, num, nn)" by (cases carry) auto
  show ?case
  proof (cases "resolveVertexBuffer s a")
    case (Inl e)
    with Cons.prems carry show ?thesis by simp
  next
    case (Inr r)
    from Cons.prems(1) have step: "setVertexState_loop locs names (index + 1) (stepCarry s cur num nn r)
       (stepState s locs index cur num nn r) = (res, out, s1)"
      unfolding carry setVertexState_loop_Cons[OF Inr] .
    have "m_isDirty (stepState s locs index cur num nn r)"
      using Cons.prems(2) by (simp add: stepState_dirty)
    with Cons.IH[OF step] show ?thesis .
  qed
qed

lemma m_setVertexState_dirty:
  "m_setVertexState eff s = (res, s1) \<Longrightarrow> m_isDirty s \<Longrightarrow> m_isDirty s1"
proof -
  assume a: "m_setVertexState eff s = (res, s1)" and d: "m_isDirty s"
  obtain r out t where l: "setVertexState_loop (attributeLocationsFromEffect eff)
                (attributeNamesFromEffect eff) 0 (None, 0, VertexState) s = (r, out, t)"
    by (metis prod_cases3)
  have t: "m_isDirty t" using setVertexState_loop_dirty[OF l d] .
  show ?thesis
    using a l t by (cases r; cases out) (auto simp add: m_setVertexState_def Let_def split: if_splits)
qed

lemma prepare_dirty:
  assumes "prepare E fillMode eff sc ts s = (res, s3)" and "m_isDirty s"
  shows "m_isDirty s3"
proof (cases rule: prepare_cases[of eff fillMode E sc s ts])
  case (err e s1)
  with assms(1) have "s3 = s1" by simp
  with m_setVertexState_dirty[OF err(1)] assms(2) show ?thesis by (simp add: dirty_steps)
next
  case (ok s1)
  have "m_isDirty s1"
    using m_setVertexState_dirty[OF ok(1)] assms(2) by (simp add: dirty_steps)
  then show ?thesis using assms(1) ok(2) by (auto simp add: dirty_steps)
qed

lemma setVertexState_loop_ok:
  "(\<forall>a \<in> set names. \<exists>r. resolveVertexBuffer s a = Inr r)
     \<Longrightarrow> fst (setVertexState_loop locs names index carry s) = None"
proof (induction names arbitrary: index carry s)
  case Nil
  then show ?case by (cases carry) auto
next
  case (Cons a names)
  obtain cur num nn where carry: "carry = (cur, num, nn)" by (cases carry) auto
  from Cons.prems obtain r where Inr: "resolveVertexBuffer s a = Inr r" by auto
  have fr: "recomputes s (stepState s locs index cur num nn r)"
    using stepState_frame(1) vertexFrame_recomputes by blast
  have "\<forall>a \<in> set names. \<exists>r'. resolveVertexBuffer (stepState s locs index cur num nn r) a = Inr r'"
    using Cons.prems by (simp add: recomputes_functions[OF fr])
  from Cons.IH[OF this] show ?case
    unfolding carry setVertexState_loop_Cons[OF Inr] .
qed

lemma m_setVertexState_ok:
  assumes "\<forall>a \<in> set (attributeNamesFromEffect eff). \<exists>r. resolveVertexBuffer s a = Inr r"
  shows "\<exists>s1. m_setVertexState eff s = (None, s1)"
proof -
  obtain r out t where l: "setVertexState_loop (attributeLocationsFromEffect eff)
                (attributeNamesFromEffect eff) 0 (None, 0, VertexState) s = (r, out, t)"
    by (metis prod_cases3)
  have "r = None" using setVertexState_loop_ok[OF assms, of "attributeLocationsFromEffect eff" 0 "(None, 0, VertexState)"] l
    by simp
  with l show ?thesis by (cases out) (simp add: m_setVertexState_def Let_def)
qed

lemma prepare_ok:
  assumes "\<forall>a \<in> set (attributeNamesFromEffect eff). \<exists>r. resolveVertexBuffer s a = Inr r"
  shows "\<exists>s3. prepare E fillMode eff sc ts s = (None, s3)"
proof -
  let ?d = "m_setDepthStencilState (m_setColorStates
            (m_setRasterizationState fillMode (GetSample E sc) (m_setShaderStage (uniqueId eff) s)))"
  have "\<forall>a \<in> set (attributeNamesFromEffect eff). \<exists>r. resolveVertexBuffer ?d a = Inr r"
    using assms by (simp add: recomputes_functions[OF packing_frame(1)])
  from m_setVertexState_ok[OF this] show ?thesis by (auto simp add: prepare_def)
qed

lemma getRenderPipeline_via_creation:
  assumes "creationState E strat fillMode eff sc ts s c"
  shows "getRenderPipeline E dev strat fillMode eff sc ts s =
     (case m_GetTopology E fillMode of
        Inl e \<Rightarrow> (Inl e, if disabled s then s else c)
      | Inr topo \<Rightarrow>
          (case m_createRenderPipeline E dev eff topo (GetSample E sc) c of
             (Inl e, s5) \<Rightarrow> (Inl e, s5)
           | (Inr p, s5) \<Rightarrow> (Inr p, created strat (disabled s) p s5)))"
proof (cases "disabled s")
  case True
  with assms obtain s1 where v: "m_setVertexState eff s = (None, s1)"
    and c: "c = m_setTextureState ts s1"
    by (auto simp add: creationState_def)
  show ?thesis
    unfolding getRenderPipeline_disabled[OF True] v c
    by (simp add: created_def True cong: sum.case_cong prod.case_cong)
next
  case False
  with assms obtain s3 where pr: "prepare E fillMode eff sc ts s = (None, s3)"
    and nf: "m_isDirty s3 \<or> m_parameter_pipeline s3 = None"
    and c: "c = lookedUp strat s3" "m_parameter_pipeline c = None"
    by (auto simp add: creationState_def)
  have nf': "(\<not> m_isDirty s3 \<and> m_parameter_pipeline s3 \<noteq> None) = False" using nf by auto
  have "getRenderPipeline E dev strat fillMode eff sc ts s = slowPath E dev strat fillMode eff sc s3"
    unfolding getRenderPipeline_enabled[OF False] pr by (simp only: nf' prod.case option.case if_False)
  also have "\<dots> = (case m_GetTopology E fillMode of
        Inl e \<Rightarrow> (Inl e, if disabled s then s else c)
      | Inr topo \<Rightarrow>
          (case m_createRenderPipeline E dev eff topo (GetSample E sc) c of
             (Inl e, s5) \<Rightarrow> (Inl e, s5)
           | (Inr p, s5) \<Rightarrow> (Inr p, created strat (disabled s) p s5)))"
    using c
    by (simp add: slowPath_def Let_def created_def False cong: sum.case_cong prod.case_cong)
  finally show ?thesis .
qed

lemma enabled_creationState:
  assumes "\<not> disabled s"
    and "\<forall>a \<in> set (attributeNamesFromEffect eff). \<exists>r. resolveVertexBuffer s a = Inr r"
    and "m_isDirty s \<or> m_parameter_pipeline s = None"
    and "\<forall>key low. snd (lookupRP strat (store s) key low) = None"
  shows "\<exists>c. creationState E strat fillMode eff sc ts s c"
proof -
  obtain s3 where pr: "prepare E fillMode eff sc ts s = (None, s3)"
    using prepare_ok[OF assms(2)] by blast
  note rf = recomputes_fields[OF prepare_frame(1)[OF pr]]
  have nf: "m_isDirty s3 \<or> m_parameter_pipeline s3 = None"
    using assms(3) prepare_dirty[OF pr] rf(9) by auto
  have "m_parameter_pipeline (lookedUp strat s3) = None"
    using assms(4) rf(1) by (simp add: lookedUp_def)
  then show ?thesis
    using assms(1) pr nf by (auto simp add: creationState_def)
qed

lemma no_attributes_descriptor:
  "attributeNamesFromEffect eff = [] \<Longrightarrow>
   \<exists>d. renderPipelineDescriptor E eff topo sc c = Inr d"
  by (simp add: renderPipelineDescriptor_def m_getVertexInputDescriptor_def Let_def)

lemma fresh_call:
  assumes "attributeNamesFromEffect eff = []"
    and "\<not> disabled s"
    and "m_isDirty s \<or> m_parameter_pipeline s = None"
    and "\<forall>key low. snd (lookupRP strat (store s) key low) = None"
  shows "\<exists>c. creationState E strat fillMode eff sc ts s c
     \<and> getRenderPipeline E dev strat fillMode eff sc ts s =
        (case m_GetTopology E fillMode of
           Inl e \<Rightarrow> (Inl e, c)
         | Inr topo \<Rightarrow>
             (case renderPipelineDescriptor E eff topo (GetSample E sc) c of
                Inl e \<Rightarrow> (Inl e, c)
              | Inr d \<Rightarrow>
                 (case dev (deviceCalls s) d of
                    Inl code \<Rightarrow> (Inl (DeviceError code), c\<lparr>deviceCalls := deviceCalls s @ [d]\<rparr>)
                  | Inr p \<Rightarrow>
                      (Inr p, created strat False p (c\<lparr>deviceCalls := deviceCalls s @ [d]\<rparr>)))))"
proof -
  have "\<forall>a \<in> set (attributeNamesFromEffect eff). \<exists>r. resolveVertexBuffer s a = Inr r"
    using assms(1) by simp
  from enabled_creationState[OF assms(2) this assms(3,4)]
  obtain c where c: "creationState E strat fillMode eff sc ts s c" by blast
  have dc: "deviceCalls c = deviceCalls s" using creationState_fields(1)[OF c] .
  show ?thesis
    using c assms(2)
    by (intro exI[of _ c] conjI)
       (simp_all add: getRenderPipeline_via_creation[OF c] m_createRenderPipeline_def dc
          split: sum.splits)
qed

lemma Indexed_empty: "snd (lookupRP Indexed [] key low) = None"
  by (simp add: Indexed_def)

lemma exampleEnv_topology:
  "m_GetTopology exampleEnv 0 = Inr TriangleList"
  "m_GetTopology exampleEnv 32 = Inr TriangleList"
  "m_GetTopology exampleEnv 8 = Inl TriangleFanUnsupported"
  "m_GetTopology exampleEnv 5 = Inl LineLoopUnsupported"
  "32 \<notin> recognisedFillModes exampleEnv"
  "distinctFillModes exampleEnv"
  "MATERIAL_TriangleFanDrawMode exampleEnv = 8"
  "MATERIAL_LineLoopDrawMode exampleEnv = 5"
  by (simp_all add: m_GetTopology_def exampleEnv_def recognisedFillModes_def distinctFillModes_def)

lemma newCache_call:
  "\<exists>c. creationState exampleEnv Indexed fillMode noAttributes sc ts newCache c
     \<and> getRenderPipeline exampleEnv dev Indexed fillMode noAttributes sc ts newCache =
        (case m_GetTopology exampleEnv fillMode of
           Inl e \<Rightarrow> (Inl e, c)
         | Inr topo \<Rightarrow>
             (case renderPipelineDescriptor exampleEnv noAttributes topo (GetSample exampleEnv sc) c of
                Inl e \<Rightarrow> (Inl e, c)
              | Inr d \<Rightarrow>
                 (case dev [] d of
                    Inl code \<Rightarrow> (Inl (DeviceError code), c\<lparr>deviceCalls := [d]\<rparr>)
                  | Inr p \<Rightarrow> (Inr p, created Indexed False p (c\<lparr>deviceCalls := [d]\<rparr>)))))"
proof -
  have a: "attributeNamesFromEffect noAttributes = []" by (simp add: noAttributes_def)
  have b: "\<not> disabled newCache" "m_isDirty newCache \<or> m_parameter_pipeline newCache = None"
    "\<forall>key low. snd (lookupRP Indexed (store newCache) key low) = None"
    by (simp_all add: newCache_fields Indexed_empty)
  have dc: "deviceCalls newCache = []" by (simp add: newCache_fields)
  show ?thesis
    using fresh_call[OF a b, of exampleEnv fillMode sc ts dev] unfolding dc append_Nil .
qed

lemma noAttributes_descriptor:
  "\<exists>d. renderPipelineDescriptor E noAttributes topo sc c = Inr d"
  by (rule no_attributes_descriptor) (simp add: noAttributes_def)

lemma depthOnlyCache_fields:
  "disabled depthOnlyCache = False"
  "m_isDirty depthOnlyCache = True"
  "store depthOnlyCache = []"
  "deviceCalls depthOnlyCache = []"
  "m_webgpuDepthStencilFormat depthOnlyCache = Some ''depth32float''"
  "m_stencilEnabled depthOnlyCache = True"
  by (simp_all add: depthOnlyCache_def setStencilEnabled_def setDepthStencilFormat_def
      newCache_fields)

lemma exampleEnv_depth32float: "\<not> HasStencilAspect exampleEnv ''depth32float''"
  by (simp add: exampleEnv_def)

lemma memo_hit:
  assumes "\<not> disabled t"
    and "inSync E fillMode eff sc ts t"
    and "\<not> m_isDirty t"
    and "m_parameter_pipeline t = Some p"
    and "depthStencilStateOf t \<noteq> NaN"
    and "\<forall>k < 4. colorStateOf t k \<noteq> NaN"
  shows "\<exists>t3. prepare E fillMode eff sc ts t = (None, t3)
     \<and> getRenderPipeline E dev strat fillMode eff sc ts t =
         (Inr p, t3\<lparr>m_stateDirtyLowestIndex := m_statesLength t3,
                    NumCacheHitWithoutHash := NumCacheHitWithoutHash t3 + 1\<rparr>)"
proof -
  obtain t3 where pr: "prepare E fillMode eff sc ts t = (None, t3)"
    and d: "m_isDirty t3 = m_isDirty t"
    using prepare_stable[OF assms(2,5,6)] by blast
  have m: "m_parameter_pipeline t3 = Some p"
    using recomputes_fields(9)[OF prepare_frame(1)[OF pr]] assms(4) by simp
  have "getRenderPipeline E dev strat fillMode eff sc ts t =
         (Inr p, t3\<lparr>m_stateDirtyLowestIndex := m_statesLength t3,
                    NumCacheHitWithoutHash := NumCacheHitWithoutHash t3 + 1\<rparr>)"
    unfolding getRenderPipeline_enabled[OF assms(1)] pr using d assms(3) m by simp
  with pr show ?thesis by blast
qed

lemma depthStencilStateOf_Number:
  "m_depthStencilFormat s = Number n \<Longrightarrow> \<exists>m. depthStencilStateOf s = Number m"
  by (simp add: depthStencilStateOf_def js_shl_def Let_def)

lemma colorStateInit_Number:
  "k < 4 \<Longrightarrow> \<exists>n. colorStateInit s ! k = Number n"
proof -
  assume "k < 4"
  then have "k = 0 \<or> k = 1 \<or> k = 2 \<or> k = 3" by auto
  then show ?thesis by (auto simp add: colorStateInit_def js_and_def)
qed

lemma colorStateOf_no_blend:
  "\<not> blendEnabled s (2 * k) \<Longrightarrow> \<not> blendEnabled s (2 * k + 1) \<Longrightarrow> k < 4
     \<Longrightarrow> \<exists>n. colorStateOf s k = Number n"
  using colorStateInit_Number[of k s] by (simp add: colorStateOf_def addTarget_def)

lemma newCache_numbers:
  "depthStencilStateOf newCache \<noteq> NaN"
  "\<forall>k < 4. colorStateOf newCache k \<noteq> NaN"
proof -
  have "m_depthStencilFormat newCache = Number 42"
    by (simp add: newCache_def constructor_def reset_def blank_def setter_defs exampleEnv_def)
  from depthStencilStateOf_Number[OF this] show "depthStencilStateOf newCache \<noteq> NaN" by auto
  have "\<not> blendEnabled newCache i" for i
    by (simp add: blendEnabled_def newCache_fields js_index_def)
  then show "\<forall>k < 4. colorStateOf newCache k \<noteq> NaN"
    using colorStateOf_no_blend[of newCache] by fastforce
qed

lemma inSync_frame:
  assumes "recomputes s s'" and "heapFrame s s'"
    and "m_states s' = m_states s" and "m_statesLength s' = m_statesLength s"
    and "m_shaderId s' = m_shaderId s" and "m_rasterizationState s' = m_rasterizationState s"
    and "m_depthStencilState s' = m_depthStencilState s"
    and "m_textureState s' = m_textureState s"
  shows "inSync E f eff sc ts s' = inSync E f eff sc ts s"
  unfolding inSync_def
  by (simp only: assms(3-8) recomputes_functions[OF assms(1)] vidAt_frame[OF assms(2)]
      refOf_frame[OF assms(1)])

lemma disabled_update:
  "inSync E f eff sc ts (s\<lparr>disabled := b\<rparr>) = inSync E f eff sc ts s"
  "depthStencilStateOf (s\<lparr>disabled := b\<rparr>) = depthStencilStateOf s"
  "colorStateOf (s\<lparr>disabled := b\<rparr>) k = colorStateOf s k"
proof -
  have r: "rasterizationStateOf (s\<lparr>disabled := b\<rparr>) t c = rasterizationStateOf s t c" for t c
    by (simp add: rasterizationStateOf_def)
  show d: "depthStencilStateOf (s\<lparr>disabled := b\<rparr>) = depthStencilStateOf s"
    by (simp add: depthStencilStateOf_def)
  show c: "colorStateOf (s\<lparr>disabled := b\<rparr>) k = colorStateOf s k" for k
    by (simp add: colorStateOf_def addTarget_def blendEnabled_def blendTargetBits_def
        colorStateInit_def)
  have v: "resolveVertexBuffer (s\<lparr>disabled := b\<rparr>) a = resolveVertexBuffer s a" for a
    by (simp add: resolveVertexBuffer_def cong: option.case_cong)
  have f: "m_shaderId (s\<lparr>disabled := b\<rparr>) = m_shaderId s"
    "m_rasterizationState (s\<lparr>disabled := b\<rparr>) = m_rasterizationState s"
    "m_states (s\<lparr>disabled := b\<rparr>) = m_states s"
    "m_depthStencilState (s\<lparr>disabled := b\<rparr>) = m_depthStencilState s"
    "m_textureState (s\<lparr>disabled := b\<rparr>) = m_textureState s"
    "m_statesLength (s\<lparr>disabled := b\<rparr>) = m_statesLength s"
    "vbHeap (s\<lparr>disabled := b\<rparr>) = vbHeap s"
    by simp_all
  show "inSync E f eff sc ts (s\<lparr>disabled := b\<rparr>) = inSync E f eff sc ts s"
    unfolding inSync_def vidAt_def refOf_def by (simp only: r d c v f)
qed

lemma disabled_call_sync:
  assumes dis: "disabled t"
    and sync: "inSync E fm' eff sc' ts t"
    and g: "getRenderPipeline E dev strat fm eff sc ts t = (Inr p, t')"
  shows "inSync E fm' eff sc' ts t'"
    and "m_isDirty t' = m_isDirty t"
    and "m_parameter_pipeline t' = Some p"
    and "depthStencilStateOf t' = depthStencilStateOf t"
    and "colorStateOf t' k = colorStateOf t k"
proof -
  have i5: "m_textureState t = Number ts"
    and i6: "m_statesLength t = VertexState + length (attributeNamesFromEffect eff)"
    and i7: "\<forall>j < length (attributeNamesFromEffect eff).
           m_states t (VertexState + j) =
             vidAt t (attributeLocationsFromEffect eff) j
               (refOf t (attributeNamesFromEffect eff ! j))"
    and i8: "\<forall>a \<in> set (attributeNamesFromEffect eff). \<exists>r. resolveVertexBuffer t a = Inr r"
    using sync unfolding inSync_def by blast+
  obtain s1 where v: "m_setVertexState eff t = (None, s1)"
    and st: "m_states s1 = m_states t" "m_isDirty s1 = m_isDirty t"
      "m_statesLength s1 = m_statesLength t"
    using m_setVertexState_stable[OF i8 i7 i6] by blast
  have vf: "vertexFrame t s1" and hf: "heapFrame t s1"
    using m_setVertexState_frame[OF v] by blast+
  note rc = vertexFrame_recomputes[OF vf]
  note vff = vertexFrame_fields[OF vf]
  have tx: "m_setTextureState ts s1 = s1"
    using vff(4) i5 by (simp add: m_setTextureState_def strict_neq_def)
  have s1sync: "inSync E fm' eff sc' ts s1"
    using inSync_frame[OF rc hf st(1,3) vff(1-4)] sync by simp
  from g obtain topo where topo: "m_GetTopology E fm = Inr topo"
    unfolding getRenderPipeline_disabled[OF dis] by (cases "m_GetTopology E fm") auto
  obtain r5 s5 where c: "m_createRenderPipeline E dev eff topo (GetSample E sc) s1 = (r5, s5)"
    by (metis surj_pair)
  have r5: "r5 = Inr p" and t': "t' = s5\<lparr>m_parameter_pipeline := Some p,
                              NumCacheMiss := NumCacheMiss s5 + 1,
                              m_NumPipelineCreationCurrentFrame :=
                                m_NumPipelineCreationCurrentFrame s5 + 1\<rparr>"
    using g unfolding getRenderPipeline_disabled[OF dis] topo
    by (cases r5; simp add: v tx c)+
  from c obtain d where s5: "s5 = s1\<lparr>deviceCalls := deviceCalls s1 @ [d]\<rparr>"
    by (cases rule: m_createRenderPipeline_cases) (simp_all add: r5)
  have bk: "bookkeeping s1 t'"
    unfolding t' s5 by (simp add: bookkeeping_def)
  note bf = bookkeeping_fields[OF bk]
  show "inSync E fm' eff sc' ts t'" using bookkeeping_inSync[OF bk] s1sync by simp
  show "m_isDirty t' = m_isDirty t" unfolding t' s5 using st(2) by simp
  show "m_parameter_pipeline t' = Some p" unfolding t' by simp
  show "depthStencilStateOf t' = depthStencilStateOf t"
    using bf(10) recomputes_functions(2)[OF rc] by simp
  show "colorStateOf t' k = colorStateOf t k"
    using bf(11) recomputes_functions(3)[OF rc] by simp
qed

lemma enabled_miss_state:
  assumes "creationState E strat fillMode eff sc ts s c" and "\<not> disabled s"
  shows "inSync E fillMode eff sc ts c"
    and "\<not> m_isDirty c"
    and "\<not> disabled c"
    and "depthStencilStateOf c = depthStencilStateOf s"
    and "colorStateOf c k = colorStateOf s k"
proof -
  from assms obtain s3 where pr: "prepare E fillMode eff sc ts s = (None, s3)"
    and c: "c = lookedUp strat s3"
    by (auto simp add: creationState_def)
  have bk: "bookkeeping s3 c" unfolding c by (rule lookedUp_fields(1))
  note bf = bookkeeping_fields[OF bk]
  note rc = prepare_frame(1)[OF pr]
  show "inSync E fillMode eff sc ts c"
    using prepare_inSync[OF pr] bookkeeping_inSync[OF bk] by simp
  show "\<not> m_isDirty c" unfolding c by (simp add: lookedUp_fields(12))
  show "\<not> disabled c" using bf(1) recomputes_fields(8)[OF rc] assms(2) by simp
  show "depthStencilStateOf c = depthStencilStateOf s"
    using bf(10) recomputes_functions(2)[OF rc] by simp
  show "colorStateOf c k = colorStateOf s k"
    using bf(11) recomputes_functions(3)[OF rc] by simp
qed

lemma afterFanRequest_facts:
  "fst (getRenderPipeline exampleEnv acceptingDevice Indexed 8 noAttributes 1 0 newCache)
     = Inl TriangleFanUnsupported"
  "inSync exampleEnv 8 noAttributes 1 0 afterFanRequest"
  "\<not> m_isDirty afterFanRequest"
  "deviceCalls afterFanRequest = []"
  "depthStencilStateOf afterFanRequest \<noteq> NaN"
  "\<forall>k < 4. colorStateOf afterFanRequest k \<noteq> NaN"
proof -
  let ?G = "getRenderPipeline exampleEnv acceptingDevice Indexed 8 noAttributes 1 0 newCache"
  obtain c where c: "creationState exampleEnv Indexed 8 noAttributes 1 0 newCache c"
    and g: "?G =
        (case m_GetTopology exampleEnv 8 of
           Inl e \<Rightarrow> (Inl e, c)
         | Inr topo \<Rightarrow>
             (case renderPipelineDescriptor exampleEnv noAttributes topo (GetSample exampleEnv 1) c of
                Inl e \<Rightarrow> (Inl e, c)
              | Inr d \<Rightarrow>
                 (case acceptingDevice [] d of
                    Inl code \<Rightarrow> (Inl (DeviceError code), c\<lparr>deviceCalls := [d]\<rparr>)
                  | Inr p \<Rightarrow> (Inr p, created Indexed False p (c\<lparr>deviceCalls := [d]\<rparr>)))))"
    using newCache_call[of 8 1 0 acceptingDevice] by blast
  have G: "?G = (Inl TriangleFanUnsupported, c)"
    unfolding g by (simp add: exampleEnv_topology)
  have a: "afterFanRequest = c" unfolding afterFanRequest_def G by simp
  have en: "\<not> disabled newCache" by (simp add: newCache_fields)
  note ms = enabled_miss_state[OF c en]
  show "fst ?G = Inl TriangleFanUnsupported" unfolding G by simp
  show "inSync exampleEnv 8 noAttributes 1 0 afterFanRequest" unfolding a by (rule ms(1))
  show "\<not> m_isDirty afterFanRequest" unfolding a by (rule ms(2))
  show "deviceCalls afterFanRequest = []"
    unfolding a using creationState_fields(1)[OF c] by (simp add: newCache_fields)
  show "depthStencilStateOf afterFanRequest \<noteq> NaN"
    unfolding a ms(4) by (rule newCache_numbers(1))
  show "\<forall>k < 4. colorStateOf afterFanRequest k \<noteq> NaN"
    unfolding a ms(5) by (rule newCache_numbers(2))
qed

lemma afterBypass_facts:
  "fst (getRenderPipeline exampleEnv acceptingDevice Indexed 0 noAttributes 1 0
          (afterFanRequest\<lparr>disabled := True\<rparr>)) = Inr 100"
  "inSync exampleEnv 8 noAttributes 1 0 afterBypass"
  "\<not> m_isDirty afterBypass"
  "m_parameter_pipeline afterBypass = Some 100"
  "depthStencilStateOf afterBypass \<noteq> NaN"
  "\<forall>k < 4. colorStateOf afterBypass k \<noteq> NaN"
  "\<exists>d. deviceCalls afterBypass = [d] \<and> topology d = TriangleList"
proof -
  let ?t = "afterFanRequest\<lparr>disabled := True\<rparr>"
  let ?G = "getRenderPipeline exampleEnv acceptingDevice Indexed 0 noAttributes 1 0 ?t"
  have dis: "disabled ?t" by simp
  have sync: "inSync exampleEnv 8 noAttributes 1 0 ?t"
    unfolding disabled_update(1) by (rule afterFanRequest_facts(2))
  have "\<forall>a \<in> set (attributeNamesFromEffect noAttributes). \<exists>r. resolveVertexBuffer ?t a = Inr r"
    by (simp add: noAttributes_def)
  from m_setVertexState_ok[OF this]
  obtain s1 where v: "m_setVertexState noAttributes ?t = (None, s1)" by blast
  have cs: "creationState exampleEnv Indexed 0 noAttributes 1 0 ?t (m_setTextureState 0 s1)"
    using v by (simp add: creationState_def)
  have dc: "deviceCalls (m_setTextureState 0 s1) = []"
    using creationState_fields(1)[OF cs] afterFanRequest_facts(4) by simp
  obtain d where d: "renderPipelineDescriptor exampleEnv noAttributes TriangleList
       (GetSample exampleEnv 1) (m_setTextureState 0 s1) = Inr d"
    using noAttributes_descriptor by blast
  have cr: "m_createRenderPipeline exampleEnv acceptingDevice noAttributes TriangleList
       (GetSample exampleEnv 1) (m_setTextureState 0 s1)
     = (Inr 100, (m_setTextureState 0 s1)\<lparr>deviceCalls := [d]\<rparr>)"
    by (simp add: m_createRenderPipeline_def d dc acceptingDevice_def)
  have G: "?G = (Inr 100, created Indexed True 100 ((m_setTextureState 0 s1)\<lparr>deviceCalls := [d]\<rparr>))"
    unfolding getRenderPipeline_via_creation[OF cs]
    by (simp add: exampleEnv_topology cr)
  have a: "afterBypass = created Indexed True 100 ((m_setTextureState 0 s1)\<lparr>deviceCalls := [d]\<rparr>)"
    unfolding afterBypass_def G by simp
  note f = disabled_call_sync[OF dis sync G, folded a]
  show "fst ?G = Inr 100" unfolding G by simp
  show "inSync exampleEnv 8 noAttributes 1 0 afterBypass" by (rule f(1))
  show "\<not> m_isDirty afterBypass" using f(2) afterFanRequest_facts(3) by simp
  show "m_parameter_pipeline afterBypass = Some 100" by (rule f(3))
  show "depthStencilStateOf afterBypass \<noteq> NaN"
    unfolding f(4) disabled_update(2) by (rule afterFanRequest_facts(5))
  show "\<forall>k < 4. colorStateOf afterBypass k \<noteq> NaN"
    unfolding f(5) disabled_update(3) by (rule afterFanRequest_facts(6))
  show "\<exists>d. deviceCalls afterBypass = [d] \<and> topology d = TriangleList"
    unfolding a using renderPipelineDescriptor_topology[OF d] by (simp add: created_fields)
qed

lemma nan_color_state_dirty:
  assumes "colorStateOf s k = NaN" and "k < 4"
    and "prepare E fillMode eff sc ts s = (res, s3)"
  shows "m_isDirty s3"
proof -
  let ?r = "m_setRasterizationState fillMode (GetSample E sc) (m_setShaderStage (uniqueId eff) s)"
  have rc: "recomputes s ?r"
    by (meson recomputes_trans recomputes_setShaderStage recomputes_setRasterizationState)
  have n: "colorStateOf ?r k = NaN"
    using recomputes_functions(3)[OF rc] assms(1) by simp
  have "k = 0 \<or> k = 1 \<or> k = 2 \<or> k = 3" using assms(2) by auto
  then have c: "m_isDirty (m_setColorStates ?r)"
    using n by (auto simp add: m_setColorStates_eq Let_def strict_neq_def)
  have d: "m_isDirty (m_setDepthStencilState (m_setColorStates ?r))"
    using c by (rule dirty_steps(4))
  show ?thesis
  proof (cases rule: prepare_cases[of eff fillMode E sc s ts])
    case (err e s1)
    with assms(3) have "s3 = s1" by simp
    with m_setVertexState_dirty[OF err(1) d] show ?thesis by simp
  next
    case (ok s1)
    have "m_isDirty s1" using m_setVertexState_dirty[OF ok(1) d] .
    then show ?thesis using assms(3) ok(2) by (auto simp add: dirty_steps)
  qed
qed

lemma dirty_skips_memo:
  assumes "getRenderPipeline E dev strat fillMode eff sc ts s = (r, s')"
    and "\<And>res s3. prepare E fillMode eff sc ts s = (res, s3) \<Longrightarrow> m_isDirty s3"
  shows "NumCacheHitWithoutHash s' = NumCacheHitWithoutHash s"
  using assms(1)
proof (cases rule: getRenderPipeline_outcomes)
  case vertex
  show ?thesis using recomputes_fields(3)[OF vertex(2)] .
next
  case (topology e)
  then show ?thesis by simp
next
  case (topology_miss e s3)
  then show ?thesis
    using recomputes_fields(3)[OF prepare_frame(1)[OF topology_miss(4)]]
    by (simp add: lookedUp_fields)
next
  case (memo p s3)
  with assms(2)[OF memo(2)] show ?thesis by simp
next
  case (hit p s3)
  then show ?thesis
    using recomputes_fields(3)[OF prepare_frame(1)[OF hit(2)]]
    by (simp add: lookedUp_fields)
next
  case (failed topo c e)
  from failed(3) have "NumCacheHitWithoutHash s' = NumCacheHitWithoutHash c"
    by (cases rule: m_createRenderPipeline_cases) simp_all
  then show ?thesis using creationState_fields(2)[OF failed(2)] by simp
next
  case (success topo c p s5)
  from success(3) have "NumCacheHitWithoutHash s5 = NumCacheHitWithoutHash c"
    by (cases rule: m_createRenderPipeline_cases) simp_all
  then show ?thesis
    using creationState_fields(2)[OF success(2)] success(5) by (simp add: created_more)
qed

lemma first_resolution:
  assumes "attributeNamesFromEffect eff = []"
    and "\<not> disabled s"
    and "m_isDirty s \<or> m_parameter_pipeline s = None"
    and "\<forall>key low. snd (lookupRP strat (store s) key low) = None"
    and "m_GetTopology E fillMode = Inr topo"
    and "\<And>d. dev (deviceCalls s) d = Inr p"
  shows "\<exists>s'. getRenderPipeline E dev strat fillMode eff sc ts s = (Inr p, s')
     \<and> NumCacheHitWithoutHash s' = NumCacheHitWithoutHash s
     \<and> NumCacheHitWithHash s' = NumCacheHitWithHash s
     \<and> NumCacheMiss s' = NumCacheMiss s + 1"
proof -
  obtain c where c: "creationState E strat fillMode eff sc ts s c"
    and g: "getRenderPipeline E dev strat fillMode eff sc ts s =
        (case m_GetTopology E fillMode of
           Inl e \<Rightarrow> (Inl e, c)
         | Inr topo \<Rightarrow>
             (case renderPipelineDescriptor E eff topo (GetSample E sc) c of
                Inl e \<Rightarrow> (Inl e, c)
              | Inr d \<Rightarrow>
                 (case dev (deviceCalls s) d of
                    Inl code \<Rightarrow> (Inl (DeviceError code), c\<lparr>deviceCalls := deviceCalls s @ [d]\<rparr>)
                  | Inr p \<Rightarrow>
                      (Inr p, created strat False p (c\<lparr>deviceCalls := deviceCalls s @ [d]\<rparr>)))))"
    using fresh_call[OF assms(1-4)] by blast
  obtain d where d: "renderPipelineDescriptor E eff topo (GetSample E sc) c = Inr d"
    using no_attributes_descriptor[OF assms(1)] by blast
  have G: "getRenderPipeline E dev strat fillMode eff sc ts s
     = (Inr p, created strat False p (c\<lparr>deviceCalls := deviceCalls s @ [d]\<rparr>))"
    unfolding g by (simp add: assms(5) d assms(6))
  show ?thesis
    unfolding G using creationState_fields(2-4)[OF c] by (simp add: created_more)
qed

lemma newCache_first:
  "\<exists>s'. getRenderPipeline exampleEnv acceptingDevice Indexed 0 noAttributes 1 0 newCache
           = (Inr 100, s')
     \<and> NumCacheHitWithoutHash s' = 0 \<and> NumCacheHitWithHash s' = 0 \<and> NumCacheMiss s' = 1"
proof -
  have a: "attributeNamesFromEffect noAttributes = []" by (simp add: noAttributes_def)
  have b: "\<not> disabled newCache" "m_isDirty newCache \<or> m_parameter_pipeline newCache = None"
    "\<forall>key low. snd (lookupRP Indexed (store newCache) key low) = None"
    by (simp_all add: newCache_fields Indexed_empty)
  have d: "acceptingDevice (deviceCalls newCache) d = Inr 100" for d
    by (simp add: acceptingDevice_def newCache_fields)
  show ?thesis
    using first_resolution[where dev = acceptingDevice and sc = 1 and ts = 0 and p = 100,
        OF a b exampleEnv_topology(1) d]
    by (simp add: newCache_fields)
qed

lemma shortBlendArrays_fields:
  "\<not> disabled shortBlendArrays"
  "m_isDirty shortBlendArrays \<or> m_parameter_pipeline shortBlendArrays = None"
  "\<forall>key low. snd (lookupRP Indexed (store shortBlendArrays) key low) = None"
  "deviceCalls shortBlendArrays = []"
  "colorStateOf shortBlendArrays 0 = NaN"
proof -
  show "\<not> disabled shortBlendArrays"
    "m_isDirty shortBlendArrays \<or> m_parameter_pipeline shortBlendArrays = None"
    "\<forall>key low. snd (lookupRP Indexed (store shortBlendArrays) key low) = None"
    "deviceCalls shortBlendArrays = []"
    by (simp_all add: shortBlendArrays_def setAlphaBlendEnabled_def newCache_fields Indexed_empty)
  have e: "blendEnabled shortBlendArrays 1"
    by (simp add: blendEnabled_def shortBlendArrays_def setAlphaBlendEnabled_def js_index_def)
  have "m_alphaBlendEqParams shortBlendArrays = [None, None]"
    by (simp add: shortBlendArrays_def setAlphaBlendEnabled_def newCache_fields)
  then have b: "blendTargetBits shortBlendArrays 1 = NaN"
    by (simp add: blendTargetBits_def js_index_def tableIndex_def Let_def)
  show "colorStateOf shortBlendArrays 0 = NaN"
    using e b by (simp add: colorStateOf_def addTarget_def)
qed

lemma enabled_bookkeeping:
  assumes "\<not> disabled s"
    and "getRenderPipeline E dev strat fillMode eff sc ts s = (r, s')"
  shows "\<exists>res s3. prepare E fillMode eff sc ts s = (res, s3) \<and> bookkeeping s3 s'"
proof -
  obtain res s3 where pr: "prepare E fillMode eff sc ts s = (res, s3)" by (metis surj_pair)
  note g = assms(2)[unfolded getRenderPipeline_enabled[OF assms(1)] pr, simplified]
  have "bookkeeping s3 s'"
  proof (cases res)
    case (Some e)
    with g show ?thesis by (simp add: bookkeeping_refl)
  next
    case None
    show ?thesis
    proof (cases "\<not> m_isDirty s3 \<and> m_parameter_pipeline s3 \<noteq> None")
      case True
      with g None show ?thesis by (auto simp add: bookkeeping_def)
    next
      case False
      with g None have sp: "slowPath E dev strat fillMode eff sc s3 = (r, s')" by auto
      let ?c = "lookedUp strat s3"
      have bc: "bookkeeping s3 ?c" by (rule lookedUp_fields(1))
      have up: "bookkeeping s3 (?c\<lparr>NumCacheHitWithHash := h\<rparr>)" for h
        by (simp add: lookedUp_def bookkeeping_def)
      have cr: "bookkeeping s3 (?c\<lparr>deviceCalls := dc\<rparr>)" for dc
        by (simp add: lookedUp_def bookkeeping_def)
      have cr2: "bookkeeping s3 (?c\<lparr>deviceCalls := dc, m_parameter_pipeline := pp, store := st,
                   NumCacheMiss := nm, m_NumPipelineCreationCurrentFrame := nc\<rparr>)" for dc pp st nm nc
        by (simp add: lookedUp_def bookkeeping_def)
      show ?thesis
      proof (cases "m_parameter_pipeline ?c")
        case (Some p)
        with sp have "s' = ?c\<lparr>NumCacheHitWithHash := NumCacheHitWithHash ?c + 1\<rparr>"
          by (simp add: slowPath_def Let_def)
        then show ?thesis using up by simp
      next
        case None
        show ?thesis
        proof (cases "m_GetTopology E fillMode")
          case (Inl e)
          with sp None have "s' = ?c" by (simp add: slowPath_def Let_def)
          then show ?thesis using bc by simp
        next
          case (Inr topo)
          obtain r5 s5 where c: "m_createRenderPipeline E dev eff topo (GetSample E sc) ?c = (r5, s5)"
            by (metis surj_pair)
          from c show ?thesis
          proof (cases rule: m_createRenderPipeline_cases)
            case (nodesc e)
            with sp None Inr c have "s' = ?c" by (simp add: slowPath_def Let_def)
            then show ?thesis using bc by simp
          next
            case (reject d code)
            with sp None Inr c have "s' = ?c\<lparr>deviceCalls := deviceCalls ?c @ [d]\<rparr>"
              by (simp add: slowPath_def Let_def)
            then show ?thesis using cr by simp
          next
            case (accept d p)
            with sp None Inr c have "s' = ?c\<lparr>deviceCalls := deviceCalls ?c @ [d],
                m_parameter_pipeline := Some p,
                store := storeRP strat (store s5) (stateVector s5) p,
                NumCacheMiss := NumCacheMiss s5 + 1,
                m_NumPipelineCreationCurrentFrame := m_NumPipelineCreationCurrentFrame s5 + 1\<rparr>"
              by (simp add: slowPath_def Let_def)
            then show ?thesis using cr2 by simp
          qed
        qed
      qed
    qed
  qed
  with pr show ?thesis by blast
qed

lemma setRasterizationState_slot:
  assumes "m_states s RasterizationState = m_rasterizationState s"
  shows "m_states (m_setRasterizationState t c s) RasterizationState = rasterizationStateOf s t c"
  using assms by (auto simp add: m_setRasterizationState_def Let_def strict_neq_def)

lemma prepare_rasterization_slot:
  assumes "prepare E fillMode eff sc ts s = (res, s3)"
    and "m_states s RasterizationState = m_rasterizationState s"
  shows "m_states s3 RasterizationState = rasterizationStateOf s fillMode (GetSample E sc)"
proof -
  let ?a = "m_setShaderStage (uniqueId eff) s"
  let ?b = "m_setRasterizationState fillMode (GetSample E sc) ?a"
  let ?d = "m_setDepthStencilState (m_setColorStates ?b)"
  have a: "m_states ?a RasterizationState = m_rasterizationState ?a"
    using assms(2)
    by (simp add: setShaderStage_fields RasterizationState_def ShaderStage_def)
  have b: "m_states ?b RasterizationState = rasterizationStateOf s fillMode (GetSample E sc)"
    using setRasterizationState_slot[OF a]
    by (simp add: recomputes_functions[OF recomputes_setShaderStage])
  have d: "m_states ?d RasterizationState = rasterizationStateOf s fillMode (GetSample E sc)"
    using b
    by (simp add: setDepthStencilState_fields setColorStates_fields RasterizationState_def
        DepthStencilState_def ColorStates1_def)
  have lt: "RasterizationState < VertexState"
    by (simp add: RasterizationState_def VertexState_def)
  show ?thesis
  proof (cases rule: prepare_cases[of eff fillMode E sc s ts])
    case (err e s1)
    with assms(1) have "s3 = s1" by simp
    with m_setVertexState_below[OF err(1)] lt d show ?thesis by simp
  next
    case (ok s1)
    have "m_states s1 RasterizationState = rasterizationStateOf s fillMode (GetSample E sc)"
      using m_setVertexState_below[OF ok(1)] lt d by simp
    then show ?thesis
      using assms(1) ok(2)
      by (auto simp add: setTextureState_fields RasterizationState_def TextureStage_def)
  qed
qed

lemma enabled_rasterization_slot:
  assumes "\<not> disabled s"
    and "getRenderPipeline E dev strat fillMode eff sc ts s = (r, s')"
    and "m_states s RasterizationState = m_rasterizationState s"
  shows "m_states s' RasterizationState = rasterizationStateOf s fillMode (GetSample E sc)"
proof -
  obtain res s3 where pr: "prepare E fillMode eff sc ts s = (res, s3)"
    and bk: "bookkeeping s3 s'"
    using enabled_bookkeeping[OF assms(1,2)] by blast
  show ?thesis
    using prepare_rasterization_slot[OF pr assms(3)] bookkeeping_fields(2)[OF bk] by simp
qed

lemma rasterizationStateOf_closed:
  assumes "0 \<le> m_frontFace s" and "m_frontFace s < 2 ^ 31"
    and "m_cullEnabled s \<longrightarrow> 0 \<le> m_cullFace s \<and> m_cullFace s < 2 ^ 30"
    and "0 \<le> t" and "t < 2 ^ 26"
    and "0 \<le> c" and "c < 2 ^ 23"
  shows "rasterizationStateOf s t c =
     Number (m_frontFace s - 1
             + 2 * (if m_cullEnabled s then m_cullFace s else 0)
             + 8 * (if m_clampDepth s then 1 else 0)
             + 16 * (if m_alphaToCoverageEnabled s then 1 else 0)
             + 32 * t + 256 * c)"
proof -
  define cull where "cull = (if m_cullEnabled s then m_cullFace s else 0)"
  define cd :: int where "cd = (if m_clampDepth s then 1 else 0)"
  define ac :: int where "ac = (if m_alphaToCoverageEnabled s then 1 else 0)"
  have cull: "0 \<le> cull" "cull < 2 ^ 30" using assms(3) by (auto simp add: cull_def)
  have cd: "0 \<le> cd" "cd \<le> 1" by (auto simp add: cd_def)
  have ac: "0 \<le> ac" "ac \<le> 1" by (auto simp add: ac_def)
  have s1: "js_shl (Number cull) 1 = Number (cull * 2)"
    using js_shl_small[of cull 1] cull by simp
  have s3: "js_shl (Number cd) 3 = Number (cd * 8)"
    using js_shl_small[of cd 3] cd by simp
  have s4: "js_shl (Number ac) 4 = Number (ac * 16)"
    using js_shl_small[of ac 4] ac by simp
  have s5: "js_shl (Number t) 5 = Number (t * 32)"
    using js_shl_small[of t 5] assms(4,5) by simp
  have s8: "js_shl (Number c) 8 = Number (c * 256)"
    using js_shl_small[of c 8] assms(6,7) by simp
  have d0: "dbl (m_frontFace s - 1) = m_frontFace s - 1"
    using assms(1,2) by (intro dbl_small) simp
  have d1: "dbl (m_frontFace s - 1 + cull * 2) = m_frontFace s - 1 + cull * 2"
    using assms(1,2) cull by (intro dbl_small) simp
  have d2: "dbl (m_frontFace s - 1 + cull * 2 + cd * 8) = m_frontFace s - 1 + cull * 2 + cd * 8"
    using assms(1,2) cull cd by (intro dbl_small) simp
  have d3: "dbl (m_frontFace s - 1 + cull * 2 + cd * 8 + ac * 16)
     = m_frontFace s - 1 + cull * 2 + cd * 8 + ac * 16"
    using assms(1,2) cull cd ac by (intro dbl_small) simp
  have d4: "dbl (m_frontFace s - 1 + cull * 2 + cd * 8 + ac * 16 + t * 32)
     = m_frontFace s - 1 + cull * 2 + cd * 8 + ac * 16 + t * 32"
    using assms(1,2,4,5) cull cd ac by (intro dbl_small) simp
  have d5: "dbl (m_frontFace s - 1 + cull * 2 + cd * 8 + ac * 16 + t * 32 + c * 256)
     = m_frontFace s - 1 + cull * 2 + cd * 8 + ac * 16 + t * 32 + c * 256"
    using assms(1,2,4,5,6,7) cull cd ac by (intro dbl_small) simp
  have "rasterizationStateOf s t c =
     Number (m_frontFace s - 1 + cull * 2 + cd * 8 + ac * 16 + t * 32 + c * 256)"
    unfolding rasterizationStateOf_def Let_def cull_def[symmetric] cd_def[symmetric]
      ac_def[symmetric] s1 s3 s4 s5 s8
    by (simp add: d0 d1 d2 d3 d4 d5)
  then show ?thesis by (simp add: cull_def cd_def ac_def)
qed

lemma specRasterizationState_closed:
  assumes "0 \<le> m_frontFace s" and "m_frontFace s < 2 ^ 31"
    and "m_cullEnabled s \<longrightarrow> 0 \<le> m_cullFace s \<and> m_cullFace s < 2 ^ 30"
    and "0 \<le> t" and "t < 2 ^ 26"
    and "0 \<le> c" and "c < 2 ^ 23"
  shows "specRasterizationState s t c =
     Number (m_frontFace s
             + 2 * (if m_cullEnabled s then m_cullFace s else 0)
             + 8 * (if m_clampDepth s then 1 else 0)
             + 16 * (if m_alphaToCoverageEnabled s then 1 else 0)
             + 32 * t + 256 * c)"
proof -
  define cull where "cull = (if m_cullEnabled s then m_cullFace s else 0)"
  define cd :: int where "cd = (if m_clampDepth s then 1 else 0)"
  define ac :: int where "ac = (if m_alphaToCoverageEnabled s then 1 else 0)"
  have cull: "0 \<le> cull" "cull < 2 ^ 30" using assms(3) by (auto simp add: cull_def)
  have cd: "0 \<le> cd" "cd \<le> 1" by (auto simp add: cd_def)
  have ac: "0 \<le> ac" "ac \<le> 1" by (auto simp add: ac_def)
  have s1: "js_shl (Number cull) 1 = Number (cull * 2)"
    using js_shl_small[of cull 1] cull by simp
  have s3: "js_shl (Number cd) 3 = Number (cd * 8)"
    using js_shl_small[of cd 3] cd by simp
  have s4: "js_shl (Number ac) 4 = Number (ac * 16)"
    using js_shl_small[of ac 4] ac by simp
  have s5: "js_shl (Number t) 5 = Number (t * 32)"
    using js_shl_small[of t 5] assms(4,5) by simp
  have s8: "js_shl (Number c) 8 = Number (c * 256)"
    using js_shl_small[of c 8] assms(6,7) by simp
  have d1: "dbl (m_frontFace s + cull * 2) = m_frontFace s + cull * 2"
    using assms(1,2) cull by (intro dbl_small) simp
  have d2: "dbl (m_frontFace s + cull * 2 + cd * 8) = m_frontFace s + cull * 2 + cd * 8"
    using assms(1,2) cull cd by (intro dbl_small) simp
  have d3: "dbl (m_frontFace s + cull * 2 + cd * 8 + ac * 16)
     = m_frontFace s + cull * 2 + cd * 8 + ac * 16"
    using assms(1,2) cull cd ac by (intro dbl_small) simp
  have d4: "dbl (m_frontFace s + cull * 2 + cd * 8 + ac * 16 + t * 32)
     = m_frontFace s + cull * 2 + cd * 8 + ac * 16 + t * 32"
    using assms(1,2,4,5) cull cd ac by (intro dbl_small) simp
  have d5: "dbl (m_frontFace s + cull * 2 + cd * 8 + ac * 16 + t * 32 + c * 256)
     = m_frontFace s + cull * 2 + cd * 8 + ac * 16 + t * 32 + c * 256"
    using assms(1,2,4,5,6,7) cull cd ac by (intro dbl_small) simp
  have "specRasterizationState s t c =
     Number (m_frontFace s + cull * 2 + cd * 8 + ac * 16 + t * 32 + c * 256)"
    unfolding specRasterizationState_def Let_def cull_def[symmetric] cd_def[symmetric]
      ac_def[symmetric] s1 s3 s4 s5 s8
    by (simp add: d1 d2 d3 d4 d5)
  then show ?thesis by (simp add: cull_def cd_def ac_def)
qed

lemma bookkeeping_frontFace:
  assumes "bookkeeping s s'"
  shows "m_frontFace s' = m_frontFace s"
proof -
  have eq: "s' = s\<lparr>NumCacheHitWithoutHash := NumCacheHitWithoutHash s',
            NumCacheHitWithHash := NumCacheHitWithHash s',
            NumCacheMiss := NumCacheMiss s',
            m_NumPipelineCreationCurrentFrame := m_NumPipelineCreationCurrentFrame s',
            m_stateDirtyLowestIndex := m_stateDirtyLowestIndex s',
            m_isDirty := m_isDirty s',
            m_parameter_pipeline := m_parameter_pipeline s',
            store := store s',
            deviceCalls := deviceCalls s'\<rparr>"
    using assms by (simp only: bookkeeping_def)
  show ?thesis by (subst eq) simp
qed

lemma resolvedCache_facts:
  "getRenderPipeline exampleEnv acceptingDevice Indexed 0 noAttributes 1 0 newCache
     = (Inr 100, resolvedCache)"
  "\<not> m_isDirty resolvedCache"
  "m_frontFace resolvedCache = 2"
  "m_states resolvedCache RasterizationState = rasterizationStateOf newCache 0 1"
proof -
  obtain s' where G: "getRenderPipeline exampleEnv acceptingDevice Indexed 0 noAttributes 1 0 newCache
           = (Inr 100, s')"
    using newCache_first by blast
  have a: "resolvedCache = s'" unfolding resolvedCache_def G by simp
  have en: "\<not> disabled newCache" by (simp add: newCache_fields)
  obtain s3 where pr: "prepare exampleEnv 0 noAttributes 1 0 newCache = (None, s3)"
    and bk: "bookkeeping s3 s'" and nd: "\<not> m_isDirty s'"
    using getRenderPipeline_enabled_success[OF en G] by blast
  have inv: "m_states newCache RasterizationState = m_rasterizationState newCache"
    by (simp add: newCache_fields)
  show "getRenderPipeline exampleEnv acceptingDevice Indexed 0 noAttributes 1 0 newCache
     = (Inr 100, resolvedCache)" unfolding a by (rule G)
  show "\<not> m_isDirty resolvedCache" unfolding a by (rule nd)
  show "m_frontFace resolvedCache = 2"
    unfolding a
    using bookkeeping_frontFace[OF bk] recomputes_fields(16)[OF prepare_frame(1)[OF pr]]
    by (simp add: newCache_fields)
  show "m_states resolvedCache RasterizationState = rasterizationStateOf newCache 0 1"
    unfolding a using enabled_rasterization_slot[OF en G inv] by (simp add: exampleEnv_def)
qed

lemma newCache_rasterization:
  "rasterizationStateOf newCache 0 1 = Number 257"
  "specRasterizationState newCache 0 1 = Number 258"
proof -
  have r: "0 \<le> m_frontFace newCache" "m_frontFace newCache < 2 ^ 31"
    "m_cullEnabled newCache \<longrightarrow> 0 \<le> m_cullFace newCache \<and> m_cullFace newCache < 2 ^ 30"
    "(0::int) \<le> 0" "(0::int) < 2 ^ 26" "(0::int) \<le> 1" "(1::int) < 2 ^ 23"
    by (simp_all add: newCache_fields)
  show "rasterizationStateOf newCache 0 1 = Number 257"
    unfolding rasterizationStateOf_closed[OF r] by (simp add: newCache_fields)
  show "specRasterizationState newCache 0 1 = Number 258"
    unfolding specRasterizationState_closed[OF r] by (simp add: newCache_fields)
qed

lemma compare_and_mark:
  "m_depthBias s = Number v \<Longrightarrow> setDepthBias v s = s"
  "m_depthBias s \<noteq> Number v \<Longrightarrow>
     m_depthBias (setDepthBias v s) = Number v
     \<and> touched DepthBias (Number v) s (setDepthBias v s)"
  "m_depthBiasSlopeScale s = Number v \<Longrightarrow> setDepthBiasSlopeScale v s = s"
  "m_depthBiasSlopeScale s \<noteq> Number v \<Longrightarrow>
     m_depthBiasSlopeScale (setDepthBiasSlopeScale v s) = Number v
     \<and> touched DepthBiasSlopeScale (Number v) s (setDepthBiasSlopeScale v s)"
  "m_stencilReadMask s = Number v \<Longrightarrow> setStencilReadMask v s = s"
  "m_stencilReadMask s \<noteq> Number v \<Longrightarrow>
     m_stencilReadMask (setStencilReadMask v s) = Number v
     \<and> touched StencilReadMask (Number v) s (setStencilReadMask v s)"
  "m_stencilWriteMask s = Number v \<Longrightarrow> setStencilWriteMask v s = s"
  "m_stencilWriteMask s \<noteq> Number v \<Longrightarrow>
     m_stencilWriteMask (setStencilWriteMask v s) = Number v
     \<and> touched StencilWriteMask (Number v) s (setStencilWriteMask v s)"
  by (simp_all add: setDepthBias_def setDepthBiasSlopeScale_def setStencilReadMask_def
      setStencilWriteMask_def strict_neq_def touched_def)

lemma store_only:
  "storesOnly s (setFrontFace f s) \<and> m_frontFace (setFrontFace f s) = f"
  "storesOnly s (setCullFace f s) \<and> m_cullFace (setCullFace f s) = f"
  "storesOnly s (setCullEnabled b s) \<and> m_cullEnabled (setCullEnabled b s) = b"
  "storesOnly s (setClampDepth b s) \<and> m_clampDepth (setClampDepth b s) = b"
  "storesOnly s (setAlphaToCoverage b s) \<and> m_alphaToCoverageEnabled (setAlphaToCoverage b s) = b"
  "storesOnly s (setWriteMask f s) \<and> m_writeMask (setWriteMask f s) = f"
  by (simp_all add: storesOnly_def setFrontFace_def setCullFace_def setCullEnabled_def
      setClampDepth_def setAlphaToCoverage_def setWriteMask_def)

lemma setRasterizationState_dirty:
  "m_isDirty (m_setRasterizationState t c s)
     = (m_isDirty s \<or> strict_neq (m_rasterizationState s) (rasterizationStateOf s t c))"
  by (simp add: m_setRasterizationState_def Let_def)

lemma getVertexInputDescriptor_loop_ok:
  "\<forall>a \<in> set names. \<exists>v f. resolveVertexBuffer c a = Inr v
       \<and> m_GetVertexInputDescriptorFormat (vbHeap c v) = Inr f
   \<Longrightarrow> \<exists>descs. getVertexInputDescriptor_loop c locs names index cur ds = Inr descs"
proof (induction names arbitrary: index cur ds)
  case Nil
  then show ?case by simp
next
  case (Cons a names)
  from Cons.prems obtain v f where v: "resolveVertexBuffer c a = Inr v"
    and f: "m_GetVertexInputDescriptorFormat (vbHeap c v) = Inr f"
    by auto
  have rest: "\<forall>a \<in> set names. \<exists>v f. resolveVertexBuffer c a = Inr v
       \<and> m_GetVertexInputDescriptorFormat (vbHeap c v) = Inr f"
    using Cons.prems by simp
  show ?case
    using Cons.IH[OF rest] by (simp add: v f Let_def)
qed

lemma renderPipelineDescriptor_ok:
  assumes "\<forall>a \<in> set (attributeNamesFromEffect eff). \<exists>v f. resolveVertexBuffer c a = Inr v
       \<and> m_GetVertexInputDescriptorFormat (vbHeap c v) = Inr f"
  shows "\<exists>d. renderPipelineDescriptor E eff topo sc c = Inr d"
proof -
  obtain descs where "m_getVertexInputDescriptor eff c = Inr descs"
    using getVertexInputDescriptor_loop_ok[OF assms] unfolding m_getVertexInputDescriptor_def
    by blast
  then show ?thesis by (simp add: renderPipelineDescriptor_def Let_def)
qed

lemma creationState_frame:
  assumes "creationState E strat fillMode eff sc ts s c"
  shows "\<exists>m. recomputes s m \<and> heapFrame s m \<and> bookkeeping m c"
proof (cases "disabled s")
  case True
  with assms obtain s1 where v: "m_setVertexState eff s = (None, s1)"
    and c: "c = m_setTextureState ts s1"
    by (auto simp add: creationState_def)
  have f: "vertexFrame s s1" "heapFrame s s1" using m_setVertexState_frame[OF v] by blast+
  have "recomputes s c"
    unfolding c
    using recomputes_trans[OF vertexFrame_recomputes[OF f(1)] recomputes_setTextureState] .
  moreover have "heapFrame s c"
    unfolding c using heapFrame_trans[OF f(2) heapFrame_eq[OF vbHeap_steps(5)]] .
  ultimately show ?thesis using bookkeeping_refl by blast
next
  case False
  with assms obtain s3 where pr: "prepare E fillMode eff sc ts s = (None, s3)"
    and c: "c = lookedUp strat s3"
    by (auto simp add: creationState_def)
  show ?thesis
    using prepare_frame[OF pr] lookedUp_fields(1)[of s3 strat] unfolding c by blast
qed

lemma creationState_descriptor:
  assumes "creationState E strat fillMode eff sc ts s c"
    and "\<forall>a \<in> set (attributeNamesFromEffect eff). \<exists>v f. resolveVertexBuffer s a = Inr v
       \<and> m_GetVertexInputDescriptorFormat (vbHeap s v) = Inr f"
  shows "\<exists>d. renderPipelineDescriptor E eff topo sc' c = Inr d"
proof -
  obtain m where rc: "recomputes s m" and hf: "heapFrame s m" and bk: "bookkeeping m c"
    using creationState_frame[OF assms(1)] by blast
  have "\<forall>a \<in> set (attributeNamesFromEffect eff). \<exists>v f. resolveVertexBuffer c a = Inr v
       \<and> m_GetVertexInputDescriptorFormat (vbHeap c v) = Inr f"
    using assms(2)
    by (simp add: bookkeeping_fields(13,14)[OF bk] recomputes_functions(4)[OF rc]
        heapFrame_fields(6)[OF hf])
  then show ?thesis by (rule renderPipelineDescriptor_ok)
qed

lemma creation_success:
  assumes "creationState E strat fillMode eff sc ts s c"
    and "m_GetTopology E fillMode = Inr topo"
    and "renderPipelineDescriptor E eff topo (GetSample E sc) c = Inr d"
    and "dev (deviceCalls s) d = Inr p"
  shows "getRenderPipeline E dev strat fillMode eff sc ts s =
     (Inr p, created strat (disabled s) p (c\<lparr>deviceCalls := deviceCalls s @ [d]\<rparr>))"
proof -
  have dc: "deviceCalls c = deviceCalls s" using creationState_fields(1)[OF assms(1)] .
  have "m_createRenderPipeline E dev eff topo (GetSample E sc) c
     = (Inr p, c\<lparr>deviceCalls := deviceCalls s @ [d]\<rparr>)"
    by (simp add: m_createRenderPipeline_def assms(3) dc assms(4))
  then show ?thesis
    unfolding getRenderPipeline_via_creation[OF assms(1)] by (simp add: assms(2))
qed

lemma reaches_creation:
  assumes "\<forall>a \<in> set (attributeNamesFromEffect eff). \<exists>v. resolveVertexBuffer s a = Inr v"
    and "disabled s
         \<or> ((m_isDirty s \<or> m_parameter_pipeline s = None)
             \<and> (\<forall>key low. snd (lookupRP strat (store s) key low) = None))"
  shows "\<exists>c. creationState E strat fillMode eff sc ts s c"
proof (cases "disabled s")
  case True
  obtain s1 where "m_setVertexState eff s = (None, s1)"
    using m_setVertexState_ok[OF assms(1)] by blast
  then show ?thesis using True by (simp add: creationState_def)
next
  case False
  with assms(2) show ?thesis using enabled_creationState[OF False assms(1)] by blast
qed





lemmas plain_setter_defs =
  setFrontFace_def setCullFace_def setCullEnabled_def setClampDepth_def setAlphaToCoverage_def
  setWriteMask_def

lemma applySetter_fields:
  "disabled (applySetter st s) = disabled s"
  "m_states (applySetter st s) = m_states s"
  "m_isDirty (applySetter st s) = m_isDirty s"
  "m_stateDirtyLowestIndex (applySetter st s) = m_stateDirtyLowestIndex s"
  "m_rasterizationState (applySetter st s) = m_rasterizationState s"
  "m_parameter_pipeline (applySetter st s) = m_parameter_pipeline s"
  "NumCacheHitWithoutHash (applySetter st s) = NumCacheHitWithoutHash s"
  "deviceCalls (applySetter st s) = deviceCalls s"
  "m_shaderId (applySetter st s) = m_shaderId s"
  "m_depthStencilState (applySetter st s) = m_depthStencilState s"
  "m_textureState (applySetter st s) = m_textureState s"
  "m_statesLength (applySetter st s) = m_statesLength s"
  "vbHeap (applySetter st s) = vbHeap s"
  by (cases st; simp add: plain_setter_defs)+

lemma applySetter_functions:
  "depthStencilStateOf (applySetter st s) = depthStencilStateOf s"
  "resolveVertexBuffer (applySetter st s) a = resolveVertexBuffer s a"
proof -
  show "depthStencilStateOf (applySetter st s) = depthStencilStateOf s"
    by (cases st; simp add: plain_setter_defs depthStencilStateOf_def)
  show "resolveVertexBuffer (applySetter st s) a = resolveVertexBuffer s a"
    by (cases st; simp add: plain_setter_defs resolveVertexBuffer_def cong: option.case_cong)
qed

lemma applySetter_storesOnly: "storesOnly s (applySetter st s)"
  by (simp add: storesOnly_def applySetter_fields)

lemma prepare_color_slots:
  assumes "prepare E fillMode eff sc ts t = (res, s3)"
  shows "\<forall>k < 4. m_states s3 (ColorStates1 + k) = colorStateOf t k"
proof (intro allI impI)
  fix k :: nat assume k: "k < 4"
  let ?d = "m_setDepthStencilState (m_setColorStates
      (m_setRasterizationState fillMode (GetSample E sc) (m_setShaderStage (uniqueId eff) t)))"
  have d: "m_states ?d (ColorStates1 + k) = colorStateOf t k"
    using packing_result(4)[where i = "uniqueId eff" and t = fillMode and c = "GetSample E sc"
        and s = t] k by blast
  have lt: "ColorStates1 + k < VertexState" "ColorStates1 + k \<noteq> TextureStage"
    using k by (simp_all add: ColorStates1_def VertexState_def TextureStage_def)
  show "m_states s3 (ColorStates1 + k) = colorStateOf t k"
  proof (cases rule: prepare_cases[of eff fillMode E sc t ts])
    case (err e s1)
    with assms have "s3 = s1" by simp
    with m_setVertexState_below[OF err(1)] lt(1) d show ?thesis by simp
  next
    case (ok s1)
    have "m_states s1 (ColorStates1 + k) = colorStateOf t k"
      using m_setVertexState_below[OF ok(1)] lt(1) d by simp
    then show ?thesis
      using assms ok(2) lt(2) by (auto simp add: setTextureState_fields)
  qed
qed

lemma enabled_color_slots:
  assumes "\<not> disabled t"
    and "getRenderPipeline E dev strat fillMode eff sc ts t = (r, t')"
  shows "\<forall>k < 4. m_states t' (ColorStates1 + k) = colorStateOf t k"
proof -
  obtain res s3 where pr: "prepare E fillMode eff sc ts t = (res, s3)"
    and bk: "bookkeeping s3 t'"
    using enabled_bookkeeping[OF assms] by blast
  show ?thesis
    using prepare_color_slots[OF pr] bookkeeping_fields(2)[OF bk] by simp
qed

lemma packing_dirty:
  assumes "prepare E fillMode eff sc ts t = (res, s3)"
    and "m_isDirty (m_setColorStates
      (m_setRasterizationState fillMode (GetSample E sc) (m_setShaderStage (uniqueId eff) t)))"
  shows "m_isDirty s3"
proof -
  let ?c = "m_setColorStates
      (m_setRasterizationState fillMode (GetSample E sc) (m_setShaderStage (uniqueId eff) t))"
  have d: "m_isDirty (m_setDepthStencilState ?c)" using assms(2) by (rule dirty_steps(4))
  show ?thesis
  proof (cases rule: prepare_cases[of eff fillMode E sc t ts])
    case (err e s1)
    with assms(1) have "s3 = s1" by simp
    with m_setVertexState_dirty[OF err(1) d] show ?thesis by simp
  next
    case (ok s1)
    have "m_isDirty s1" using m_setVertexState_dirty[OF ok(1) d] .
    then show ?thesis using assms(1) ok(2) by (auto simp add: dirty_steps)
  qed
qed

lemma raster_change_dirty:
  assumes "strict_neq (m_rasterizationState t) (rasterizationStateOf t fillMode (GetSample E sc))"
    and "prepare E fillMode eff sc ts t = (res, s3)"
  shows "m_isDirty s3"
proof -
  let ?a = "m_setShaderStage (uniqueId eff) t"
  have "m_isDirty (m_setRasterizationState fillMode (GetSample E sc) ?a)"
    unfolding setRasterizationState_dirty
    using assms(1)
    by (simp add: setShaderStage_fields recomputes_functions[OF recomputes_setShaderStage])
  then have "m_isDirty (m_setColorStates (m_setRasterizationState fillMode (GetSample E sc) ?a))"
    by (rule dirty_steps(3))
  with assms(2) show ?thesis by (rule packing_dirty)
qed

lemma color_change_dirty:
  assumes "k < 4"
    and "strict_neq (m_states t (ColorStates1 + k)) (colorStateOf t k)"
    and "prepare E fillMode eff sc ts t = (res, s3)"
  shows "m_isDirty s3"
proof -
  let ?r = "m_setRasterizationState fillMode (GetSample E sc) (m_setShaderStage (uniqueId eff) t)"
  have rc: "recomputes t ?r"
    by (meson recomputes_trans recomputes_setShaderStage recomputes_setRasterizationState)
  have cf: "colorStateOf ?r k = colorStateOf t k" using recomputes_functions(3)[OF rc] .
  have ne: "ColorStates1 + k \<noteq> RasterizationState" "ColorStates1 + k \<noteq> ShaderStage"
    using assms(1) by (simp_all add: ColorStates1_def RasterizationState_def ShaderStage_def)
  have sl: "m_states ?r (ColorStates1 + k) = m_states t (ColorStates1 + k)"
    using ne by (simp add: setRasterizationState_fields setShaderStage_fields)
  have n: "strict_neq (m_states ?r (ColorStates1 + k)) (colorStateOf ?r k)"
    using assms(2) by (simp add: cf sl)
  have "k = 0 \<or> k = 1 \<or> k = 2 \<or> k = 3" using assms(1) by auto
  then have "m_isDirty (m_setColorStates ?r)"
    using n by (auto simp add: m_setColorStates_eq Let_def ColorStates1_def)
  with assms(3) show ?thesis by (rule packing_dirty)
qed

lemma disabled_slots:
  assumes "disabled t"
    and "getRenderPipeline E dev strat fillMode eff sc ts t = (r, t')"
  shows "\<forall>k < VertexState. k \<noteq> TextureStage \<longrightarrow> m_states t' k = m_states t k"
proof (cases "m_GetTopology E fillMode")
  case (Inl e)
  with assms show ?thesis by (simp add: getRenderPipeline_disabled)
next
  case (Inr topo)
  note g = assms(2)[unfolded getRenderPipeline_disabled[OF assms(1)] Inr, simplified]
  obtain rv s1 where v: "m_setVertexState eff t = (rv, s1)" by (metis surj_pair)
  note b = m_setVertexState_below[OF v]
  show ?thesis
  proof (cases rv)
    case (Some e)
    with g v have "t' = s1" by simp
    with b show ?thesis by simp
  next
    case None
    let ?c = "m_setTextureState ts s1"
    have c: "\<forall>k < VertexState. k \<noteq> TextureStage \<longrightarrow> m_states ?c k = m_states t k"
      using b by (simp add: setTextureState_fields)
    obtain r5 s5 where cr: "m_createRenderPipeline E dev eff topo (GetSample E sc) ?c = (r5, s5)"
      by (metis surj_pair)
    have s5: "m_states s5 = m_states ?c"
      using cr by (cases rule: m_createRenderPipeline_cases) simp_all
    have "m_states t' = m_states s5"
      using g v None cr by (cases r5) auto
    with s5 c show ?thesis by simp
  qed
qed

lemma inSync_transfer:
  assumes "inSync E f eff sc ts s"
    and "m_shaderId t = m_shaderId s"
    and "m_rasterizationState t = m_rasterizationState s"
    and "rasterizationStateOf t f (GetSample E sc) = rasterizationStateOf s f (GetSample E sc)"
    and "m_states t = m_states s"
    and "\<forall>k < 4. colorStateOf t k = colorStateOf s k"
    and "m_depthStencilState t = m_depthStencilState s"
    and "depthStencilStateOf t = depthStencilStateOf s"
    and "m_textureState t = m_textureState s"
    and "m_statesLength t = m_statesLength s"
    and "vbHeap t = vbHeap s"
    and "\<And>a. resolveVertexBuffer t a = resolveVertexBuffer s a"
  shows "inSync E f eff sc ts t"
proof -
  have i1: "m_shaderId s = Number (uniqueId eff)"
    and i2: "m_rasterizationState s = rasterizationStateOf s f (GetSample E sc)"
    and i3: "\<forall>k < 4. m_states s (ColorStates1 + k) = colorStateOf s k"
    and i4: "m_depthStencilState s = depthStencilStateOf s"
    and i5: "m_textureState s = Number ts"
    and i6: "m_statesLength s = VertexState + length (attributeNamesFromEffect eff)"
    and i7: "\<forall>j < length (attributeNamesFromEffect eff).
           m_states s (VertexState + j) =
             vidAt s (attributeLocationsFromEffect eff) j
               (refOf s (attributeNamesFromEffect eff ! j))"
    and i8: "\<forall>a \<in> set (attributeNamesFromEffect eff). \<exists>r. resolveVertexBuffer s a = Inr r"
    using assms(1) unfolding inSync_def by blast+
  have v: "vidAt t locs j r = vidAt s locs j r" for locs j r
    by (simp add: vidAt_def assms(11))
  have rf: "refOf t a = refOf s a" for a by (simp add: refOf_def assms(12))
  have c3: "\<forall>k < 4. m_states t (ColorStates1 + k) = colorStateOf t k"
    using i3 assms(5,6) by simp
  show ?thesis
    unfolding inSync_def
    using i1 i2 c3 i4 i5 i6 i7 i8
    by (simp add: assms(2,3,4,5,7,8,9,10,12) v rf)
qed

lemma unnoticed_setter:
  assumes "\<not> disabled s"
    and "getRenderPipeline E dev strat fillMode eff sc ts (applySetter st s) = (r, s')"
    and "inSync E fillMode eff sc ts s" and "\<not> m_isDirty s"
    and "m_parameter_pipeline s = Some p"
    and "depthStencilStateOf s \<noteq> NaN" and "\<forall>k < 4. colorStateOf s k \<noteq> NaN"
    and "rasterizationStateOf (applySetter st s) fillMode (GetSample E sc)
           = rasterizationStateOf s fillMode (GetSample E sc)"
    and "\<forall>k < 4. colorStateOf (applySetter st s) k = colorStateOf s k"
  shows "r = Inr p \<and> NumCacheHitWithoutHash s' = NumCacheHitWithoutHash s + 1
     \<and> deviceCalls s' = deviceCalls s"
proof -
  let ?t = "applySetter st s"
  have sync: "inSync E fillMode eff sc ts ?t"
    using assms(3)
  proof (rule inSync_transfer)
    show "rasterizationStateOf ?t fillMode (GetSample E sc)
           = rasterizationStateOf s fillMode (GetSample E sc)" by (rule assms(8))
    show "\<forall>k < 4. colorStateOf ?t k = colorStateOf s k" by (rule assms(9))
  qed (simp_all add: applySetter_fields applySetter_functions)
  have en: "\<not> disabled ?t" using assms(1) by (simp add: applySetter_fields)
  have nd: "\<not> m_isDirty ?t" using assms(4) by (simp add: applySetter_fields)
  have mm: "m_parameter_pipeline ?t = Some p" using assms(5) by (simp add: applySetter_fields)
  have n1: "depthStencilStateOf ?t \<noteq> NaN" using assms(6) by (simp add: applySetter_functions)
  have n2: "\<forall>k < 4. colorStateOf ?t k \<noteq> NaN" using assms(7,9) by simp
  obtain t3 where pr: "prepare E fillMode eff sc ts ?t = (None, t3)"
    and g: "getRenderPipeline E dev strat fillMode eff sc ts ?t =
         (Inr p, t3\<lparr>m_stateDirtyLowestIndex := m_statesLength t3,
                    NumCacheHitWithoutHash := NumCacheHitWithoutHash t3 + 1\<rparr>)"
    using memo_hit[OF en sync nd mm n1 n2, of dev strat] by blast
  note rf = recomputes_fields[OF prepare_frame(1)[OF pr]]
  show ?thesis
    using assms(2) unfolding g using rf(2,3) by (auto simp add: applySetter_fields)
qed

lemma recomputes_writeMask:
  assumes "recomputes s s'"
  shows "m_writeMask s' = m_writeMask s"
proof -
  have eq: "s' = s\<lparr>m_states := m_states s', m_statesLength := m_statesLength s',
            m_stateDirtyLowestIndex := m_stateDirtyLowestIndex s',
            lastStateDirtyLowestIndex := lastStateDirtyLowestIndex s',
            m_isDirty := m_isDirty s',
            m_shaderId := m_shaderId s', m_rasterizationState := m_rasterizationState s',
            m_depthStencilState := m_depthStencilState s', m_textureState := m_textureState s',
            vertexBuffers := vertexBuffers s', vbHeap := vbHeap s'\<rparr>"
    using assms by (simp only: recomputes_def)
  show ?thesis by (subst eq) simp
qed

lemma bookkeeping_plain:
  assumes "bookkeeping s s'"
  shows "m_cullEnabled s' = m_cullEnabled s"
    and "m_cullFace s' = m_cullFace s"
    and "m_clampDepth s' = m_clampDepth s"
    and "m_alphaToCoverageEnabled s' = m_alphaToCoverageEnabled s"
    and "m_writeMask s' = m_writeMask s"
proof -
  have eq: "s' = s\<lparr>NumCacheHitWithoutHash := NumCacheHitWithoutHash s',
            NumCacheHitWithHash := NumCacheHitWithHash s',
            NumCacheMiss := NumCacheMiss s',
            m_NumPipelineCreationCurrentFrame := m_NumPipelineCreationCurrentFrame s',
            m_stateDirtyLowestIndex := m_stateDirtyLowestIndex s',
            m_isDirty := m_isDirty s',
            m_parameter_pipeline := m_parameter_pipeline s',
            store := store s',
            deviceCalls := deviceCalls s'\<rparr>"
    using assms by (simp only: bookkeeping_def)
  show "m_cullEnabled s' = m_cullEnabled s" by (subst eq) simp
  show "m_cullFace s' = m_cullFace s" by (subst eq) simp
  show "m_clampDepth s' = m_clampDepth s" by (subst eq) simp
  show "m_alphaToCoverageEnabled s' = m_alphaToCoverageEnabled s" by (subst eq) simp
  show "m_writeMask s' = m_writeMask s" by (subst eq) simp
qed

lemma resolvedCache_state:
  "\<not> disabled resolvedCache"
  "inSync exampleEnv 0 noAttributes 1 0 resolvedCache"
  "m_parameter_pipeline resolvedCache = Some 100"
  "depthStencilStateOf resolvedCache \<noteq> NaN"
  "\<forall>k < 4. colorStateOf resolvedCache k \<noteq> NaN"
  "m_rasterizationState resolvedCache = Number 257"
  "m_states resolvedCache RasterizationState = Number 257"
  "NumCacheHitWithoutHash resolvedCache = 0"
  "\<not> m_cullEnabled resolvedCache"
  "\<not> m_clampDepth resolvedCache"
  "\<not> m_alphaToCoverageEnabled resolvedCache"
  "m_writeMask resolvedCache = 15"
proof -
  note G = resolvedCache_facts(1)
  have en: "\<not> disabled newCache" by (simp add: newCache_fields)
  obtain s3 where pr: "prepare exampleEnv 0 noAttributes 1 0 newCache = (None, s3)"
    and bk: "bookkeeping s3 resolvedCache"
    and mm: "m_parameter_pipeline resolvedCache = Some 100"
    using getRenderPipeline_enabled_success[OF en G] by blast
  note rc = prepare_frame(1)[OF pr]
  note rf = recomputes_fields[OF rc]
  note rfun = recomputes_functions[OF rc]
  note bf = bookkeeping_fields[OF bk]
  note bp = bookkeeping_plain[OF bk]
  have sync: "inSync exampleEnv 0 noAttributes 1 0 resolvedCache"
    using prepare_inSync[OF pr] bookkeeping_inSync[OF bk] by simp
  have gs: "GetSample exampleEnv 1 = 1" by (simp add: exampleEnv_def)
  have ro: "rasterizationStateOf resolvedCache t c = rasterizationStateOf newCache t c" for t c
    using bf(12) rfun(1) by simp
  show "\<not> disabled resolvedCache" using bf(1) rf(8) en by simp
  show "inSync exampleEnv 0 noAttributes 1 0 resolvedCache" by (rule sync)
  show "m_parameter_pipeline resolvedCache = Some 100" by (rule mm)
  show "depthStencilStateOf resolvedCache \<noteq> NaN"
    using bf(10) rfun(2) newCache_numbers(1) by simp
  show "\<forall>k < 4. colorStateOf resolvedCache k \<noteq> NaN"
    using bf(11) rfun(3) newCache_numbers(2) by simp
  show "m_rasterizationState resolvedCache = Number 257"
    using sync unfolding inSync_def gs ro by (simp add: newCache_rasterization(1))
  show "m_states resolvedCache RasterizationState = Number 257"
    using resolvedCache_facts(4) newCache_rasterization(1) by simp
  show "NumCacheHitWithoutHash resolvedCache = 0"
    using newCache_first G by auto
  show "\<not> m_cullEnabled resolvedCache" using bp(1) rf(17) by (simp add: newCache_fields)
  show "\<not> m_clampDepth resolvedCache" using bp(3) rf(19) by (simp add: newCache_fields)
  show "\<not> m_alphaToCoverageEnabled resolvedCache"
    using bp(4) rf(20) by (simp add: newCache_fields)
  show "m_writeMask resolvedCache = 15"
    using bp(5) recomputes_writeMask[OF rc] by (simp add: newCache_fields)
qed

lemma front_face_repacked:
  "rasterizationStateOf (applySetter (SetFrontFace 1) resolvedCache) 0 1 = Number 256"
proof -
  let ?t = "setFrontFace 1 resolvedCache"
  have f: "m_frontFace ?t = 1" "\<not> m_cullEnabled ?t" "\<not> m_clampDepth ?t"
    "\<not> m_alphaToCoverageEnabled ?t"
    by (simp_all add: setFrontFace_def resolvedCache_state)
  have h: "0 \<le> m_frontFace ?t" "m_frontFace ?t < 2 ^ 31"
    "m_cullEnabled ?t \<longrightarrow> 0 \<le> m_cullFace ?t \<and> m_cullFace ?t < 2 ^ 30"
    "(0::int) \<le> 0" "(0::int) < 2 ^ 26" "(0::int) \<le> 1" "(1::int) < 2 ^ 23"
    by (simp_all add: f)
  show ?thesis
    unfolding applySetter.simps rasterizationStateOf_closed[OF h] by (simp add: f)
qed

lemma write_mask_not_packed:
  "rasterizationStateOf (applySetter (SetWriteMask 7) resolvedCache) t c
     = rasterizationStateOf resolvedCache t c"
  "colorStateOf (applySetter (SetWriteMask 7) resolvedCache) k = colorStateOf resolvedCache k"
proof -
  show "rasterizationStateOf (applySetter (SetWriteMask 7) resolvedCache) t c
     = rasterizationStateOf resolvedCache t c"
    by (simp add: rasterizationStateOf_def setWriteMask_def)
  have a: "addTarget (setWriteMask 7 resolvedCache) i x = addTarget resolvedCache i x" for i x
    by (simp add: addTarget_def blendEnabled_def blendTargetBits_def setWriteMask_def)
  have b: "colorStateInit (setWriteMask 7 resolvedCache) = colorStateInit resolvedCache"
    by (simp add: colorStateInit_def setWriteMask_def resolvedCache_state(12))
  show "colorStateOf (applySetter (SetWriteMask 7) resolvedCache) k = colorStateOf resolvedCache k"
    by (simp add: colorStateOf_def a b)
qed

lemma blendSrcColor_fields:
  "m_writeMask blendSrcColor = 0xf"
  "m_depthWriteEnabled blendSrcColor = True"
  "m_colorFormat blendSrcColor = Number 13"
  "m_alphaBlendEnabled blendSrcColor = [True]"
  "m_alphaBlendFuncParams blendSrcColor = [Some 0x0300, None, None, None]"
  "m_alphaBlendEqParams blendSrcColor = [None, None]"
  by (simp_all add: blendSrcColor_def setAlphaBlendFactors_def setAlphaBlendEnabled_def
      newCache_fields)

lemma blendOneMinusSrcColor_fields:
  "m_writeMask blendOneMinusSrcColor = 0xf"
  "m_depthWriteEnabled blendOneMinusSrcColor = True"
  "m_colorFormat blendOneMinusSrcColor = Number 13"
  "m_alphaBlendEnabled blendOneMinusSrcColor = [True]"
  "m_alphaBlendFuncParams blendOneMinusSrcColor = [Some 0x0301, None, None, None]"
  "m_alphaBlendEqParams blendOneMinusSrcColor = [None, None]"
  by (simp_all add: blendOneMinusSrcColor_def setAlphaBlendFactors_def setAlphaBlendEnabled_def
      newCache_fields)

lemma dbl_values:
  "dbl 9007199254774819 = 9007199254774820"
  "dbl 9007199254774820 = 9007199254774820"
  "dbl 9007199254740992 = 9007199254740992"
  by code_simp+

lemma blendTarget0_fields:
  "m_writeMask blendTarget0 = 0"
  "m_depthWriteEnabled blendTarget0 = True"
  "m_colorFormat blendTarget0 = Number 13"
  "m_alphaBlendEnabled blendTarget0 = [True, False]"
  "m_alphaBlendFuncParams blendTarget0 = [None, None, None, None, None, None, None, None]"
  "m_alphaBlendEqParams blendTarget0 = [None, None, None, None]"
  by (simp_all add: blendTarget0_def setAlphaBlendFactors_def setAlphaBlendEnabled_def
      setWriteMask_def newCache_fields numeral_eq_Suc)

lemma blendTarget1_fields:
  "m_writeMask blendTarget1 = 0"
  "m_depthWriteEnabled blendTarget1 = True"
  "m_colorFormat blendTarget1 = Number 13"
  "m_alphaBlendEnabled blendTarget1 = [False, True]"
  "m_alphaBlendFuncParams blendTarget1 = [None, None, None, None, None, None, None, None]"
  "m_alphaBlendEqParams blendTarget1 = [None, None, None, None]"
  by (simp_all add: blendTarget1_def setAlphaBlendFactors_def setAlphaBlendEnabled_def
      setWriteMask_def newCache_fields numeral_eq_Suc)

lemmas colorState_eval =
  colorStateOf_def addTarget_def blendEnabled_def blendTargetBits_def
  colorStateInit_def tableIndex_def js_index_def alphaBlendFactorToIndex_def
  alphaBlendEquationToIndex_def js_shl_def ToInt32_def js_and_def dbl_small dbl_values Let_def

lemma blendSrcColor_slots:
  "colorStateOf blendSrcColor 0 = Number 9007199254774820"
  "colorStateOf blendSrcColor (Suc 0) = Number 9007199254740992"
  "colorStateOf blendSrcColor 2 = Number 5629499534213120"
  "colorStateOf blendSrcColor 3 = Number 1125899906842624"
  by (simp_all add: colorState_eval blendSrcColor_fields)

lemma blendOneMinusSrcColor_slots:
  "colorStateOf blendOneMinusSrcColor 0 = Number 9007199254774820"
  "colorStateOf blendOneMinusSrcColor (Suc 0) = Number 9007199254740992"
  "colorStateOf blendOneMinusSrcColor 2 = Number 5629499534213120"
  "colorStateOf blendOneMinusSrcColor 3 = Number 1125899906842624"
  by (simp_all add: colorState_eval blendOneMinusSrcColor_fields)

lemma blendTarget0_slots:
  "colorStateOf blendTarget0 0 = Number 33825"
  "colorStateOf blendTarget0 (Suc 0) = Number 9007199254740992"
  "colorStateOf blendTarget0 2 = Number 5629499534213120"
  "colorStateOf blendTarget0 3 = Number 1125899906842624"
  by (simp_all add: colorState_eval blendTarget0_fields)

lemma blendTarget1_slots:
  "colorStateOf blendTarget1 0 = Number 33825"
  "colorStateOf blendTarget1 (Suc 0) = Number 9007199254740992"
  "colorStateOf blendTarget1 2 = Number 5629499534213120"
  "colorStateOf blendTarget1 3 = Number 1125899906842624"
  by (simp_all add: colorState_eval blendTarget1_fields)

lemma blend_descriptors:
  "m_getColorBlendState blendSrcColor 0
     = Some \<lparr>srcFactor = BF_Src, dstFactor = BF_One, operation = BO_Add\<rparr>"
  "m_getColorBlendState blendOneMinusSrcColor 0
     = Some \<lparr>srcFactor = BF_OneMinusSrc, dstFactor = BF_One, operation = BO_Add\<rparr>"
  "m_getAphaBlendState blendTarget0 0
     = Some \<lparr>srcFactor = BF_One, dstFactor = BF_One, operation = BO_Add\<rparr>"
  "m_getAphaBlendState blendTarget1 0 = None"
  by (simp_all add: m_getColorBlendState_def m_getAphaBlendState_def blendParam_def js_index_def
      m_GetAphaBlendFactor_def m_GetAphaBlendOperation_def blendSrcColor_fields
      blendOneMinusSrcColor_fields blendTarget0_fields blendTarget1_fields)

lemma entryOf_append_lt:
  "i < length (attributesOf ds) \<Longrightarrow> entryOf (ds @ xs) i = entryOf ds i"
proof (induction ds arbitrary: i)
  case Nil
  then show ?case by (simp add: attributesOf_def)
next
  case (Cons d ds)
  show ?case
  proof (cases "i < length (attributes d)")
    case True
    then show ?thesis by simp
  next
    case False
    then have "i - length (attributes d) < length (attributesOf ds)"
      using Cons.prems by (simp add: attributesOf_def)
    from Cons.IH[OF this] False show ?thesis by simp
  qed
qed

lemma entryOf_append_ge:
  "entryOf (ds @ xs) (length (attributesOf ds) + k) = length ds + entryOf xs k"
  by (induction ds) (simp_all add: attributesOf_def)

lemma pushAttribute_snoc:
  "pushAttribute (ds @ [l]) a = ds @ [l\<lparr>attributes := attributes l @ [a]\<rparr>]"
  by (simp add: pushAttribute_def)

lemma attributesOf_snoc:
  "attributesOf (ds @ [l]) = attributesOf ds @ attributes l"
  by (simp add: attributesOf_def)

lemma pushAttribute_step:
  assumes "descs1 \<noteq> []"
  shows "attributesOf (pushAttribute descs1 a) = attributesOf descs1 @ [a]"
    and "length (pushAttribute descs1 a) = length descs1"
    and "i < length (attributesOf descs1) \<Longrightarrow> entryOf (pushAttribute descs1 a) i = entryOf descs1 i"
    and "entryOf (pushAttribute descs1 a) (length (attributesOf descs1)) = length descs1 - 1"
proof -
  obtain ds l where d: "descs1 = ds @ [l]"
    using assms by (metis append_butlast_last_id)
  let ?l = "l\<lparr>attributes := attributes l @ [a]\<rparr>"
  note p = pushAttribute_snoc
  show "attributesOf (pushAttribute descs1 a) = attributesOf descs1 @ [a]"
    unfolding d p by (simp add: attributesOf_snoc)
  show "length (pushAttribute descs1 a) = length descs1"
    unfolding d p by simp
  show "entryOf (pushAttribute descs1 a) (length (attributesOf descs1)) = length descs1 - 1"
    unfolding d p attributesOf_snoc length_append entryOf_append_ge by simp
  show "entryOf (pushAttribute descs1 a) i = entryOf descs1 i"
    if "i < length (attributesOf descs1)"
  proof (cases "i < length (attributesOf ds)")
    case True
    show ?thesis unfolding d p by (simp add: entryOf_append_lt[OF True])
  next
    case False
    then obtain k where k: "i = length (attributesOf ds) + k"
      using le_Suc_ex not_less by blast
    have "k < length (attributes l)" using that unfolding d attributesOf_snoc k by simp
    then show ?thesis unfolding d p k entryOf_append_ge by simp
  qed
qed

lemma getVertexInputDescriptor_loop_Cons:
  assumes "resolveVertexBuffer c a = Inr r"
    and "m_GetVertexInputDescriptorFormat (vbHeap c r) = Inr fmt"
  shows "getVertexInputDescriptor_loop c locs (a # rest) index cur descs =
     getVertexInputDescriptor_loop c locs rest (index + 1) (nextBuffer c r)
       (pushAttribute (if startsEntry c cur descs r then descs @ [layoutFor c r] else descs)
          (attributeFor c locs index r fmt))"
  using assms
  by (auto simp add: Let_def startsEntry_def nextBuffer_def layoutFor_def attributeFor_def)

lemma getVertexInputDescriptor_loop_Inr:
  assumes "getVertexInputDescriptor_loop c locs (a # rest) index cur descs = Inr out"
  obtains r fmt where "resolveVertexBuffer c a = Inr r"
    and "m_GetVertexInputDescriptorFormat (vbHeap c r) = Inr fmt"
  using assms by (auto simp add: Let_def split: sum.splits)

lemma entry_step:
  assumes "descs' = pushAttribute (if fresh then descs @ [l] else descs) a"
    and "attributes l = []"
    and "\<not> fresh \<longrightarrow> descs \<noteq> []"
  shows "attributesOf descs' = attributesOf descs @ [a]"
    and "length descs' = (if fresh then length descs + 1 else length descs)"
    and "descs' \<noteq> []"
    and "\<forall>i < length (attributesOf descs). entryOf descs' i = entryOf descs i"
    and "entryOf descs' (length (attributesOf descs)) = length descs' - 1"
proof -
  let ?d1 = "if fresh then descs @ [l] else descs"
  have ne: "?d1 \<noteq> []" using assms(3) by simp
  have at: "attributesOf ?d1 = attributesOf descs"
    using assms(2) by (simp add: attributesOf_snoc)
  note st = pushAttribute_step[OF ne, where a = a]
  show "attributesOf descs' = attributesOf descs @ [a]"
    unfolding assms(1) st(1) at ..
  show len: "length descs' = (if fresh then length descs + 1 else length descs)"
    unfolding assms(1) st(2) by simp
  show "descs' \<noteq> []" using len assms(3) by (cases fresh) auto
  show "\<forall>i < length (attributesOf descs). entryOf descs' i = entryOf descs i"
  proof (intro allI impI)
    fix i assume i: "i < length (attributesOf descs)"
    then have "i < length (attributesOf ?d1)" unfolding at .
    from st(3)[OF this] have "entryOf descs' i = entryOf ?d1 i" unfolding assms(1) .
    also have "\<dots> = entryOf descs i" using entryOf_append_lt[OF i] by simp
    finally show "entryOf descs' i = entryOf descs i" .
  qed
  show "entryOf descs' (length (attributesOf descs)) = length descs' - 1"
    using st(4) unfolding at assms(1) st(2) .
qed

lemma startsEntry_next:
  "descs \<noteq> [] \<Longrightarrow>
   startsEntry c (nextBuffer c r) descs r2 \<longleftrightarrow>
     \<not> (validOffsetRange (vbHeap c r) = Some True
        \<and> underlyingResource (vbHeap c r) \<noteq> None
        \<and> underlyingResource (vbHeap c r) = underlyingResource (vbHeap c r2)
        \<and> validOffsetRange (vbHeap c r2) = Some True)"
  by (auto simp add: startsEntry_def nextBuffer_def)

lemma refOf_Inr: "resolveVertexBuffer c a = Inr r \<Longrightarrow> refOf c a = r"
  by (simp add: refOf_def)

lemma getVertexInputDescriptor_loop_entries:
  assumes "getVertexInputDescriptor_loop c locs names index cur descs = Inr out"
  shows "map shaderLocation (attributesOf out) =
           map shaderLocation (attributesOf descs)
           @ map (attributeLocation locs) [index..<index + length names]
     \<and> (\<forall>i < length (attributesOf descs). entryOf out i = entryOf descs i)
     \<and> (names \<noteq> [] \<longrightarrow>
          entryOf out (length (attributesOf descs)) =
            (if startsEntry c cur descs (refOf c (hd names)) then length descs
             else length descs - 1))
     \<and> (\<forall>j. j + 1 < length names \<longrightarrow>
          entryOf out (length (attributesOf descs) + j + 1) =
            entryOf out (length (attributesOf descs) + j)
            + (if validOffsetRange (vbHeap c (refOf c (names ! j))) = Some True
                  \<and> underlyingResource (vbHeap c (refOf c (names ! j))) \<noteq> None
                  \<and> underlyingResource (vbHeap c (refOf c (names ! j)))
                      = underlyingResource (vbHeap c (refOf c (names ! (j + 1))))
                  \<and> validOffsetRange (vbHeap c (refOf c (names ! (j + 1)))) = Some True
               then 0 else 1))
     \<and> length out =
          (if names = [] then length descs
           else entryOf out (length (attributesOf descs) + length names - 1) + 1)"
  using assms
proof (induction names arbitrary: index cur descs)
  case Nil
  then show ?case by simp
next
  case (Cons a rest)
  from Cons.prems obtain r fmt where r: "resolveVertexBuffer c a = Inr r"
    and f: "m_GetVertexInputDescriptorFormat (vbHeap c r) = Inr fmt"
    by (rule getVertexInputDescriptor_loop_Inr)
  define fresh where "fresh = startsEntry c cur descs r"
  define att where "att = attributeFor c locs index r fmt"
  define descs' where
    "descs' = pushAttribute (if fresh then descs @ [layoutFor c r] else descs) att"
  define T where "T = length (attributesOf descs)"
  have step: "getVertexInputDescriptor_loop c locs rest (index + 1) (nextBuffer c r) descs'
      = Inr out"
    using Cons.prems
    unfolding getVertexInputDescriptor_loop_Cons[OF r f] descs'_def fresh_def att_def .
  have l0: "attributes (layoutFor c r) = []" by (simp add: layoutFor_def)
  have nf: "\<not> fresh \<longrightarrow> descs \<noteq> []" by (auto simp add: fresh_def startsEntry_def)
  note S = entry_step[OF descs'_def l0 nf]
  have T': "length (attributesOf descs') = T + 1" unfolding S(1) T_def by simp
  note IH = Cons.IH[OF step, unfolded T']
  have I1: "map shaderLocation (attributesOf out) =
           map shaderLocation (attributesOf descs')
           @ map (attributeLocation locs) [index + 1..<index + 1 + length rest]"
    using IH by blast
  have I2: "\<forall>i < T + 1. entryOf out i = entryOf descs' i" using IH by blast
  have I3: "rest \<noteq> [] \<longrightarrow>
          entryOf out (T + 1) =
            (if startsEntry c (nextBuffer c r) descs' (refOf c (hd rest)) then length descs'
             else length descs' - 1)"
    using IH by blast
  have I4: "\<forall>j. j + 1 < length rest \<longrightarrow>
          entryOf out (T + 1 + j + 1) =
            entryOf out (T + 1 + j)
            + (if validOffsetRange (vbHeap c (refOf c (rest ! j))) = Some True
                  \<and> underlyingResource (vbHeap c (refOf c (rest ! j))) \<noteq> None
                  \<and> underlyingResource (vbHeap c (refOf c (rest ! j)))
                      = underlyingResource (vbHeap c (refOf c (rest ! (j + 1))))
                  \<and> validOffsetRange (vbHeap c (refOf c (rest ! (j + 1)))) = Some True
               then 0 else 1)"
    using IH by blast
  have I5: "length out =
          (if rest = [] then length descs' else entryOf out (T + 1 + length rest - 1) + 1)"
    using IH by blast
  have ra: "refOf c a = r" using r by (rule refOf_Inr)
  have eT: "entryOf out T = length descs' - 1"
    using I2 S(5) unfolding T_def by simp
  have pos: "0 < length descs'" using S(3) by simp
  have G1: "map shaderLocation (attributesOf out) =
           map shaderLocation (attributesOf descs)
           @ map (attributeLocation locs) [index..<index + length (a # rest)]"
  proof -
    have "index < index + length (a # rest)" by simp
    from upt_conv_Cons[OF this]
    have "[index..<index + length (a # rest)] = index # [index + 1..<index + 1 + length rest]"
      by simp
    moreover have "shaderLocation att = attributeLocation locs index"
      by (simp add: att_def attributeFor_def)
    ultimately show ?thesis unfolding I1 S(1) by simp
  qed
  have G2: "\<forall>i < T. entryOf out i = entryOf descs i"
    using I2 S(4) unfolding T_def by simp
  have G3: "entryOf out T =
            (if startsEntry c cur descs (refOf c (hd (a # rest))) then length descs
             else length descs - 1)"
    unfolding eT S(2) using ra by (simp add: fresh_def)
  have G4: "entryOf out (T + j + 1) =
            entryOf out (T + j)
            + (if validOffsetRange (vbHeap c (refOf c ((a # rest) ! j))) = Some True
                  \<and> underlyingResource (vbHeap c (refOf c ((a # rest) ! j))) \<noteq> None
                  \<and> underlyingResource (vbHeap c (refOf c ((a # rest) ! j)))
                      = underlyingResource (vbHeap c (refOf c ((a # rest) ! (j + 1))))
                  \<and> validOffsetRange (vbHeap c (refOf c ((a # rest) ! (j + 1)))) = Some True
               then 0 else 1)"
    if j: "j + 1 < length (a # rest)" for j
  proof (cases j)
    case 0
    then have ne: "rest \<noteq> []" using j by auto
    then have hd: "hd rest = rest ! 0" by (simp add: hd_conv_nth)
    have "entryOf out (T + 1) =
        (if startsEntry c (nextBuffer c r) descs' (refOf c (rest ! 0)) then length descs'
         else length descs' - 1)"
      using I3 ne hd by simp
    then show ?thesis
      unfolding 0 startsEntry_next[OF S(3)] using eT pos ra by auto
  next
    case (Suc k)
    then have "k + 1 < length rest" using j by simp
    with I4 show ?thesis unfolding Suc by simp
  qed
  have G5: "length out =
          (if a # rest = [] then length descs
           else entryOf out (T + length (a # rest) - 1) + 1)"
  proof (cases "rest = []")
    case True
    then show ?thesis using I5 eT pos by simp
  next
    case False
    then show ?thesis using I5 by simp
  qed
  show ?case
    unfolding T_def[symmetric] using G1 G2 G3 G4 G5 by blast
qed

lemma withMemo_memo:
  "memoOf (withMemo s r) r' = memoOf s r'"
  "validOffsetRange (vbHeap (withMemo s r) r) = memoOf s r"
  "validOffsetRange (vbHeap s r') \<noteq> None
     \<Longrightarrow> validOffsetRange (vbHeap (withMemo s r) r') = validOffsetRange (vbHeap s r')"
  by (auto simp add: memoOf_def withMemo_def validOffsetRangeOf_def split: option.splits)

lemma withMemo_stride: "m_kMaxVertexBufferStride (withMemo s r) = m_kMaxVertexBufferStride s"
  by (simp add: withMemo_def)

lemma stepState_heap:
  "vbHeap (stepState s locs index cur num nn r) = vbHeap (withMemo s r)"
  "m_kMaxVertexBufferStride (stepState s locs index cur num nn r) = m_kMaxVertexBufferStride s"
  by (simp_all add: stepState_def withMemo_def Let_def)

lemma stepState_memo:
  "memoOf (stepState s locs index cur num nn r) r' = memoOf s r'"
  "validOffsetRange (vbHeap (stepState s locs index cur num nn r) r) = memoOf s r"
  "validOffsetRange (vbHeap s r') \<noteq> None
     \<Longrightarrow> validOffsetRange (vbHeap (stepState s locs index cur num nn r) r')
         = validOffsetRange (vbHeap s r')"
proof -
  have "memoOf (stepState s locs index cur num nn r) r' = memoOf (withMemo s r) r'"
    unfolding memoOf_def stepState_heap withMemo_stride ..
  then show "memoOf (stepState s locs index cur num nn r) r' = memoOf s r'"
    by (simp add: withMemo_memo(1))
  show "validOffsetRange (vbHeap (stepState s locs index cur num nn r) r) = memoOf s r"
    unfolding stepState_heap by (rule withMemo_memo(2))
  show "validOffsetRange (vbHeap (stepState s locs index cur num nn r) r')
         = validOffsetRange (vbHeap s r')"
    if "validOffsetRange (vbHeap s r') \<noteq> None"
    unfolding stepState_heap using that by (rule withMemo_memo(3))
qed

lemma memoOf_Some: "\<exists>b. memoOf s r = Some b"
  by (simp add: memoOf_def split: option.splits)

lemma memoOf_set:
  "validOffsetRange (vbHeap s r) \<noteq> None \<Longrightarrow> memoOf s r = validOffsetRange (vbHeap s r)"
  by (auto simp add: memoOf_def)

lemma setVertexState_loop_memo:
  "setVertexState_loop locs names index carry s = (None, out, s1)
     \<Longrightarrow> (\<forall>r. memoOf s1 r = memoOf s r)
       \<and> (\<forall>r. validOffsetRange (vbHeap s r) \<noteq> None
              \<longrightarrow> validOffsetRange (vbHeap s1 r) = validOffsetRange (vbHeap s r))
       \<and> (\<forall>a \<in> set names. validOffsetRange (vbHeap s1 (refOf s a)) = memoOf s (refOf s a))"
proof (induction names arbitrary: index carry s)
  case Nil
  then show ?case by (cases carry) simp
next
  case (Cons a names)
  obtain cur num nn where carry: "carry = (cur, num, nn)" by (cases carry) auto
  show ?case
  proof (cases "resolveVertexBuffer s a")
    case (Inl e)
    with Cons.prems carry show ?thesis by simp
  next
    case (Inr r)
    let ?t = "stepState s locs index cur num nn r"
    from Cons.prems have step: "setVertexState_loop locs names (index + 1)
       (stepCarry s cur num nn r) ?t = (None, out, s1)"
      unfolding carry setVertexState_loop_Cons[OF Inr] .
    have fr: "recomputes s ?t"
      using stepState_frame(1) vertexFrame_recomputes by blast
    note IH = Cons.IH[OF step]
    have m: "\<forall>r'. memoOf s1 r' = memoOf s r'"
      using IH by (simp add: stepState_memo(1))
    have k: "\<forall>r'. validOffsetRange (vbHeap s r') \<noteq> None
              \<longrightarrow> validOffsetRange (vbHeap s1 r') = validOffsetRange (vbHeap s r')"
    proof (intro allI impI)
      fix r' assume a: "validOffsetRange (vbHeap s r') \<noteq> None"
      have b: "validOffsetRange (vbHeap ?t r') = validOffsetRange (vbHeap s r')"
        using stepState_memo(3)[OF a] .
      with a have "validOffsetRange (vbHeap ?t r') \<noteq> None" by simp
      with IH have "validOffsetRange (vbHeap s1 r') = validOffsetRange (vbHeap ?t r')" by blast
      with b show "validOffsetRange (vbHeap s1 r') = validOffsetRange (vbHeap s r')" by simp
    qed
    have ra: "refOf s a = r" using Inr by (rule refOf_Inr)
    have here: "validOffsetRange (vbHeap s1 r) = memoOf s r"
    proof -
      have t: "validOffsetRange (vbHeap ?t r) = memoOf s r" by (rule stepState_memo(2))
      obtain b where "memoOf s r = Some b" using memoOf_Some by blast
      with t have "validOffsetRange (vbHeap ?t r) \<noteq> None" by simp
      with IH have "validOffsetRange (vbHeap s1 r) = validOffsetRange (vbHeap ?t r)" by blast
      with t show ?thesis by simp
    qed
    have rest: "\<forall>b \<in> set names. validOffsetRange (vbHeap s1 (refOf s b)) = memoOf s (refOf s b)"
      using IH by (simp add: refOf_frame[OF fr] stepState_memo(1))
    show ?thesis using m k here rest ra by simp
  qed
qed

lemma m_setVertexState_memo:
  assumes "m_setVertexState eff s = (None, s1)"
  shows "\<forall>a \<in> set (attributeNamesFromEffect eff).
           validOffsetRange (vbHeap s1 (refOf s a)) = memoOf s (refOf s a)"
proof -
  obtain r out t where l: "setVertexState_loop (attributeLocationsFromEffect eff)
                (attributeNamesFromEffect eff) 0 (None, 0, VertexState) s = (r, out, t)"
    by (metis prod_cases3)
  have rn: "r = None" using assms l by (cases r) (simp_all add: m_setVertexState_def)
  have "vbHeap s1 = vbHeap t"
    using assms l rn
    by (cases out) (auto simp add: m_setVertexState_def Let_def split: if_splits)
  with setVertexState_loop_memo[OF l[unfolded rn]] show ?thesis by simp
qed

lemma creationState_memo:
  assumes "creationState E strat fillMode eff sc ts s c"
    and "a \<in> set (attributeNamesFromEffect eff)"
  shows "validOffsetRange (vbHeap c (refOf s a)) = memoOf s (refOf s a)"
proof (cases "disabled s")
  case True
  with assms(1) obtain s1 where v: "m_setVertexState eff s = (None, s1)"
    and c: "c = m_setTextureState ts s1"
    by (auto simp add: creationState_def)
  show ?thesis
    unfolding c vbHeap_steps(5) using m_setVertexState_memo[OF v] assms(2) by blast
next
  case False
  with assms(1) obtain s3 where pr: "prepare E fillMode eff sc ts s = (None, s3)"
    and c: "c = lookedUp strat s3"
    by (auto simp add: creationState_def)
  let ?d = "m_setDepthStencilState (m_setColorStates
            (m_setRasterizationState fillMode (GetSample E sc) (m_setShaderStage (uniqueId eff) s)))"
  have d: "recomputes s ?d" "vbHeap ?d = vbHeap s" by (rule packing_frame)+
  have md: "memoOf ?d r = memoOf s r" for r
    unfolding memoOf_def d(2) recomputes_fields(10)[OF d(1)] ..
  have hc: "vbHeap c = vbHeap s3" unfolding c by (simp add: lookedUp_def)
  show ?thesis
  proof (cases rule: prepare_cases[of eff fillMode E sc s ts])
    case (err e s1)
    with pr show ?thesis by simp
  next
    case (ok s1)
    have "vbHeap s3 = vbHeap s1" using pr ok(2) by (auto simp add: vbHeap_steps(5))
    with m_setVertexState_memo[OF ok(1)] assms(2) hc
    have "validOffsetRange (vbHeap c (refOf ?d a)) = memoOf ?d (refOf ?d a)" by simp
    then show ?thesis unfolding md refOf_frame[OF d(1)] .
  qed
qed

lemma renderPipelineDescriptor_buffers:
  "renderPipelineDescriptor E eff topo sc c = Inr d
     \<Longrightarrow> m_getVertexInputDescriptor eff c = Inr (buffers d)"
  by (auto simp add: renderPipelineDescriptor_def Let_def split: sum.splits)

lemma creationState_vertex:
  assumes "creationState E strat fillMode eff sc ts s c"
  shows "refOf c a = refOf s a"
    and "underlyingResource (vbHeap c r) = underlyingResource (vbHeap s r)"
    and "a \<in> set (attributeNamesFromEffect eff)
           \<Longrightarrow> validOffsetRange (vbHeap c (refOf c a)) = Some True \<longleftrightarrow> offsetValid s a"
    and "underlyingResource (vbHeap c (refOf c a)) = gpuBufferOf s a"
proof -
  obtain m where rc: "recomputes s m" and hf: "heapFrame s m" and bk: "bookkeeping m c"
    using creationState_frame[OF assms] by blast
  show r: "refOf c a = refOf s a"
    unfolding refOf_def bookkeeping_fields(13)[OF bk] recomputes_functions(4)[OF rc] ..
  show u: "underlyingResource (vbHeap c r) = underlyingResource (vbHeap s r)" for r
    unfolding bookkeeping_fields(14)[OF bk] heapFrame_fields(2)[OF hf] ..
  show "validOffsetRange (vbHeap c (refOf c a)) = Some True \<longleftrightarrow> offsetValid s a"
    if "a \<in> set (attributeNamesFromEffect eff)"
    unfolding r offsetValid_def creationState_memo[OF assms that] ..
  show "underlyingResource (vbHeap c (refOf c a)) = gpuBufferOf s a"
    unfolding r u gpuBufferOf_def ..
qed

lemma descriptor_layout:
  assumes "creationState E strat fillMode eff sc ts s c"
    and "renderPipelineDescriptor E eff topo sc' c = Inr d"
  shows "map shaderLocation (attributesOf (buffers d)) =
           map (attributeLocation (attributeLocationsFromEffect eff))
             [0..<length (attributeNamesFromEffect eff)]"
    and "attributeNamesFromEffect eff \<noteq> [] \<longrightarrow> entryOf (buffers d) 0 = 0"
    and "\<forall>i. i + 1 < length (attributeNamesFromEffect eff) \<longrightarrow>
          entryOf (buffers d) (i + 1) =
            entryOf (buffers d) i
            + (if gpuBufferOf s (attributeNamesFromEffect eff ! i) \<noteq> None
                  \<and> gpuBufferOf s (attributeNamesFromEffect eff ! i)
                      = gpuBufferOf s (attributeNamesFromEffect eff ! (i + 1))
                  \<and> offsetValid s (attributeNamesFromEffect eff ! i)
                  \<and> offsetValid s (attributeNamesFromEffect eff ! (i + 1))
               then 0 else 1)"
    and "length (buffers d) =
          (if attributeNamesFromEffect eff = [] then 0
           else entryOf (buffers d) (length (attributeNamesFromEffect eff) - 1) + 1)"
proof -
  let ?names = "attributeNamesFromEffect eff"
  have l: "getVertexInputDescriptor_loop c (attributeLocationsFromEffect eff) ?names 0 None []
      = Inr (buffers d)"
    using renderPipelineDescriptor_buffers[OF assms(2)]
    unfolding m_getVertexInputDescriptor_def .
  have e: "attributesOf [] = []" by (simp add: attributesOf_def)
  note L = getVertexInputDescriptor_loop_entries[OF l, unfolded e list.size list.map
      append_Nil add_0]
  show "map shaderLocation (attributesOf (buffers d)) =
           map (attributeLocation (attributeLocationsFromEffect eff)) [0..<length ?names]"
    using L by blast
  have "?names \<noteq> [] \<longrightarrow>
          entryOf (buffers d) 0 =
            (if startsEntry c None [] (refOf c (hd ?names)) then 0 else 0 - 1)"
    using L by blast
  then show "?names \<noteq> [] \<longrightarrow> entryOf (buffers d) 0 = 0" by simp
  show "length (buffers d) =
          (if ?names = [] then 0 else entryOf (buffers d) (length ?names - 1) + 1)"
    using L by blast
  have C: "\<forall>j. j + 1 < length ?names \<longrightarrow>
          entryOf (buffers d) (j + 1) =
            entryOf (buffers d) j
            + (if validOffsetRange (vbHeap c (refOf c (?names ! j))) = Some True
                  \<and> underlyingResource (vbHeap c (refOf c (?names ! j))) \<noteq> None
                  \<and> underlyingResource (vbHeap c (refOf c (?names ! j)))
                      = underlyingResource (vbHeap c (refOf c (?names ! (j + 1))))
                  \<and> validOffsetRange (vbHeap c (refOf c (?names ! (j + 1)))) = Some True
               then 0 else 1)"
    using L by blast
  show "\<forall>i. i + 1 < length ?names \<longrightarrow>
          entryOf (buffers d) (i + 1) =
            entryOf (buffers d) i
            + (if gpuBufferOf s (?names ! i) \<noteq> None
                  \<and> gpuBufferOf s (?names ! i) = gpuBufferOf s (?names ! (i + 1))
                  \<and> offsetValid s (?names ! i)
                  \<and> offsetValid s (?names ! (i + 1))
               then 0 else 1)"
  proof (intro allI impI)
    fix i assume i: "i + 1 < length ?names"
    then have m: "?names ! i \<in> set ?names" "?names ! (i + 1) \<in> set ?names" by simp_all
    note V = creationState_vertex[OF assms(1)]
    from C i have "entryOf (buffers d) (i + 1) =
            entryOf (buffers d) i
            + (if validOffsetRange (vbHeap c (refOf c (?names ! i))) = Some True
                  \<and> underlyingResource (vbHeap c (refOf c (?names ! i))) \<noteq> None
                  \<and> underlyingResource (vbHeap c (refOf c (?names ! i)))
                      = underlyingResource (vbHeap c (refOf c (?names ! (i + 1))))
                  \<and> validOffsetRange (vbHeap c (refOf c (?names ! (i + 1)))) = Some True
               then 0 else 1)"
      by blast
    then show "entryOf (buffers d) (i + 1) =
            entryOf (buffers d) i
            + (if gpuBufferOf s (?names ! i) \<noteq> None
                  \<and> gpuBufferOf s (?names ! i) = gpuBufferOf s (?names ! (i + 1))
                  \<and> offsetValid s (?names ! i)
                  \<and> offsetValid s (?names ! (i + 1))
               then 0 else 1)"
      unfolding V(4) V(3)[OF m(1)] V(3)[OF m(2)] by (auto split: if_splits)
  qed
qed

lemma call_creates:
  assumes "\<forall>a \<in> set (attributeNamesFromEffect eff).
            \<exists>v f. resolveVertexBuffer s a = Inr v
                 \<and> m_GetVertexInputDescriptorFormat (vbHeap s v) = Inr f"
    and "disabled s
         \<or> ((m_isDirty s \<or> m_parameter_pipeline s = None)
             \<and> (\<forall>key low. snd (lookupRP strat (store s) key low) = None))"
    and "\<forall>d. \<exists>p. dev (deviceCalls s) d = Inr p"
    and "m_GetTopology E fillMode = Inr topo"
    and "getRenderPipeline E dev strat fillMode eff sc ts s = (r, s')"
  shows "\<exists>c d p. creationState E strat fillMode eff sc ts s c
           \<and> renderPipelineDescriptor E eff topo (GetSample E sc) c = Inr d
           \<and> dev (deviceCalls s) d = Inr p \<and> r = Inr p
           \<and> deviceCalls s' = deviceCalls s @ [d]"
proof -
  have a': "\<forall>a \<in> set (attributeNamesFromEffect eff). \<exists>v. resolveVertexBuffer s a = Inr v"
    using assms(1) by blast
  obtain c where cs: "creationState E strat fillMode eff sc ts s c"
    using reaches_creation[OF a' assms(2)] by blast
  obtain d where d: "renderPipelineDescriptor E eff topo (GetSample E sc) c = Inr d"
    using creationState_descriptor[OF cs assms(1)] by blast
  obtain p where p: "dev (deviceCalls s) d = Inr p" using assms(3) by blast
  have g: "(r, s') = (Inr p, created strat (disabled s) p (c\<lparr>deviceCalls := deviceCalls s @ [d]\<rparr>))"
    using creation_success[where dev = dev, OF cs assms(4) d p] assms(5) by simp
  then have "r = Inr p" "deviceCalls s' = deviceCalls s @ [d]"
    by (auto simp add: created_fields created_more)
  with cs d p show ?thesis by blast
qed

lemma exampleHeap_format:
  "m_GetVertexInputDescriptorFormat (exampleHeap v) = Inr Float32x3"
  by (simp add: exampleHeap_def exampleBuffer_def m_GetVertexInputDescriptorFormat_def Let_def)

lemma exampleHeap_flags:
  "validOffsetRangeOf 2048 (exampleHeap 1)"
  "validOffsetRangeOf 2048 (exampleHeap 2)"
  "validOffsetRangeOf 2048 (exampleHeap 3)"
  "\<not> validOffsetRangeOf 2048 (exampleHeap 4)"
  "validOffsetRange (exampleHeap v) = None"
  "underlyingResource (exampleHeap 1) = Some 50"
  "underlyingResource (exampleHeap 2) = Some 50"
  "underlyingResource (exampleHeap 3) = Some 51"
  "underlyingResource (exampleHeap 4) = Some 50"
  "validOffsetRangeOf 2048 (exampleHeap (Suc 0))"
  "underlyingResource (exampleHeap (Suc 0)) = Some 50"
  by (simp_all add: exampleHeap_def exampleBuffer_def validOffsetRangeOf_def Let_def)

lemma boundCache_fields:
  "disabled (boundCache p n) = False"
  "m_isDirty (boundCache p n) = True"
  "store (boundCache p n) = []"
  "deviceCalls (boundCache p n) = []"
  "vbHeap (boundCache p n) = exampleHeap"
  "m_kMaxVertexBufferStride (boundCache p n) = 2048"
  "resolveVertexBuffer (boundCache p n) ''position'' = Inr p"
  "resolveVertexBuffer (boundCache p n) ''normal'' = Inr n"
  by (simp_all add: boundCache_def setBuffers_def newCache_fields resolveVertexBuffer_def)

lemma boundCache_vocabulary:
  "gpuBufferOf (boundCache p n) ''position'' = underlyingResource (exampleHeap p)"
  "gpuBufferOf (boundCache p n) ''normal'' = underlyingResource (exampleHeap n)"
  "offsetValid (boundCache p n) ''position'' = validOffsetRangeOf 2048 (exampleHeap p)"
  "offsetValid (boundCache p n) ''normal'' = validOffsetRangeOf 2048 (exampleHeap n)"
  by (simp_all add: gpuBufferOf_def offsetValid_def memoOf_def refOf_def boundCache_fields
      exampleHeap_flags(5))

lemma twoAttributes_fields:
  "attributeNamesFromEffect twoAttributes = [''position'', ''normal'']"
  "attributeLocation (attributeLocationsFromEffect twoAttributes) 0 = Number 0"
  "attributeLocation (attributeLocationsFromEffect twoAttributes) (Suc 0) = Number 1"
  by (simp_all add: twoAttributes_def attributeLocation_def js_index_def)

lemma boundCache_ready:
  "\<forall>a \<in> set (attributeNamesFromEffect twoAttributes).
      \<exists>v f. resolveVertexBuffer (boundCache p n) a = Inr v
           \<and> m_GetVertexInputDescriptorFormat (vbHeap (boundCache p n) v) = Inr f"
  "disabled (boundCache p n)
     \<or> ((m_isDirty (boundCache p n) \<or> m_parameter_pipeline (boundCache p n) = None)
         \<and> (\<forall>key low. snd (lookupRP Indexed (store (boundCache p n)) key low) = None))"
  "\<forall>d. \<exists>q. acceptingDevice (deviceCalls (boundCache p n)) d = Inr q"
  "\<exists>topo. m_GetTopology exampleEnv 0 = Inr topo"
  by (simp_all add: twoAttributes_fields boundCache_fields exampleHeap_format Indexed_empty
      acceptingDevice_def exampleEnv_topology(1))

lemma boundCache_call:
  assumes "getRenderPipeline exampleEnv acceptingDevice Indexed 0 twoAttributes 1 0
             (boundCache p n) = (r, s')"
  shows "\<exists>c d. creationState exampleEnv Indexed 0 twoAttributes 1 0 (boundCache p n) c
           \<and> renderPipelineDescriptor exampleEnv twoAttributes TriangleList
                (GetSample exampleEnv 1) c = Inr d
           \<and> deviceCalls s' = [d]"
  using call_creates[OF boundCache_ready(1,2,3) exampleEnv_topology(1) assms]
  unfolding boundCache_fields(4) append_Nil by blast

section \<open>The claims\<close>

subsection \<open>C1: the color-state slots\<close>

text \<open>
  C1. The claim fails at the inputs below, where \<open>_setColorStates\<close> departs from the
  layout its comments describe (53 bits per state: 25 for each of two blend targets, 3
  for the flags).

  First, the write-mask flag is \<open>2 ** 53\<close>, a 54th bit, so a state with the flag set
  is not exact in a double. With blending enabled for target 0 and the default write
  mask, the source color factors \<open>SrcColor\<close> (0x0300, index 3) and \<open>OneMinusSrcColor\<close>
  (0x0301, index 4) give the sums \<open>2 ** 53 + 33827\<close> and \<open>2 ** 53 + 33828\<close>, which are
  the same double: the four color-state slots agree although the two color blend
  states differ.

  Second, both targets of a pair are added at the same bit positions. With the write
  mask off, blending enabled for target 0 only and for target 1 only (same parameters)
  give the same four slots, although the alpha blend state of target 0 is present in
  one configuration and absent in the other.
\<close>

theorem color_states_collide:
  "m_getColorBlendState blendSrcColor 0 \<noteq> m_getColorBlendState blendOneMinusSrcColor 0
   \<and> map (\<lambda>k. m_states (m_setColorStates blendSrcColor) (ColorStates1 + k)) [0, 1, 2, 3]
     = map (\<lambda>k. m_states (m_setColorStates blendOneMinusSrcColor) (ColorStates1 + k)) [0, 1, 2, 3]
   \<and> m_states (m_setColorStates blendSrcColor) ColorStates1 = Number (2 ^ 53 + 33828)
   \<and> m_getAphaBlendState blendTarget0 0 \<noteq> m_getAphaBlendState blendTarget1 0
   \<and> map (\<lambda>k. m_states (m_setColorStates blendTarget0) (ColorStates1 + k)) [0, 1, 2, 3]
     = map (\<lambda>k. m_states (m_setColorStates blendTarget1) (ColorStates1 + k)) [0, 1, 2, 3]"
  by (simp add: ColorStates1_def setColorStates_fields blendSrcColor_slots
      blendOneMinusSrcColor_slots blendTarget0_slots blendTarget1_slots blend_descriptors)

subsection \<open>C2: the setters\<close>

text \<open>
  C2, as amended. The four setters \<open>setDepthBias\<close>, \<open>setDepthBiasSlopeScale\<close>,
  \<open>setStencilReadMask\<close> and \<open>setStencilWriteMask\<close> compare with the stored value: an
  equal value changes nothing; a different one is stored, written to the slot of the
  setter, marks the cache dirty and lowers the lowest dirty index to that slot.

  The six setters \<open>setFrontFace\<close>, \<open>setCullFace\<close>, \<open>setCullEnabled\<close>,
  \<open>setClampDepth\<close>, \<open>setAlphaToCoverage\<close> and \<open>setWriteMask\<close> (\<open>st\<close> ranges over
  their calls) only store the value: no slot is written and the dirty tracking is left
  alone, whether the value is new or not.

  What such a call changes shows at the next \<open>getRenderPipeline\<close>. In the enabled mode
  that call leaves the four color-state slots, and the rasterization slot, at the values
  packed from the fields as the setter left them (for the rasterization slot, given that
  it held the value kept in \<open>_rasterizationState\<close>, as it does from the constructor
  on). When one of these packed values differs from the one kept, the packing steps
  leave the cache dirty and the call is not answered from the memo: it counts no hit
  without hash. When none differs, on a cache that was in step with the request, clean,
  with a pipeline in the memo and no \<open>NaN\<close> among its packed states, the call is
  answered from the memo as if no setter had been called. In the disabled mode nothing
  is packed: the rasterization slot and the color-state slots stay as they were.
\<close>

theorem setter_contract:
  "(m_depthBias s = Number v \<longrightarrow> setDepthBias v s = s)
   \<and> (m_depthBias s \<noteq> Number v \<longrightarrow>
        m_depthBias (setDepthBias v s) = Number v
        \<and> touched DepthBias (Number v) s (setDepthBias v s))
   \<and> (m_depthBiasSlopeScale s = Number v \<longrightarrow> setDepthBiasSlopeScale v s = s)
   \<and> (m_depthBiasSlopeScale s \<noteq> Number v \<longrightarrow>
        m_depthBiasSlopeScale (setDepthBiasSlopeScale v s) = Number v
        \<and> touched DepthBiasSlopeScale (Number v) s (setDepthBiasSlopeScale v s))
   \<and> (m_stencilReadMask s = Number v \<longrightarrow> setStencilReadMask v s = s)
   \<and> (m_stencilReadMask s \<noteq> Number v \<longrightarrow>
        m_stencilReadMask (setStencilReadMask v s) = Number v
        \<and> touched StencilReadMask (Number v) s (setStencilReadMask v s))
   \<and> (m_stencilWriteMask s = Number v \<longrightarrow> setStencilWriteMask v s = s)
   \<and> (m_stencilWriteMask s \<noteq> Number v \<longrightarrow>
        m_stencilWriteMask (setStencilWriteMask v s) = Number v
        \<and> touched StencilWriteMask (Number v) s (setStencilWriteMask v s))
   \<and> m_frontFace (setFrontFace f s) = f
   \<and> m_cullFace (setCullFace f s) = f
   \<and> m_cullEnabled (setCullEnabled b s) = b
   \<and> m_clampDepth (setClampDepth b s) = b
   \<and> m_alphaToCoverageEnabled (setAlphaToCoverage b s) = b
   \<and> m_writeMask (setWriteMask f s) = f
   \<and> storesOnly s (applySetter st s)
   \<and> (\<not> disabled s
        \<and> getRenderPipeline E dev strat fillMode eff sc ts (applySetter st s) = (r, s')
       \<longrightarrow>
        (m_states s RasterizationState = m_rasterizationState s \<longrightarrow>
           m_states s' RasterizationState
             = rasterizationStateOf (applySetter st s) fillMode (GetSample E sc))
        \<and> (\<forall>k < 4. m_states s' (ColorStates1 + k) = colorStateOf (applySetter st s) k)
        \<and> (strict_neq (m_rasterizationState s)
               (rasterizationStateOf (applySetter st s) fillMode (GetSample E sc))
            \<or> (\<exists>k < 4. strict_neq (m_states s (ColorStates1 + k))
                           (colorStateOf (applySetter st s) k))
           \<longrightarrow> NumCacheHitWithoutHash s' = NumCacheHitWithoutHash s
               \<and> (\<forall>res s3. prepare E fillMode eff sc ts (applySetter st s) = (res, s3)
                     \<longrightarrow> m_isDirty s3))
        \<and> (inSync E fillMode eff sc ts s \<and> \<not> m_isDirty s \<and> m_parameter_pipeline s = Some p
            \<and> depthStencilStateOf s \<noteq> NaN \<and> (\<forall>k < 4. colorStateOf s k \<noteq> NaN)
            \<and> rasterizationStateOf (applySetter st s) fillMode (GetSample E sc)
                = rasterizationStateOf s fillMode (GetSample E sc)
            \<and> (\<forall>k < 4. colorStateOf (applySetter st s) k = colorStateOf s k)
           \<longrightarrow> r = Inr p \<and> NumCacheHitWithoutHash s' = NumCacheHitWithoutHash s + 1
               \<and> deviceCalls s' = deviceCalls s))
   \<and> (disabled s
        \<and> getRenderPipeline E dev strat fillMode eff sc ts (applySetter st s) = (r, s')
       \<longrightarrow> m_states s' RasterizationState = m_states s RasterizationState
           \<and> (\<forall>k < 4. m_states s' (ColorStates1 + k) = m_states s (ColorStates1 + k)))"
proof -
  let ?t = "applySetter st s"
  note A = compare_and_mark[of s v]
  have B: "m_frontFace (setFrontFace f s) = f" "m_cullFace (setCullFace f s) = f"
    "m_cullEnabled (setCullEnabled b s) = b" "m_clampDepth (setClampDepth b s) = b"
    "m_alphaToCoverageEnabled (setAlphaToCoverage b s) = b" "m_writeMask (setWriteMask f s) = f"
    by (simp_all add: plain_setter_defs)
  have C: "storesOnly s ?t" by (rule applySetter_storesOnly)
  have D: "(m_states s RasterizationState = m_rasterizationState s \<longrightarrow>
           m_states s' RasterizationState = rasterizationStateOf ?t fillMode (GetSample E sc))
        \<and> (\<forall>k < 4. m_states s' (ColorStates1 + k) = colorStateOf ?t k)
        \<and> (strict_neq (m_rasterizationState s)
               (rasterizationStateOf ?t fillMode (GetSample E sc))
            \<or> (\<exists>k < 4. strict_neq (m_states s (ColorStates1 + k)) (colorStateOf ?t k))
           \<longrightarrow> NumCacheHitWithoutHash s' = NumCacheHitWithoutHash s
               \<and> (\<forall>res s3. prepare E fillMode eff sc ts ?t = (res, s3) \<longrightarrow> m_isDirty s3))
        \<and> (inSync E fillMode eff sc ts s \<and> \<not> m_isDirty s \<and> m_parameter_pipeline s = Some p
            \<and> depthStencilStateOf s \<noteq> NaN \<and> (\<forall>k < 4. colorStateOf s k \<noteq> NaN)
            \<and> rasterizationStateOf ?t fillMode (GetSample E sc)
                = rasterizationStateOf s fillMode (GetSample E sc)
            \<and> (\<forall>k < 4. colorStateOf ?t k = colorStateOf s k)
           \<longrightarrow> r = Inr p \<and> NumCacheHitWithoutHash s' = NumCacheHitWithoutHash s + 1
               \<and> deviceCalls s' = deviceCalls s)"
    if en: "\<not> disabled s"
      and g: "getRenderPipeline E dev strat fillMode eff sc ts ?t = (r, s')"
  proof -
    have en': "\<not> disabled ?t" using en by (simp add: applySetter_fields)
    have d1: "m_states s' RasterizationState = rasterizationStateOf ?t fillMode (GetSample E sc)"
      if "m_states s RasterizationState = m_rasterizationState s"
      using enabled_rasterization_slot[OF en' g] that by (simp add: applySetter_fields)
    have d2: "\<forall>k < 4. m_states s' (ColorStates1 + k) = colorStateOf ?t k"
      using enabled_color_slots[OF en' g] .
    have dirty: "m_isDirty s3"
      if ch: "strict_neq (m_rasterizationState s)
               (rasterizationStateOf ?t fillMode (GetSample E sc))
            \<or> (\<exists>k < 4. strict_neq (m_states s (ColorStates1 + k)) (colorStateOf ?t k))"
        and pr: "prepare E fillMode eff sc ts ?t = (res, s3)" for res s3
      using ch
    proof
      assume "strict_neq (m_rasterizationState s)
               (rasterizationStateOf ?t fillMode (GetSample E sc))"
      then have "strict_neq (m_rasterizationState ?t)
               (rasterizationStateOf ?t fillMode (GetSample E sc))"
        by (simp add: applySetter_fields)
      then show ?thesis using pr by (rule raster_change_dirty)
    next
      assume "\<exists>k < 4. strict_neq (m_states s (ColorStates1 + k)) (colorStateOf ?t k)"
      then obtain k where k: "k < 4"
        and n: "strict_neq (m_states ?t (ColorStates1 + k)) (colorStateOf ?t k)"
        by (auto simp add: applySetter_fields)
      show ?thesis using color_change_dirty[OF k n pr] .
    qed
    have d3: "NumCacheHitWithoutHash s' = NumCacheHitWithoutHash s
               \<and> (\<forall>res s3. prepare E fillMode eff sc ts ?t = (res, s3) \<longrightarrow> m_isDirty s3)"
      if ch: "strict_neq (m_rasterizationState s)
               (rasterizationStateOf ?t fillMode (GetSample E sc))
            \<or> (\<exists>k < 4. strict_neq (m_states s (ColorStates1 + k)) (colorStateOf ?t k))"
    proof -
      have "NumCacheHitWithoutHash s' = NumCacheHitWithoutHash ?t"
        using g
      proof (rule dirty_skips_memo)
        fix res s3 assume "prepare E fillMode eff sc ts ?t = (res, s3)"
        then show "m_isDirty s3" using dirty[OF ch] by blast
      qed
      then show ?thesis using dirty[OF ch] by (simp add: applySetter_fields)
    qed
    have d4: "r = Inr p \<and> NumCacheHitWithoutHash s' = NumCacheHitWithoutHash s + 1
               \<and> deviceCalls s' = deviceCalls s"
      if "inSync E fillMode eff sc ts s \<and> \<not> m_isDirty s \<and> m_parameter_pipeline s = Some p
            \<and> depthStencilStateOf s \<noteq> NaN \<and> (\<forall>k < 4. colorStateOf s k \<noteq> NaN)
            \<and> rasterizationStateOf ?t fillMode (GetSample E sc)
                = rasterizationStateOf s fillMode (GetSample E sc)
            \<and> (\<forall>k < 4. colorStateOf ?t k = colorStateOf s k)"
      using unnoticed_setter[OF en g] that by blast
    from d1 d2 d3 d4 show ?thesis by blast
  qed
  have F: "m_states s' RasterizationState = m_states s RasterizationState
           \<and> (\<forall>k < 4. m_states s' (ColorStates1 + k) = m_states s (ColorStates1 + k))"
    if dis: "disabled s"
      and g: "getRenderPipeline E dev strat fillMode eff sc ts ?t = (r, s')"
  proof -
    have dis': "disabled ?t" using dis by (simp add: applySetter_fields)
    note ds = disabled_slots[OF dis' g]
    have "m_states s' RasterizationState = m_states s RasterizationState"
      using ds by (simp add: applySetter_fields RasterizationState_def VertexState_def
          TextureStage_def)
    moreover have "\<forall>k < 4. m_states s' (ColorStates1 + k) = m_states s (ColorStates1 + k)"
      using ds by (simp add: applySetter_fields ColorStates1_def VertexState_def TextureStage_def)
    ultimately show ?thesis by blast
  qed
  show ?thesis
    by (intro conjI;
        (rule B C | (intro impI, (elim conjE)?, (rule A D F; assumption))))
qed

text \<open>
  On the new cache: depth bias 0 is the stored value and 3 is a new one. On the cache
  after a first resolution (rasterization slot 257, write mask 15): after
  \<open>setFrontFace(1)\<close> the same request leaves 256 in the slot and is not a hit without
  hash; after \<open>setWriteMask(7)\<close>, which packs to the same value, it is answered from
  the memo; with \<open>disabled\<close> set, the slot is still 257 after \<open>setFrontFace(1)\<close> and
  the request.
\<close>

theorem setter_contract_witness:
  "setDepthBias 0 newCache = newCache
   \<and> m_states (setDepthBias 3 newCache) DepthBias = Number 3
   \<and> m_isDirty (setDepthBias 3 newCache)
   \<and> m_frontFace (setFrontFace 1 newCache) = 1
   \<and> m_states resolvedCache RasterizationState = Number 257
   \<and> m_states
        (snd (getRenderPipeline exampleEnv acceptingDevice Indexed 0 noAttributes 1 0
                (setFrontFace 1 resolvedCache)))
        RasterizationState = Number 256
   \<and> NumCacheHitWithoutHash
        (snd (getRenderPipeline exampleEnv acceptingDevice Indexed 0 noAttributes 1 0
                (setFrontFace 1 resolvedCache))) = 0
   \<and> m_writeMask resolvedCache = 15
   \<and> fst (getRenderPipeline exampleEnv acceptingDevice Indexed 0 noAttributes 1 0
            (setWriteMask 7 resolvedCache)) = Inr 100
   \<and> NumCacheHitWithoutHash
        (snd (getRenderPipeline exampleEnv acceptingDevice Indexed 0 noAttributes 1 0
                (setWriteMask 7 resolvedCache))) = 1
   \<and> m_states
        (snd (getRenderPipeline exampleEnv acceptingDevice Indexed 0 noAttributes 1 0
                (setFrontFace 1 (resolvedCache\<lparr>disabled := True\<rparr>))))
        RasterizationState = Number 257"
proof -
  have gs: "GetSample exampleEnv 1 = 1" by (simp add: exampleEnv_def)
  have f: "m_depthBias newCache = Number 0" "m_depthBias newCache \<noteq> Number 3"
    by (simp_all add: newCache_fields)
  have a: "setDepthBias 0 newCache = newCache
     \<and> m_states (setDepthBias 3 newCache) DepthBias = Number 3
     \<and> m_isDirty (setDepthBias 3 newCache)
     \<and> m_frontFace (setFrontFace 1 newCache) = 1"
    using setter_contract[of newCache 0 1 True "SetFrontFace 1"]
      setter_contract[of newCache 3 1 True "SetFrontFace 1"] f
    by (simp add: touched_def)
  obtain r1 s1 where G1: "getRenderPipeline exampleEnv acceptingDevice Indexed 0 noAttributes 1 0
      (applySetter (SetFrontFace 1) resolvedCache) = (r1, s1)"
    by (metis surj_pair)
  have inv: "m_states resolvedCache RasterizationState = m_rasterizationState resolvedCache"
    by (simp add: resolvedCache_state)
  have ch: "strict_neq (m_rasterizationState resolvedCache)
       (rasterizationStateOf (applySetter (SetFrontFace 1) resolvedCache) 0
          (GetSample exampleEnv 1))"
    unfolding gs front_face_repacked by (simp add: resolvedCache_state strict_neq_def)
  have b: "m_states s1 RasterizationState = Number 256 \<and> NumCacheHitWithoutHash s1 = 0"
    using setter_contract[of resolvedCache 0 1 True "SetFrontFace 1" exampleEnv acceptingDevice
        Indexed 0 noAttributes 1 0 r1 s1 100]
      resolvedCache_state(1) G1 inv ch
    unfolding gs front_face_repacked by (simp add: resolvedCache_state(8))
  obtain r2 s2 where G2: "getRenderPipeline exampleEnv acceptingDevice Indexed 0 noAttributes 1 0
      (applySetter (SetWriteMask 7) resolvedCache) = (r2, s2)"
    by (metis surj_pair)
  have c: "r2 = Inr 100 \<and> NumCacheHitWithoutHash s2 = 1"
    using setter_contract[of resolvedCache 0 1 True "SetWriteMask 7" exampleEnv acceptingDevice
        Indexed 0 noAttributes 1 0 r2 s2 100]
      resolvedCache_state(1,2,3,4,5) G2 resolvedCache_facts(2) write_mask_not_packed
    by (simp add: resolvedCache_state(8))
  obtain r3 s3 where G3: "getRenderPipeline exampleEnv acceptingDevice Indexed 0 noAttributes 1 0
      (applySetter (SetFrontFace 1) (resolvedCache\<lparr>disabled := True\<rparr>)) = (r3, s3)"
    by (metis surj_pair)
  have d: "m_states s3 RasterizationState = Number 257"
    using setter_contract[of "resolvedCache\<lparr>disabled := True\<rparr>" 0 1 True "SetFrontFace 1"
        exampleEnv acceptingDevice Indexed 0 noAttributes 1 0 r3 s3 100] G3
    by (simp add: resolvedCache_state(7))
  show ?thesis
    using a b c d G1 G2 G3 by (simp add: resolvedCache_state(7,12))
qed

text \<open>
  C2 as stated fails for \<open>setFrontFace\<close>: after a successful resolution the cache is
  clean with front face 2; \<open>setFrontFace(1)\<close> stores the new value and leaves the dirty
  flag, the slots and the lowest dirty index untouched.
\<close>

theorem setFrontFace_does_not_mark_dirty:
  "m_frontFace resolvedCache = 2
   \<and> \<not> m_isDirty resolvedCache
   \<and> m_frontFace (setFrontFace 1 resolvedCache) = 1
   \<and> \<not> m_isDirty (setFrontFace 1 resolvedCache)
   \<and> m_states (setFrontFace 1 resolvedCache) = m_states resolvedCache
   \<and> m_stateDirtyLowestIndex (setFrontFace 1 resolvedCache)
       = m_stateDirtyLowestIndex resolvedCache"
  using resolvedCache_facts(2,3) by (simp add: setFrontFace_def)

subsection \<open>C3: the rasterization slot\<close>

text \<open>
  C3, as amended. In the enabled mode every call of \<open>getRenderPipeline\<close> leaves in the
  rasterization slot the value
  \<open>frontFace - 1 + (cullMode<<1) + (clampDepth<<3) + (alphaToCoverage<<4) + (topology<<5)
  + (sampleCount<<8)\<close>, one less than the sum of the specification. Here \<open>cullMode\<close>
  is the cull face, or 0 when culling is off; \<open>topology\<close> is the fill mode as passed by
  the caller; \<open>sampleCount\<close> is what the sample-count helper returns. The operands are
  taken in the ranges where no 32-bit shift wraps, and the slot is supposed to hold the
  value kept in \<open>_rasterizationState\<close> before the call, as it does from the constructor
  on.
\<close>

theorem rasterization_slot_packing:
  assumes "\<not> disabled s"
    and "getRenderPipeline E dev strat fillMode eff sc ts s = (r, s')"
    and "m_states s RasterizationState = m_rasterizationState s"
    and "0 \<le> m_frontFace s" and "m_frontFace s < 2 ^ 31"
    and "m_cullEnabled s \<longrightarrow> 0 \<le> m_cullFace s \<and> m_cullFace s < 2 ^ 30"
    and "0 \<le> fillMode" and "fillMode < 2 ^ 26"
    and "0 \<le> GetSample E sc" and "GetSample E sc < 2 ^ 23"
  shows "m_states s' RasterizationState =
     Number (m_frontFace s - 1
             + 2 * (if m_cullEnabled s then m_cullFace s else 0)
             + 8 * (if m_clampDepth s then 1 else 0)
             + 16 * (if m_alphaToCoverageEnabled s then 1 else 0)
             + 32 * fillMode + 256 * GetSample E sc)
   \<and> js_add (m_states s' RasterizationState) (Number 1)
       = specRasterizationState s fillMode (GetSample E sc)"
proof -
  have a: "m_states s' RasterizationState = rasterizationStateOf s fillMode (GetSample E sc)"
    using enabled_rasterization_slot[OF assms(1,2,3)] .
  define v where "v = m_frontFace s
             + 2 * (if m_cullEnabled s then m_cullFace s else 0)
             + 8 * (if m_clampDepth s then 1 else 0)
             + 16 * (if m_alphaToCoverageEnabled s then 1 else 0)
             + 32 * fillMode + 256 * GetSample E sc"
  have "\<bar>v\<bar> < 2 ^ 53" using assms(4-10) by (auto simp add: v_def)
  then have dv: "dbl v = v" by (rule dbl_small)
  have r: "rasterizationStateOf s fillMode (GetSample E sc) = Number (v - 1)"
    unfolding rasterizationStateOf_closed[OF assms(4-10)] by (simp add: v_def)
  have sp: "specRasterizationState s fillMode (GetSample E sc) = Number v"
    unfolding specRasterizationState_closed[OF assms(4-10)] by (simp add: v_def)
  have "js_add (Number (v - 1)) (Number 1) = Number v" using dv by simp
  moreover have "v - 1 = m_frontFace s - 1
             + 2 * (if m_cullEnabled s then m_cullFace s else 0)
             + 8 * (if m_clampDepth s then 1 else 0)
             + 16 * (if m_alphaToCoverageEnabled s then 1 else 0)
             + 32 * fillMode + 256 * GetSample E sc"
    by (simp add: v_def)
  ultimately show ?thesis unfolding a r sp by simp
qed

text \<open>
  With culling enabled on the new cache (front face 2, cull face 1), the triangle-strip
  draw mode 7 and four samples: \<open>1 + 2 + 224 + 1024 = 1251\<close>.
\<close>

theorem rasterization_slot_packing_witness:
  "\<not> disabled (setCullEnabled True newCache)
   \<and> m_states (setCullEnabled True newCache) RasterizationState
       = m_rasterizationState (setCullEnabled True newCache)
   \<and> m_frontFace (setCullEnabled True newCache) = 2
   \<and> m_cullFace (setCullEnabled True newCache) = 1
   \<and> GetSample exampleEnv 4 = 4
   \<and> m_states
        (snd (getRenderPipeline exampleEnv acceptingDevice Indexed 7 noAttributes 4 0
                (setCullEnabled True newCache)))
        RasterizationState = Number 1251"
proof -
  let ?s = "setCullEnabled True newCache"
  have cf: "m_cullFace newCache = 1"
    by (simp add: newCache_def constructor_def reset_def blank_def setter_defs exampleEnv_def)
  have f: "\<not> disabled ?s" "m_states ?s RasterizationState = m_rasterizationState ?s"
    "m_frontFace ?s = 2" "m_cullFace ?s = 1" "m_cullEnabled ?s" "\<not> m_clampDepth ?s"
    "\<not> m_alphaToCoverageEnabled ?s"
    by (simp_all add: setCullEnabled_def newCache_fields cf)
  have gs: "GetSample exampleEnv 4 = 4" by (simp add: exampleEnv_def)
  obtain r s' where G: "getRenderPipeline exampleEnv acceptingDevice Indexed 7 noAttributes 4 0 ?s
       = (r, s')"
    by (metis surj_pair)
  have h: "0 \<le> m_frontFace ?s" "m_frontFace ?s < 2 ^ 31"
    "m_cullEnabled ?s \<longrightarrow> 0 \<le> m_cullFace ?s \<and> m_cullFace ?s < 2 ^ 30"
    "(0::int) \<le> 7" "(7::int) < 2 ^ 26"
    "0 \<le> GetSample exampleEnv 4" "GetSample exampleEnv 4 < 2 ^ 23"
    by (simp_all add: f(3,4) gs)
  from rasterization_slot_packing[OF f(1) G f(2) h]
  have "m_states s' RasterizationState = Number 1251"
    by (simp add: f gs)
  then show ?thesis unfolding G snd_conv using f(1-4) gs by simp
qed

text \<open>
  C3 as stated fails: on the new cache (front face 2, no culling), fill mode 0 and one
  sample, the slot holds 257 where the sum of the specification is 258.
\<close>

theorem rasterization_slot_is_not_the_documented_sum:
  "m_states resolvedCache RasterizationState = Number 257
   \<and> specRasterizationState newCache 0 (GetSample exampleEnv 1) = Number 258"
proof -
  have "GetSample exampleEnv 1 = 1" by (simp add: exampleEnv_def)
  then show ?thesis
    using resolvedCache_facts(4) newCache_rasterization by simp
qed

subsection \<open>C4: two requests in a row\<close>

text \<open>
  C4, as amended. In the enabled mode, when \<open>getRenderPipeline\<close> has returned a pipeline
  and the same request is made again on the resulting cache (no setter in between), and
  none of the packed depth-stencil and color states of the cache is \<open>NaN\<close>, the second
  call returns the same pipeline and adds one to \<open>NumCacheHitWithoutHash\<close>; the other
  counters, the store and the device log are unchanged.
\<close>

theorem repeated_request_hits_memo:
  assumes "\<not> disabled s"
    and "getRenderPipeline E dev strat fillMode eff sc ts s = (Inr p, s')"
    and "depthStencilStateOf s \<noteq> NaN"
    and "\<forall>k < 4. colorStateOf s k \<noteq> NaN"
  shows "\<exists>s''. getRenderPipeline E dev strat fillMode eff sc ts s' = (Inr p, s'')
     \<and> NumCacheHitWithoutHash s'' = NumCacheHitWithoutHash s' + 1
     \<and> NumCacheHitWithHash s'' = NumCacheHitWithHash s'
     \<and> NumCacheMiss s'' = NumCacheMiss s'
     \<and> m_NumPipelineCreationCurrentFrame s'' = m_NumPipelineCreationCurrentFrame s'
     \<and> deviceCalls s'' = deviceCalls s'
     \<and> store s'' = store s'"
proof -
  obtain s3 where pr: "prepare E fillMode eff sc ts s = (None, s3)"
    and bk: "bookkeeping s3 s'" and nd: "\<not> m_isDirty s'"
    and mm: "m_parameter_pipeline s' = Some p"
    using getRenderPipeline_enabled_success[OF assms(1,2)] by blast
  note rf = recomputes_fields[OF prepare_frame(1)[OF pr]]
  note rfun = recomputes_functions[OF prepare_frame(1)[OF pr]]
  note bf = bookkeeping_fields[OF bk]
  have en: "\<not> disabled s'" using bf(1) rf(8) assms(1) by simp
  have sync: "inSync E fillMode eff sc ts s'"
    using prepare_inSync[OF pr] bookkeeping_inSync[OF bk] by simp
  have n1: "depthStencilStateOf s' \<noteq> NaN" using assms(3) bf(10) rfun by simp
  have n2: "\<forall>k < 4. colorStateOf s' k \<noteq> NaN" using assms(4) bf(11) rfun by simp
  obtain t3 where pt: "prepare E fillMode eff sc ts s' = (None, t3)"
    and g: "getRenderPipeline E dev strat fillMode eff sc ts s' =
         (Inr p, t3\<lparr>m_stateDirtyLowestIndex := m_statesLength t3,
                    NumCacheHitWithoutHash := NumCacheHitWithoutHash t3 + 1\<rparr>)"
    using memo_hit[OF en sync nd mm n1 n2] by blast
  note tf = recomputes_fields[OF prepare_frame(1)[OF pt]]
  show ?thesis unfolding g using tf(1-7) by simp
qed

text \<open>
  On the new cache: the first call creates pipeline 100 (one miss), the second returns
  it from the memo.
\<close>

theorem repeated_request_hits_memo_witness:
  "\<not> disabled newCache
   \<and> fst (getRenderPipeline exampleEnv acceptingDevice Indexed 0 noAttributes 1 0 newCache)
       = Inr 100
   \<and> fst (getRenderPipeline exampleEnv acceptingDevice Indexed 0 noAttributes 1 0 resolvedCache)
       = Inr 100
   \<and> NumCacheHitWithoutHash resolvedCache = 0
   \<and> NumCacheHitWithoutHash
       (snd (getRenderPipeline exampleEnv acceptingDevice Indexed 0 noAttributes 1 0 resolvedCache))
       = 1
   \<and> NumCacheHitWithHash
       (snd (getRenderPipeline exampleEnv acceptingDevice Indexed 0 noAttributes 1 0 resolvedCache))
       = 0
   \<and> NumCacheMiss
       (snd (getRenderPipeline exampleEnv acceptingDevice Indexed 0 noAttributes 1 0 resolvedCache))
       = 1"
proof -
  obtain s' where G: "getRenderPipeline exampleEnv acceptingDevice Indexed 0 noAttributes 1 0 newCache
           = (Inr 100, s')"
    and n: "NumCacheHitWithoutHash s' = 0" "NumCacheHitWithHash s' = 0" "NumCacheMiss s' = 1"
    using newCache_first by blast
  have a: "resolvedCache = s'" unfolding resolvedCache_def G by simp
  have en: "\<not> disabled newCache" by (simp add: newCache_fields)
  from repeated_request_hits_memo[OF en G newCache_numbers]
  show ?thesis unfolding a G using n en by auto
qed

text \<open>
  C4 as stated fails when a packed state is \<open>NaN\<close>: \<open>NaN !== NaN\<close> makes
  \<open>_setColorStates\<close> mark the cache dirty at every call, so the memo is never used.
  With blending enabled for target 1 and the equation array of \<open>reset\<close> (two entries),
  the first call succeeds and the second one leaves \<open>NumCacheHitWithoutHash\<close> as it
  is.
\<close>

theorem undefined_blend_equation_never_hits_memo:
  "\<not> disabled shortBlendArrays
   \<and> fst (getRenderPipeline exampleEnv acceptingDevice Indexed 0 noAttributes 1 0 shortBlendArrays)
       = Inr 100
   \<and> NumCacheHitWithoutHash
       (snd (getRenderPipeline exampleEnv acceptingDevice Indexed 0 noAttributes 1 0
               afterShortBlend))
       = NumCacheHitWithoutHash afterShortBlend"
proof -
  have a: "attributeNamesFromEffect noAttributes = []" by (simp add: noAttributes_def)
  have d: "acceptingDevice (deviceCalls shortBlendArrays) d = Inr 100" for d
    by (simp add: acceptingDevice_def shortBlendArrays_fields(4))
  obtain s' where G: "getRenderPipeline exampleEnv acceptingDevice Indexed 0 noAttributes 1 0
       shortBlendArrays = (Inr 100, s')"
    using first_resolution[where dev = acceptingDevice and sc = 1 and ts = 0 and p = 100,
        OF a shortBlendArrays_fields(1-3) exampleEnv_topology(1) d]
    by blast
  have s': "afterShortBlend = s'" unfolding afterShortBlend_def G by simp
  obtain s3 where pr: "prepare exampleEnv 0 noAttributes 1 0 shortBlendArrays = (None, s3)"
    and bk: "bookkeeping s3 s'"
    using getRenderPipeline_enabled_success[OF shortBlendArrays_fields(1) G] by blast
  have n: "colorStateOf s' 0 = NaN"
    using bookkeeping_fields(11)[OF bk] recomputes_functions(3)[OF prepare_frame(1)[OF pr]]
      shortBlendArrays_fields(5) by simp
  obtain r2 s2 where G2: "getRenderPipeline exampleEnv acceptingDevice Indexed 0 noAttributes 1 0 s'
       = (r2, s2)"
    by (metis surj_pair)
  have "NumCacheHitWithoutHash s2 = NumCacheHitWithoutHash s'"
    using G2
  proof (rule dirty_skips_memo)
    fix res t3
    assume p: "prepare exampleEnv 0 noAttributes 1 0 s' = (res, t3)"
    show "m_isDirty t3" using nan_color_state_dirty[OF n _ p] by simp
  qed
  then show ?thesis
    unfolding s' G G2 using shortBlendArrays_fields(1) by simp
qed

subsection \<open>C5: a throwing device\<close>

text \<open>
  C5. When the device's \<open>createRenderPipeline\<close> throws during a resolution (the call
  appends the descriptor \<open>d\<close> to the device log and the device answers it with an
  error), \<open>getRenderPipeline\<close> throws that error; the store is the one the lookup of
  this call left (\<open>_setRenderPipeline\<close> has not run; in the disabled mode the store is
  not touched at all); the memo holds no pipeline (in the disabled mode it is the one
  from before the call); and no counter has moved. In the example that follows, on the
  new cache with the indexed strategy, the store stays empty.
\<close>

theorem device_failure_leaves_cache_consistent:
  assumes "getRenderPipeline E dev strat fillMode eff sc ts s = (r, s')"
    and "deviceCalls s' = deviceCalls s @ [d]"
    and "dev (deviceCalls s) d = Inl code"
  shows "r = Inl (DeviceError code)
     \<and> store s' =
         (if disabled s then store s
          else fst (lookupRP strat (store s) (stateVector s') (the (lastStateDirtyLowestIndex s'))))
     \<and> m_parameter_pipeline s' = (if disabled s then m_parameter_pipeline s else None)
     \<and> NumCacheHitWithoutHash s' = NumCacheHitWithoutHash s
     \<and> NumCacheHitWithHash s' = NumCacheHitWithHash s
     \<and> NumCacheMiss s' = NumCacheMiss s
     \<and> m_NumPipelineCreationCurrentFrame s' = m_NumPipelineCreationCurrentFrame s"
  using assms(1)
proof (cases rule: getRenderPipeline_deviceCalls)
  case untouched
  with assms(2) show ?thesis by simp
next
  case (rejected topo c d' code')
  note cf = creationState_fields[OF rejected(2)]
  have dd: "d' = d" using assms(2) rejected(6) by simp
  then have code: "code' = code" using assms(3) rejected(4) by simp
  have st: "stateVector s' = stateVector c"
    "lastStateDirtyLowestIndex s' = lastStateDirtyLowestIndex c"
    by (simp_all add: rejected(6) stateVector_def)
  show ?thesis
  proof (cases "disabled s")
    case True
    then show ?thesis using cf(8)[OF True] cf(2-5) code rejected(5) by (simp add: rejected(6))
  next
    case False
    then show ?thesis using cf(9)[OF False] cf(2-5) code rejected(5) st by (simp add: rejected(6))
  qed
next
  case (accepted topo c d' p)
  have "d' = d" using assms(2) accepted(6) by (simp add: created_fields)
  with assms(3) accepted(4) show ?thesis by simp
qed

theorem device_failure_leaves_cache_consistent_witness:
  "fst (getRenderPipeline exampleEnv rejectingDevice Indexed 0 noAttributes 1 0 newCache)
     = Inl (DeviceError 7)
   \<and> length (deviceCalls
        (snd (getRenderPipeline exampleEnv rejectingDevice Indexed 0 noAttributes 1 0 newCache))) = 1
   \<and> store (snd (getRenderPipeline exampleEnv rejectingDevice Indexed 0 noAttributes 1 0 newCache))
     = []
   \<and> m_parameter_pipeline
        (snd (getRenderPipeline exampleEnv rejectingDevice Indexed 0 noAttributes 1 0 newCache))
     = None
   \<and> NumCacheMiss
        (snd (getRenderPipeline exampleEnv rejectingDevice Indexed 0 noAttributes 1 0 newCache))
     = 0"
proof -
  let ?G = "getRenderPipeline exampleEnv rejectingDevice Indexed 0 noAttributes 1 0 newCache"
  obtain c where c: "creationState exampleEnv Indexed 0 noAttributes 1 0 newCache c"
    and g: "?G =
        (case m_GetTopology exampleEnv 0 of
           Inl e \<Rightarrow> (Inl e, c)
         | Inr topo \<Rightarrow>
             (case renderPipelineDescriptor exampleEnv noAttributes topo (GetSample exampleEnv 1) c of
                Inl e \<Rightarrow> (Inl e, c)
              | Inr d \<Rightarrow>
                 (case rejectingDevice [] d of
                    Inl code \<Rightarrow> (Inl (DeviceError code), c\<lparr>deviceCalls := [d]\<rparr>)
                  | Inr p \<Rightarrow> (Inr p, created Indexed False p (c\<lparr>deviceCalls := [d]\<rparr>)))))"
    using newCache_call[of 0 1 0 rejectingDevice] by blast
  obtain d where d: "renderPipelineDescriptor exampleEnv noAttributes TriangleList
       (GetSample exampleEnv 1) c = Inr d"
    using noAttributes_descriptor by blast
  have G: "?G = (Inl (DeviceError 7), c\<lparr>deviceCalls := [d]\<rparr>)"
    unfolding g by (simp add: exampleEnv_topology d rejectingDevice_def)
  have dc: "deviceCalls (c\<lparr>deviceCalls := [d]\<rparr>) = deviceCalls newCache @ [d]"
    by (simp add: newCache_fields)
  have rj: "rejectingDevice (deviceCalls newCache) d = Inl 7"
    by (simp add: rejectingDevice_def)
  have nc: "\<not> disabled newCache" "store newCache = []" "NumCacheMiss newCache = 0"
    by (simp_all add: newCache_fields)
  have ix: "fst (lookupRP Indexed [] key low) = []" for key low
    by (simp add: Indexed_def)
  from device_failure_leaves_cache_consistent[OF G dc rj]
  show ?thesis
    unfolding G fst_conv snd_conv by (simp add: nc ix)
qed

subsection \<open>C6: consecutive attributes and layout entries\<close>

text \<open>
  C6, as amended. Every descriptor that a call of \<open>getRenderPipeline\<close> passes to the
  device has one attribute descriptor per shader attribute, in the order of the
  attributes and with their shader locations; the first one is in the first layout
  entry, the last one in the last. For every pair of consecutive attributes, the second
  is in the same layout entry as the first when both resolve to vertex buffers over one
  and the same existing GPU buffer and the valid-offset flag of both is set, and in the
  next layout entry otherwise: so two attributes over different GPU buffers are in
  separate entries, and so are two attributes over the same GPU buffer when the offset
  of either of them, the earlier one included, is out of range. The flag is
  \<open>_validOffsetRange\<close> of the vertex buffer; where it is still undefined,
  \<open>_setVertexState\<close> sets it during the call to the test on offset, element size and
  stride. The device does receive such a descriptor, and the call returns the device's
  pipeline, whenever every attribute resolves to a vertex buffer of a known format, the
  fill mode has a topology, the device accepts what it is given, and the cache cannot
  answer by itself: it is disabled, or it is dirty or has an empty memo and its lookup
  finds nothing.
\<close>

theorem consecutive_attributes_share_layout:
  assumes "getRenderPipeline E dev strat fillMode eff sc ts s = (r, s')"
  shows "(\<forall>d \<in> set (drop (length (deviceCalls s)) (deviceCalls s')).
            map shaderLocation (attributesOf (buffers d)) =
              map (attributeLocation (attributeLocationsFromEffect eff))
                [0..<length (attributeNamesFromEffect eff)]
          \<and> (attributeNamesFromEffect eff \<noteq> [] \<longrightarrow> entryOf (buffers d) 0 = 0)
          \<and> (\<forall>i. i + 1 < length (attributeNamesFromEffect eff) \<longrightarrow>
                entryOf (buffers d) (i + 1) =
                  entryOf (buffers d) i
                  + (if gpuBufferOf s (attributeNamesFromEffect eff ! i) \<noteq> None
                        \<and> gpuBufferOf s (attributeNamesFromEffect eff ! i)
                            = gpuBufferOf s (attributeNamesFromEffect eff ! (i + 1))
                        \<and> offsetValid s (attributeNamesFromEffect eff ! i)
                        \<and> offsetValid s (attributeNamesFromEffect eff ! (i + 1))
                     then 0 else 1))
          \<and> length (buffers d) =
               (if attributeNamesFromEffect eff = [] then 0
                else entryOf (buffers d) (length (attributeNamesFromEffect eff) - 1) + 1))
     \<and> (\<forall>a. offsetValid s a \<longleftrightarrow>
            (case validOffsetRange (vbHeap s (refOf s a)) of
               None \<Rightarrow> validOffsetRangeOf (m_kMaxVertexBufferStride s) (vbHeap s (refOf s a))
             | Some b \<Rightarrow> b))
     \<and> ((\<forall>a \<in> set (attributeNamesFromEffect eff).
            \<exists>v f. resolveVertexBuffer s a = Inr v
                 \<and> m_GetVertexInputDescriptorFormat (vbHeap s v) = Inr f)
         \<and> (disabled s
             \<or> ((m_isDirty s \<or> m_parameter_pipeline s = None)
                 \<and> (\<forall>key low. snd (lookupRP strat (store s) key low) = None)))
         \<and> (\<forall>d. \<exists>p. dev (deviceCalls s) d = Inr p)
         \<and> (\<exists>topo. m_GetTopology E fillMode = Inr topo)
         \<longrightarrow> (\<exists>p d. r = Inr p \<and> deviceCalls s' = deviceCalls s @ [d]
                   \<and> dev (deviceCalls s) d = Inr p))"
proof -
  let ?P = "\<lambda>d. map shaderLocation (attributesOf (buffers d)) =
              map (attributeLocation (attributeLocationsFromEffect eff))
                [0..<length (attributeNamesFromEffect eff)]
          \<and> (attributeNamesFromEffect eff \<noteq> [] \<longrightarrow> entryOf (buffers d) 0 = 0)
          \<and> (\<forall>i. i + 1 < length (attributeNamesFromEffect eff) \<longrightarrow>
                entryOf (buffers d) (i + 1) =
                  entryOf (buffers d) i
                  + (if gpuBufferOf s (attributeNamesFromEffect eff ! i) \<noteq> None
                        \<and> gpuBufferOf s (attributeNamesFromEffect eff ! i)
                            = gpuBufferOf s (attributeNamesFromEffect eff ! (i + 1))
                        \<and> offsetValid s (attributeNamesFromEffect eff ! i)
                        \<and> offsetValid s (attributeNamesFromEffect eff ! (i + 1))
                     then 0 else 1))
          \<and> length (buffers d) =
               (if attributeNamesFromEffect eff = [] then 0
                else entryOf (buffers d) (length (attributeNamesFromEffect eff) - 1) + 1)"
  have lay: "?P d"
    if "creationState E strat fillMode eff sc ts s c"
      and "renderPipelineDescriptor E eff topo sc' c = Inr d" for c d topo sc'
    by (intro conjI; rule descriptor_layout[OF that])
  have A: "\<forall>d \<in> set (drop (length (deviceCalls s)) (deviceCalls s')). ?P d"
    using assms
  proof (cases rule: getRenderPipeline_deviceCalls)
    case untouched
    then show ?thesis by simp
  next
    case (rejected topo c d code)
    have "?P d" using lay[OF rejected(2,3)] .
    then show ?thesis unfolding rejected(6) by simp
  next
    case (accepted topo c d p)
    have "?P d" using lay[OF accepted(2,3)] .
    moreover have "deviceCalls s' = deviceCalls s @ [d]"
      unfolding accepted(6) by (simp add: created_fields created_more)
    ultimately show ?thesis by simp
  qed
  have B: "\<forall>a. offsetValid s a \<longleftrightarrow>
            (case validOffsetRange (vbHeap s (refOf s a)) of
               None \<Rightarrow> validOffsetRangeOf (m_kMaxVertexBufferStride s) (vbHeap s (refOf s a))
             | Some b \<Rightarrow> b)"
    by (simp add: offsetValid_def memoOf_def split: option.splits)
  have C: "\<exists>p d. r = Inr p \<and> deviceCalls s' = deviceCalls s @ [d]
                   \<and> dev (deviceCalls s) d = Inr p"
    if a: "\<forall>a \<in> set (attributeNamesFromEffect eff).
            \<exists>v f. resolveVertexBuffer s a = Inr v
                 \<and> m_GetVertexInputDescriptorFormat (vbHeap s v) = Inr f"
      and b: "disabled s
             \<or> ((m_isDirty s \<or> m_parameter_pipeline s = None)
                 \<and> (\<forall>key low. snd (lookupRP strat (store s) key low) = None))"
      and c: "\<forall>d. \<exists>p. dev (deviceCalls s) d = Inr p"
      and t: "\<exists>topo. m_GetTopology E fillMode = Inr topo"
  proof -
    from t obtain topo where t': "m_GetTopology E fillMode = Inr topo" by blast
    from call_creates[OF a b c t' assms] show ?thesis by blast
  qed
  show ?thesis
    by (intro conjI; (rule A B | (intro impI, (elim conjE)?, (rule C; assumption))))
qed

text \<open>
  On the new cache with the attributes \<open>position\<close> and \<open>normal\<close>: bound to the vertex
  buffers 1 and 2 (both in GPU buffer 50, offsets 0 and 12 of stride 24) the descriptor
  has one layout entry holding both attribute descriptors; bound to 1 and 3 (GPU
  buffers 50 and 51) it has two layout entries.
\<close>

theorem consecutive_attributes_share_layout_witness:
  "fst (getRenderPipeline exampleEnv acceptingDevice Indexed 0 twoAttributes 1 0
          (boundCache 1 2)) = Inr 100
   \<and> (\<exists>d. deviceCalls (snd (getRenderPipeline exampleEnv acceptingDevice Indexed 0 twoAttributes
                            1 0 (boundCache 1 2))) = [d]
        \<and> map shaderLocation (attributesOf (buffers d)) = [Number 0, Number 1]
        \<and> entryOf (buffers d) 0 = 0 \<and> entryOf (buffers d) 1 = 0
        \<and> length (buffers d) = 1)
   \<and> (\<exists>d. deviceCalls (snd (getRenderPipeline exampleEnv acceptingDevice Indexed 0 twoAttributes
                            1 0 (boundCache 1 3))) = [d]
        \<and> map shaderLocation (attributesOf (buffers d)) = [Number 0, Number 1]
        \<and> entryOf (buffers d) 0 = 0 \<and> entryOf (buffers d) 1 = 1
        \<and> length (buffers d) = 2)"
proof -
  have one: "r = Inr 100 \<and> (\<exists>d. deviceCalls s' = [d]
        \<and> map shaderLocation (attributesOf (buffers d)) = [Number 0, Number 1]
        \<and> entryOf (buffers d) 0 = 0
        \<and> entryOf (buffers d) 1 =
             (if underlyingResource (exampleHeap p) \<noteq> None
                 \<and> underlyingResource (exampleHeap p) = underlyingResource (exampleHeap n)
                 \<and> validOffsetRangeOf 2048 (exampleHeap p)
                 \<and> validOffsetRangeOf 2048 (exampleHeap n) then 0 else 1)
        \<and> length (buffers d) = entryOf (buffers d) 1 + 1)"
    if G: "getRenderPipeline exampleEnv acceptingDevice Indexed 0 twoAttributes 1 0
             (boundCache p n) = (r, s')" for p n r s'
  proof -
    note T = consecutive_attributes_share_layout[OF G]
    from T boundCache_ready(1,2,3)[of p n] boundCache_ready(4)
    have "\<exists>q d. r = Inr q \<and> deviceCalls s' = deviceCalls (boundCache p n) @ [d]
                   \<and> acceptingDevice (deviceCalls (boundCache p n)) d = Inr q"
      by blast
    then obtain d where dc: "deviceCalls s' = [d]" and r: "r = Inr 100"
      unfolding boundCache_fields(4) by (auto simp add: acceptingDevice_def)
    have m: "d \<in> set (drop (length (deviceCalls (boundCache p n))) (deviceCalls s'))"
      unfolding dc boundCache_fields(4) by simp
    from T m
    have "map shaderLocation (attributesOf (buffers d)) =
              map (attributeLocation (attributeLocationsFromEffect twoAttributes))
                [0..<length (attributeNamesFromEffect twoAttributes)]
          \<and> (attributeNamesFromEffect twoAttributes \<noteq> [] \<longrightarrow> entryOf (buffers d) 0 = 0)
          \<and> (\<forall>i. i + 1 < length (attributeNamesFromEffect twoAttributes) \<longrightarrow>
                entryOf (buffers d) (i + 1) =
                  entryOf (buffers d) i
                  + (if gpuBufferOf (boundCache p n) (attributeNamesFromEffect twoAttributes ! i) \<noteq> None
                        \<and> gpuBufferOf (boundCache p n) (attributeNamesFromEffect twoAttributes ! i)
                            = gpuBufferOf (boundCache p n) (attributeNamesFromEffect twoAttributes ! (i + 1))
                        \<and> offsetValid (boundCache p n) (attributeNamesFromEffect twoAttributes ! i)
                        \<and> offsetValid (boundCache p n) (attributeNamesFromEffect twoAttributes ! (i + 1))
                     then 0 else 1))
          \<and> length (buffers d) =
               (if attributeNamesFromEffect twoAttributes = [] then 0
                else entryOf (buffers d) (length (attributeNamesFromEffect twoAttributes) - 1) + 1)"
      by blast
    then have 1: "map shaderLocation (attributesOf (buffers d)) = [Number 0, Number 1]"
      and 2: "entryOf (buffers d) 0 = 0"
      and 3: "0 + 1 < length [''position'', ''normal''] \<longrightarrow>
                entryOf (buffers d) (0 + 1) =
                  entryOf (buffers d) 0
                  + (if gpuBufferOf (boundCache p n) ([''position'', ''normal''] ! 0) \<noteq> None
                        \<and> gpuBufferOf (boundCache p n) ([''position'', ''normal''] ! 0)
                            = gpuBufferOf (boundCache p n) ([''position'', ''normal''] ! (0 + 1))
                        \<and> offsetValid (boundCache p n) ([''position'', ''normal''] ! 0)
                        \<and> offsetValid (boundCache p n) ([''position'', ''normal''] ! (0 + 1))
                     then 0 else 1)"
      and 4: "length (buffers d) = entryOf (buffers d) 1 + 1"
      unfolding twoAttributes_fields(1) by (simp_all add: twoAttributes_fields(2,3))
    from 3 have 5: "entryOf (buffers d) 1 =
             (if underlyingResource (exampleHeap p) \<noteq> None
                 \<and> underlyingResource (exampleHeap p) = underlyingResource (exampleHeap n)
                 \<and> validOffsetRangeOf 2048 (exampleHeap p)
                 \<and> validOffsetRangeOf 2048 (exampleHeap n) then 0 else 1)"
      unfolding 2 by (simp add: boundCache_vocabulary)
    show ?thesis by (intro conjI r, rule exI[of _ d]) (intro conjI dc 1 2 5 4)
  qed
  obtain r1 s1 where G1: "getRenderPipeline exampleEnv acceptingDevice Indexed 0 twoAttributes
      1 0 (boundCache 1 2) = (r1, s1)"
    by (metis surj_pair)
  obtain r2 s2 where G2: "getRenderPipeline exampleEnv acceptingDevice Indexed 0 twoAttributes
      1 0 (boundCache 1 3) = (r2, s2)"
    by (metis surj_pair)
  show ?thesis
    unfolding G1 G2 snd_conv fst_conv
    using one[OF G1] one[OF G2] by (auto simp add: exampleHeap_flags)
qed

text \<open>
  C6 as stated fails: two consecutive attributes over the same GPU buffer, the second
  with its offset in range, need not share a layout entry. With \<open>position\<close> bound to
  vertex buffer 4 (GPU buffer 50, offset 16, twelve bytes, stride 24: out of range) and
  \<open>normal\<close> bound to vertex buffer 1 (GPU buffer 50, offset 0: in range), the first
  round of \<open>_getVertexInputDescriptor\<close> sets \<open>buffer = null\<close>, so the second round finds
  no current GPU buffer and starts a second layout entry.
\<close>

theorem invalid_previous_offset_starts_new_layout:
  "gpuBufferOf (boundCache 4 1) ''position'' = Some 50
   \<and> gpuBufferOf (boundCache 4 1) ''normal'' = Some 50
   \<and> validOffsetRangeOf (m_kMaxVertexBufferStride (boundCache 4 1))
        (vbHeap (boundCache 4 1) (refOf (boundCache 4 1) ''normal''))
   \<and> (\<exists>d. deviceCalls (snd (getRenderPipeline exampleEnv acceptingDevice Indexed 0 twoAttributes
                            1 0 (boundCache 4 1))) = [d]
        \<and> entryOf (buffers d) 0 = 0 \<and> entryOf (buffers d) 1 = 1
        \<and> length (buffers d) = 2)"
proof -
  obtain r s' where G: "getRenderPipeline exampleEnv acceptingDevice Indexed 0 twoAttributes
      1 0 (boundCache 4 1) = (r, s')"
    by (metis surj_pair)
  obtain c d where cs: "creationState exampleEnv Indexed 0 twoAttributes 1 0 (boundCache 4 1) c"
    and d: "renderPipelineDescriptor exampleEnv twoAttributes TriangleList
                (GetSample exampleEnv 1) c = Inr d"
    and dc: "deviceCalls s' = [d]"
    using boundCache_call[OF G] by blast
  note L = descriptor_layout[OF cs d, unfolded twoAttributes_fields(1)]
  have 0: "entryOf (buffers d) 0 = 0" using L(2) by simp
  have "0 + 1 < length [''position'', ''normal''] \<longrightarrow>
          entryOf (buffers d) (0 + 1) =
            entryOf (buffers d) 0
            + (if gpuBufferOf (boundCache 4 1) ([''position'', ''normal''] ! 0) \<noteq> None
                  \<and> gpuBufferOf (boundCache 4 1) ([''position'', ''normal''] ! 0)
                      = gpuBufferOf (boundCache 4 1) ([''position'', ''normal''] ! (0 + 1))
                  \<and> offsetValid (boundCache 4 1) ([''position'', ''normal''] ! 0)
                  \<and> offsetValid (boundCache 4 1) ([''position'', ''normal''] ! (0 + 1))
               then 0 else 1)"
    using L(3) by blast
  then have 1: "entryOf (buffers d) 1 = 1"
    unfolding 0 by (simp add: boundCache_vocabulary exampleHeap_flags)
  have 2: "length (buffers d) = 2" using L(4) 1 by simp
  have v: "validOffsetRangeOf (m_kMaxVertexBufferStride (boundCache 4 1))
        (vbHeap (boundCache 4 1) (refOf (boundCache 4 1) ''normal''))"
    by (simp add: boundCache_fields refOf_def exampleHeap_flags)
  show ?thesis
    unfolding G snd_conv
    using dc 0 1 2 v by (simp add: boundCache_vocabulary exampleHeap_flags)
qed

subsection \<open>C7: formats without a stencil aspect\<close>

text \<open>
  C7. When the configured depth-stencil format has no stencil aspect, a call of
  \<open>getRenderPipeline\<close> leaves \<open>_stencilEnabled\<close> as it is, and every descriptor that
  the call passes to the device has a depth-stencil state in which \<open>stencilFront\<close>,
  \<open>stencilBack\<close>, \<open>stencilReadMask\<close> and \<open>stencilWriteMask\<close> are all undefined. The
  example is a depth-only format with the stencil test enabled.
\<close>

theorem no_stencil_aspect_omits_stencil_state:
  assumes "getRenderPipeline E dev strat fillMode eff sc ts s = (r, s')"
    and "m_webgpuDepthStencilFormat s = Some f"
    and "\<not> HasStencilAspect E f"
  shows "m_stencilEnabled s' = m_stencilEnabled s
     \<and> (\<forall>d \<in> set (drop (length (deviceCalls s)) (deviceCalls s')).
           \<exists>ds. depthStencil d = Some ds \<and> stencilFront ds = None \<and> stencilBack ds = None
                \<and> stencilReadMask ds = None \<and> stencilWriteMask ds = None)"
proof -
  have en: "m_stencilEnabled s' = m_stencilEnabled s"
    using assms(1)
  proof (cases rule: getRenderPipeline_outcomes)
    case vertex
    show ?thesis using recomputes_fields(14)[OF vertex(2)] .
  next
    case (topology e)
    then show ?thesis by simp
  next
    case (topology_miss e s3)
    then show ?thesis
      using recomputes_fields(14)[OF prepare_frame(1)[OF topology_miss(4)]]
      by (simp add: lookedUp_fields)
  next
    case (memo p s3)
    then show ?thesis
      using recomputes_fields(14)[OF prepare_frame(1)[OF memo(2)]] by simp
  next
    case (hit p s3)
    then show ?thesis
      using recomputes_fields(14)[OF prepare_frame(1)[OF hit(2)]]
      by (simp add: lookedUp_fields)
  next
    case (failed topo c e)
    from failed(3) have "m_stencilEnabled s' = m_stencilEnabled c"
      by (cases rule: m_createRenderPipeline_cases) simp_all
    then show ?thesis using creationState_fields(7)[OF failed(2)] by simp
  next
    case (success topo c p s5)
    from success(3) have "m_stencilEnabled s5 = m_stencilEnabled c"
      by (cases rule: m_createRenderPipeline_cases) simp_all
    then show ?thesis
      using creationState_fields(7)[OF success(2)] success(5) by (simp add: created_fields)
  qed
  have ds: "\<forall>d \<in> set (drop (length (deviceCalls s)) (deviceCalls s')).
           \<exists>ds. depthStencil d = Some ds \<and> stencilFront ds = None \<and> stencilBack ds = None
                \<and> stencilReadMask ds = None \<and> stencilWriteMask ds = None"
    using assms(1)
  proof (cases rule: getRenderPipeline_deviceCalls)
    case untouched
    then show ?thesis by simp
  next
    case (rejected topo c d code)
    have "m_webgpuDepthStencilFormat c = Some f"
      using creationState_fields(6)[OF rejected(2)] assms(2) by simp
    from renderPipelineDescriptor_depthStencil[OF rejected(3) this assms(3)]
    show ?thesis by (simp add: rejected(6))
  next
    case (accepted topo c d p)
    have "m_webgpuDepthStencilFormat c = Some f"
      using creationState_fields(6)[OF accepted(2)] assms(2) by simp
    from renderPipelineDescriptor_depthStencil[OF accepted(3) this assms(3)]
    show ?thesis by (simp add: accepted(6) created_fields)
  qed
  from en ds show ?thesis by blast
qed

theorem no_stencil_aspect_omits_stencil_state_witness:
  "m_stencilEnabled depthOnlyCache
   \<and> m_stencilEnabled
       (snd (getRenderPipeline exampleEnv acceptingDevice Indexed 0 noAttributes 1 0 depthOnlyCache))
   \<and> (\<exists>d ds.
         deviceCalls
           (snd (getRenderPipeline exampleEnv acceptingDevice Indexed 0 noAttributes 1 0
                   depthOnlyCache)) = [d]
         \<and> depthStencil d = Some ds \<and> stencilFront ds = None \<and> stencilBack ds = None
         \<and> stencilReadMask ds = None \<and> stencilWriteMask ds = None)"
proof -
  let ?G = "getRenderPipeline exampleEnv acceptingDevice Indexed 0 noAttributes 1 0 depthOnlyCache"
  have a: "attributeNamesFromEffect noAttributes = []" by (simp add: noAttributes_def)
  have b: "\<not> disabled depthOnlyCache"
    "m_isDirty depthOnlyCache \<or> m_parameter_pipeline depthOnlyCache = None"
    "\<forall>key low. snd (lookupRP Indexed (store depthOnlyCache) key low) = None"
    by (simp_all add: depthOnlyCache_fields Indexed_empty)
  have dc: "deviceCalls depthOnlyCache = []" by (simp add: depthOnlyCache_fields)
  obtain c where g: "?G =
        (case m_GetTopology exampleEnv 0 of
           Inl e \<Rightarrow> (Inl e, c)
         | Inr topo \<Rightarrow>
             (case renderPipelineDescriptor exampleEnv noAttributes topo (GetSample exampleEnv 1) c of
                Inl e \<Rightarrow> (Inl e, c)
              | Inr d \<Rightarrow>
                 (case acceptingDevice [] d of
                    Inl code \<Rightarrow> (Inl (DeviceError code), c\<lparr>deviceCalls := [d]\<rparr>)
                  | Inr p \<Rightarrow> (Inr p, created Indexed False p (c\<lparr>deviceCalls := [d]\<rparr>)))))"
    using fresh_call[OF a b, of exampleEnv 0 1 0 acceptingDevice] unfolding dc append_Nil by blast
  obtain d where d: "renderPipelineDescriptor exampleEnv noAttributes TriangleList
       (GetSample exampleEnv 1) c = Inr d"
    using noAttributes_descriptor by blast
  have G: "?G = (Inr 100, created Indexed False 100 (c\<lparr>deviceCalls := [d]\<rparr>))"
    unfolding g by (simp add: exampleEnv_topology d acceptingDevice_def)
  have dc': "deviceCalls (created Indexed False 100 (c\<lparr>deviceCalls := [d]\<rparr>)) = [d]"
    by (simp add: created_fields)
  from no_stencil_aspect_omits_stencil_state[OF G depthOnlyCache_fields(5) exampleEnv_depth32float]
  show ?thesis
    unfolding G fst_conv snd_conv dc' dc by (simp add: depthOnlyCache_fields(6))
qed

subsection \<open>C8: line-loop and triangle-fan draw modes\<close>

text \<open>
  C8. The claim fails at the input below, where the code departs from what it sets out
  to do. \<open>_GetTopology\<close> throws for the triangle-fan draw mode, and the first
  triangle-fan request on the new cache does throw. A triangle-fill request made while
  \<open>disabled\<close> is set then creates pipeline 100 from a triangle-list descriptor and
  keeps it in the memo, without touching the dirty tracking. With \<open>disabled\<close> cleared
  again, the same triangle-fan request is answered from the memo with pipeline 100: no
  error is thrown, and the only descriptor the device has seen asks for a triangle
  list.
\<close>

theorem fan_request_answered_from_memo:
  "MATERIAL_TriangleFanDrawMode exampleEnv = 8
   \<and> m_GetTopology exampleEnv 8 = Inl TriangleFanUnsupported
   \<and> fst (getRenderPipeline exampleEnv acceptingDevice Indexed 8 noAttributes 1 0 newCache)
       = Inl TriangleFanUnsupported
   \<and> fst (getRenderPipeline exampleEnv acceptingDevice Indexed 0 noAttributes 1 0
            (afterFanRequest\<lparr>disabled := True\<rparr>)) = Inr 100
   \<and> fst secondFanRequest = Inr 100
   \<and> (\<exists>d. deviceCalls (snd secondFanRequest) = [d] \<and> topology d = TriangleList)"
proof -
  let ?t = "afterBypass\<lparr>disabled := False\<rparr>"
  have en: "\<not> disabled ?t" by simp
  have sync: "inSync exampleEnv 8 noAttributes 1 0 ?t"
    unfolding disabled_update(1) by (rule afterBypass_facts(2))
  have nd: "\<not> m_isDirty ?t" using afterBypass_facts(3) by simp
  have mm: "m_parameter_pipeline ?t = Some 100" using afterBypass_facts(4) by simp
  have n1: "depthStencilStateOf ?t \<noteq> NaN"
    unfolding disabled_update(2) by (rule afterBypass_facts(5))
  have n2: "\<forall>k < 4. colorStateOf ?t k \<noteq> NaN"
    unfolding disabled_update(3) by (rule afterBypass_facts(6))
  obtain t3 where pr: "prepare exampleEnv 8 noAttributes 1 0 ?t = (None, t3)"
    and g: "secondFanRequest =
         (Inr 100, t3\<lparr>m_stateDirtyLowestIndex := m_statesLength t3,
                      NumCacheHitWithoutHash := NumCacheHitWithoutHash t3 + 1\<rparr>)"
    using memo_hit[OF en sync nd mm n1 n2, of acceptingDevice Indexed]
    unfolding secondFanRequest_def by blast
  have dc: "deviceCalls t3 = deviceCalls afterBypass"
    using recomputes_fields(2)[OF prepare_frame(1)[OF pr]] by simp
  show ?thesis
    unfolding g
    using afterFanRequest_facts(1) afterBypass_facts(1,7) exampleEnv_topology(3,7) dc by simp
qed

text \<open>
  What every request with the line-loop or the triangle-fan draw mode does guarantee
  (the fill-mode constants being pairwise different): the device is not called, no miss
  and no creation are counted, and the store is as it was or as the lookup of the call
  left it. In the disabled mode the configuration error is always thrown and the cache
  is untouched. In the enabled mode the configuration error is thrown unless the vertex
  state throws first, or the memo answers (the cache being clean before and after the
  call), or the lookup answers.
\<close>

lemma unsupported_topology_outcomes:
  assumes "distinctFillModes E"
    and "fillMode = MATERIAL_LineLoopDrawMode E \<or> fillMode = MATERIAL_TriangleFanDrawMode E"
    and "getRenderPipeline E dev strat fillMode eff sc ts s = (r, s')"
  shows "deviceCalls s' = deviceCalls s
     \<and> NumCacheMiss s' = NumCacheMiss s
     \<and> m_NumPipelineCreationCurrentFrame s' = m_NumPipelineCreationCurrentFrame s
     \<and> (store s' = store s
         \<or> store s' = fst (lookupRP strat (store s) (stateVector s')
                             (the (lastStateDirtyLowestIndex s'))))
     \<and> (disabled s \<longrightarrow> (\<exists>e. r = Inl e \<and> isConfigError e) \<and> s' = s)
     \<and> ((\<exists>e. r = Inl e \<and> isConfigError e \<and> m_GetTopology E fillMode = Inl e)
         \<or> r = Inl TypeError
         \<or> (\<exists>p. r = Inr p
               \<and> ((m_parameter_pipeline s = Some p \<and> \<not> m_isDirty s \<and> \<not> m_isDirty s')
                   \<or> snd (lookupRP strat (store s) (stateVector s')
                             (the (lastStateDirtyLowestIndex s'))) = Some p)))"
proof -
  obtain e where e: "m_GetTopology E fillMode = Inl e" "isConfigError e"
    using assms(1,2) m_GetTopology_unsupported by fastforce
  from assms(3) show ?thesis
  proof (cases rule: getRenderPipeline_outcomes)
    case vertex
    note rf = recomputes_fields[OF vertex(2)]
    have "\<not> disabled s"
    proof
      assume "disabled s"
      then have "getRenderPipeline E dev strat fillMode eff sc ts s = (Inl e, s)"
        using e(1) by (simp add: getRenderPipeline_disabled)
      with assms(3) vertex(1) e(2) show False by auto
    qed
    then show ?thesis using vertex(1) rf by simp
  next
    case (topology e')
    then show ?thesis using e by auto
  next
    case (topology_miss e' s3)
    note rf = recomputes_fields[OF prepare_frame(1)[OF topology_miss(4)]]
    have "store s' = fst (lookupRP strat (store s) (stateVector s')
                             (the (lastStateDirtyLowestIndex s')))"
      using prepare_last[OF topology_miss(4)] rf(1)
      by (simp add: topology_miss(5) lookedUp_fields)
    moreover have "r = Inl e" using topology_miss(1,2) e(1) by simp
    ultimately show ?thesis
      using e topology_miss(3) rf by (simp add: topology_miss(5) lookedUp_fields)
  next
    case (memo p s3)
    note rf = recomputes_fields[OF prepare_frame(1)[OF memo(2)]]
    have "\<not> m_isDirty s" using prepare_dirty[OF memo(2)] memo(3) by blast
    then show ?thesis using memo(1,3,4,5) rf by (simp add: memo(6))
  next
    case (hit p s3)
    note rf = recomputes_fields[OF prepare_frame(1)[OF hit(2)]]
    have st: "store s' = fst (lookupRP strat (store s) (stateVector s')
                             (the (lastStateDirtyLowestIndex s')))"
      using prepare_last[OF hit(2)] rf(1)
      by (simp add: hit(6) lookedUp_fields stateVector_def lookedUp_def)
    have "snd (lookupRP strat (store s) (stateVector s')
                             (the (lastStateDirtyLowestIndex s'))) = Some p"
      using prepare_last[OF hit(2)] rf(1) hit(4)
      by (simp add: hit(6) lookedUp_def stateVector_def)
    with st show ?thesis using hit(1,5) rf by (simp add: hit(6) lookedUp_fields)
  next
    case (failed topo c e')
    with e show ?thesis by simp
  next
    case (success topo c p s5)
    with e show ?thesis by simp
  qed
qed

subsection \<open>C9: the attachment bound of setMRT\<close>

text \<open>
  C9. \<open>setMRT\<close> with more than 8 attachments throws a configuration error; with 8 (or
  fewer) it succeeds. The number of attachments is \<open>textureCount\<close>, or the length of the
  texture array when \<open>textureCount\<close> is not given. On success the cache records that
  many attachments and that many formats.
\<close>

theorem setMRT_attachment_bound:
  "(let n = (case textureCount of None \<Rightarrow> length textureArray | Some k \<Rightarrow> k)
    in (n > 8 \<longrightarrow> setMRT E textureArray textureCount s = Inl TooManyAttachments
                  \<and> isConfigError TooManyAttachments)
       \<and> (n \<le> 8 \<longrightarrow> (\<exists>s'. setMRT E textureArray textureCount s = Inr s'
                        \<and> mrtTextureCount s' = n \<and> length (m_mrtFormats s') = n)))"
  by (simp add: setMRT_def setMRT_body_def Let_def)

theorem setMRT_attachment_bound_witness:
  "setMRT exampleEnv (replicate 9 \<lparr>hardwareTextureFormat = Some ''rgba8unorm''\<rparr>) None newCache
     = Inl TooManyAttachments
   \<and> (\<exists>s'. setMRT exampleEnv (replicate 8 \<lparr>hardwareTextureFormat = Some ''rgba8unorm''\<rparr>) None newCache
            = Inr s' \<and> mrtTextureCount s' = 8 \<and> length (m_mrtFormats s') = 8)"
  using setMRT_attachment_bound [where textureCount = None and E = exampleEnv and s = newCache
      and textureArray = "replicate 9 \<lparr>hardwareTextureFormat = Some ''rgba8unorm''\<rparr>"]
    setMRT_attachment_bound [where textureCount = None and E = exampleEnv and s = newCache
      and textureArray = "replicate 8 \<lparr>hardwareTextureFormat = Some ''rgba8unorm''\<rparr>"]
  by (simp add: Let_def)

subsection \<open>C10: fill modes that are not recognised\<close>




end
